(* ===== verification/Prelude.thy ===== *)
theory Prelude
  imports Main "HOL-Library.Word" "HOL-Library.AList"
begin

text \<open>
  Shared vocabulary of the development: the types that name Rust's bytes, machine integers and
  results, the big-endian conversions of the standard library, association lists standing for
  \<^verbatim>\<open>HashMap\<close>, and the generic facts about them that the component theories use. The collection
  \<open>codec_simps\<close> gathers what the byte-level proofs unfold, \<open>alist_simps\<close> what the map proofs
  unfold.
\<close>

named_theorems codec_simps
named_theorems alist_simps

type_synonym byte = "8 word"
type_synonym bytes = "8 word list"
type_synonym u16 = "16 word"
type_synonym u32 = "32 word"
type_synonym u64 = "64 word"

text \<open>Largest values of the unsigned machine types, as natural numbers.\<close>

abbreviation (input) u8_max :: nat where "u8_max \<equiv> 2 ^ 8 - 1"
abbreviation (input) u64_max :: nat where "u64_max \<equiv> 2 ^ 64 - 1"

text \<open>
  Saturating and wrapping arithmetic of \<^verbatim>\<open>u64\<close> on natural numbers that stand for values of that
  type (\<^verbatim>\<open>saturating_add\<close>, \<^verbatim>\<open>saturating_sub\<close> is truncated subtraction, \<^verbatim>\<open>as u64\<close>).
\<close>

definition sat_add64 :: "nat \<Rightarrow> nat \<Rightarrow> nat" where
  "sat_add64 a b = min (a + b) u64_max"

definition as_u64 :: "nat \<Rightarrow> nat" where
  "as_u64 a = a mod 2 ^ 64"

lemma sat_add64_le [simp]: "sat_add64 a b \<le> u64_max"
  by (simp add: sat_add64_def)

lemma sat_add64_exact: "a + b \<le> u64_max \<Longrightarrow> sat_add64 a b = a + b"
  by (simp add: sat_add64_def)

lemma as_u64_le: "as_u64 a \<le> u64_max"
proof -
  have "a mod 2 ^ 64 < (2 ^ 64 :: nat)" by (rule mod_less_divisor) simp
  then show ?thesis by (simp add: as_u64_def)
qed

subsection \<open>Big-endian byte strings\<close>

text \<open>\<open>be_bytes k n\<close> is \<^verbatim>\<open>to_be_bytes\<close> of a \<open>k\<close>-byte unsigned integer of value \<open>n\<close>, \<open>from_be\<close> is
  \<^verbatim>\<open>from_be_bytes\<close>.\<close>

fun be_bytes :: "nat \<Rightarrow> nat \<Rightarrow> bytes" where
  "be_bytes 0 n = []"
| "be_bytes (Suc k) n = be_bytes k (n div 256) @ [word_of_nat (n mod 256)]"

lemma be_bytes_numeral:
  "be_bytes (numeral k) n = be_bytes (pred_numeral k) (n div 256) @ [word_of_nat (n mod 256)]"
  by (simp only: numeral_eq_Suc [of k] be_bytes.simps)

definition from_be :: "bytes \<Rightarrow> nat" where
  "from_be bs = foldl (\<lambda>a b. a * 256 + unat b) 0 bs"

lemma length_be_bytes [simp]: "length (be_bytes k n) = k"
  by (induction k arbitrary: n) auto

lemma unat_byte_less [simp]: "unat (b :: byte) < 256"
  using unsigned_less [of b] by simp

lemma unat_byte_le [simp]: "unat (b :: byte) \<le> 255"
  using unat_byte_less [of b] by linarith

lemma unat_word_of_byte: "n < 256 \<Longrightarrow> unat (word_of_nat n :: byte) = n"
  by (simp add: unat_of_nat)

lemma from_be_Nil [simp]: "from_be [] = 0"
  by (simp add: from_be_def)

lemma from_be_snoc [simp]: "from_be (bs @ [b]) = from_be bs * 256 + unat b"
  by (simp add: from_be_def)

lemma from_be_be_bytes: "from_be (be_bytes k n) = n mod 256 ^ k"
proof (induction k arbitrary: n)
  case (Suc k)
  have "from_be (be_bytes (Suc k) n) = (n div 256) mod 256 ^ k * 256 + n mod 256"
    by (simp add: Suc unat_word_of_byte)
  also have "\<dots> = n mod (256 * 256 ^ k)"
    by (simp add: mod_mult2_eq)
  finally show ?case by simp
qed simp

lemma from_be_less: "from_be bs < 256 ^ length bs"
proof (induction bs rule: rev_induct)
  case (snoc b bs)
  have "from_be bs * 256 + unat b < (from_be bs + 1) * 256"
    by (simp add: add.commute add_strict_mono)
  also have "\<dots> \<le> 256 ^ length bs * 256"
    using snoc by (intro mult_right_mono) auto
  finally show ?case by simp
qed simp

lemma be_bytes_from_be: "be_bytes (length bs) (from_be bs) = bs"
proof (induction bs rule: rev_induct)
  case (snoc b bs)
  have "(from_be bs * 256 + unat b) div 256 = from_be bs"
    using unat_byte_less [of b] by simp
  moreover have "(from_be bs * 256 + unat b) mod 256 = unat b"
    using unat_byte_less [of b] by simp
  ultimately show ?case using snoc by simp
qed simp

text \<open>The most significant byte.\<close>

lemma hd_be_bytes:
  "k > 0 \<Longrightarrow> hd (be_bytes k n) = word_of_nat ((n div 256 ^ (k - 1)) mod 256)"
proof (induction k arbitrary: n)
  case (Suc k)
  show ?case
  proof (cases k)
    case (Suc j)
    then have "be_bytes k (n div 256) \<noteq> []"
      by (metis length_be_bytes list.size(3) nat.distinct(1))
    then have "hd (be_bytes (Suc k) n) = hd (be_bytes k (n div 256))"
      by simp
    also have "\<dots> = word_of_nat ((n div 256 div 256 ^ (k - 1)) mod 256)"
      using Suc by (intro Suc.IH) simp
    finally show ?thesis using Suc by (simp only: div_mult2_eq [symmetric]) simp
  qed simp
qed simp

lemma be_bytes_nonempty: "k > 0 \<Longrightarrow> be_bytes k n \<noteq> []"
  by (metis length_be_bytes list.size(3) not_gr0)

lemma from_be_Cons: "from_be (b # bs) = unat b * 256 ^ length bs + from_be bs"
proof (induction bs rule: rev_induct)
  case (snoc c cs)
  have "from_be (b # cs @ [c]) = from_be ((b # cs) @ [c])" by simp
  also have "\<dots> = from_be (b # cs) * 256 + unat c" by (rule from_be_snoc)
  finally show ?case using snoc by (simp add: algebra_simps)
qed (simp add: from_be_def)

end
