(* ===== verification/Varint.thy ===== *)
theory Varint
  imports Prelude
begin

unbundle bit_operations_syntax

text \<open>
  QUIC variable-length integers (\<^verbatim>\<open>src/ngtcp2/src/varint.rs\<close>, RFC 9000 section 16). Values are
  \<^typ>\<open>u64\<close>; the casts to \<^verbatim>\<open>u8\<close>, \<^verbatim>\<open>u16\<close> and \<^verbatim>\<open>u32\<close> are \<^const>\<open>ucast\<close>, and a panic is \<open>None\<close>. The
  theory shows that the reader inverts the writer in front of any continuation, that every value
  read is in range and was written in at most as many bytes as it needs, and that a reading of
  minimal length determines the bytes.
\<close>

section \<open>Model\<close>

definition varint_MAX :: u64 where
  "varint_MAX = push_bit 62 1 - 1"

definition encoded_len :: "u64 \<Rightarrow> nat" where
  "encoded_len n = (if n < 64 then 1 else if n < 16384 then 2 else if n < 1073741824 then 4 else 8)"

text \<open>The bytes written by the \<^verbatim>\<open>match len\<close> of \<^verbatim>\<open>encode\<close>.\<close>

definition encode_match :: "nat \<Rightarrow> u64 \<Rightarrow> bytes" where
  "encode_match len n =
    (if len = 1 then [ucast n]
     else if len = 2 then be_bytes 2 (unat ((ucast n :: u16) OR 0x4000))
     else if len = 4 then be_bytes 4 (unat ((ucast n :: u32) OR 0x80000000))
     else be_bytes 8 (unat (n OR 0xc000000000000000)))"

definition encode :: "bytes \<Rightarrow> u64 \<Rightarrow> (bytes \<times> nat) option" where
  "encode buf n =
    (if \<not> n \<le> varint_MAX then None
     else let len = encoded_len n in
       if \<not> len \<le> length buf then None
       else Some (encode_match len n @ drop len buf, len))"

definition encode_to_vec :: "u64 \<Rightarrow> bytes \<Rightarrow> bytes option" where
  "encode_to_vec n buf =
    (let len = encoded_len n; start = length buf; buf1 = buf @ replicate len 0 in
     case encode (drop start buf1) n of
       None \<Rightarrow> None
     | Some (tail, _) \<Rightarrow> Some (take start buf1 @ tail))"

definition decode :: "bytes \<Rightarrow> (u64 \<times> nat) option" where
  "decode buf =
    (case buf of
       [] \<Rightarrow> None
     | first # _ \<Rightarrow>
         let len = 2 ^ unat (drop_bit 6 first) in
         if length buf < len then None
         else Some
          (if len = 1 then ucast first
           else if len = 2 then ucast ((word_of_nat (from_be (take 2 buf)) :: u16) AND 0x3fff)
           else if len = 4 then ucast ((word_of_nat (from_be (take 4 buf)) :: u32) AND 0x3fffffff)
           else (word_of_nat (from_be (take 8 buf)) :: u64) AND 0x3fffffffffffffff, len))"

section \<open>Arithmetic reading of the tag bits\<close>

lemma varint_MAX_eq [simp]: "varint_MAX = 0x3fffffffffffffff"
  by (simp add: varint_MAX_def)

lemma encoded_len_cases: "encoded_len n \<in> {1, 2, 4, 8}"
  by (simp add: encoded_len_def)

lemma encoded_len_pos [simp]: "0 < encoded_len n"
  by (simp add: encoded_len_def)

lemma unat_or_high:
  fixes w t :: "'a::len word"
  assumes "unat w < 2 ^ k" "take_bit k t = 0"
  shows "unat (w OR t) = unat w + unat t"
proof -
  have "take_bit k w = w"
    using assms(1) by (simp add: word_unat_eq_iff unsigned_take_bit_eq take_bit_nat_eq_self)
  then have "w AND t = take_bit k w AND t" by simp
  also have "\<dots> = w AND take_bit k t"
    by (rule bit_eqI) (auto simp: bit_simps)
  also have "\<dots> = 0" using assms(2) by simp
  finally have d: "w AND t = 0" .
  have "unat w AND unat t = unat (w AND t)"
    by (rule unsigned_and_eq [symmetric])
  then have "unat w AND unat t = 0" using d by simp
  then have "unat w + unat t = unat w OR unat t"
    by (rule disjunctive_add_eq_or)
  also have "\<dots> = unat (w OR t)"
    by (rule unsigned_or_eq [symmetric])
  finally show ?thesis by simp
qed

lemma unat_ucast_small:
  fixes n :: u64
  assumes "unat n < 2 ^ LENGTH('b)"
  shows "unat (ucast n :: 'b::len word) = unat n"
  using assms by (simp add: unsigned_ucast_eq take_bit_nat_eq_self)

lemma nat_of_word_less: "(n :: u64) < of_nat m \<Longrightarrow> m < 2 ^ 64 \<Longrightarrow> unat n < m"
  by (simp add: word_less_nat_alt unat_of_nat)

lemma encoded_len_nat:
  "encoded_len n = (if unat n < 2 ^ 6 then 1 else if unat n < 2 ^ 14 then 2
                    else if unat n < 2 ^ 30 then 4 else 8)"
  by (simp add: encoded_len_def word_less_nat_alt)

text \<open>The tag of an encoding of \<open>len\<close> bytes.\<close>

definition tag :: "nat \<Rightarrow> nat" where
  "tag len = (if len = 1 then 0 else if len = 2 then 1 else if len = 4 then 2 else 3)"

lemma encode_match_be:
  assumes "n \<le> varint_MAX"
  shows "encode_match (encoded_len n) n =
    be_bytes (encoded_len n) (unat n + tag (encoded_len n) * 2 ^ (8 * encoded_len n - 2))"
proof -
  have N: "unat n < 2 ^ 62" using assms by (simp add: word_le_nat_alt)
  consider "unat n < 2 ^ 6" | "2 ^ 6 \<le> unat n" "unat n < 2 ^ 14"
    | "2 ^ 14 \<le> unat n" "unat n < 2 ^ 30" | "2 ^ 30 \<le> unat n"
    by linarith
  then show ?thesis
  proof cases
    case 1
    then show ?thesis
      by (simp add: encoded_len_nat encode_match_def tag_def word_of_nat_eq_iff
          word_unat_eq_iff unat_ucast_small unat_of_nat del: of_nat_unat)
  next
    case 2
    then have "unat ((ucast n :: u16) OR 0x4000) = unat n + 0x4000"
      by (subst unat_or_high [where k = 14]) (simp_all add: unat_ucast_small)
    then show ?thesis using 2 by (simp add: encoded_len_nat encode_match_def tag_def)
  next
    case 3
    then have "unat ((ucast n :: u32) OR 0x80000000) = unat n + 0x80000000"
      by (subst unat_or_high [where k = 30]) (simp_all add: unat_ucast_small)
    then show ?thesis using 3 by (simp add: encoded_len_nat encode_match_def tag_def)
  next
    case 4
    have "unat (n OR 0xc000000000000000) = unat n + 0xc000000000000000"
      using N by (subst unat_or_high [where k = 62]) simp_all
    then show ?thesis using 4 by (simp add: encoded_len_nat encode_match_def tag_def)
  qed
qed

text \<open>What \<^const>\<open>decode\<close> computes, in natural numbers: the length from the two top bits of the first
  byte, the value from the remaining bits.\<close>

definition first_len :: "byte \<Rightarrow> nat" where
  "first_len b = 2 ^ (unat b div 64)"

lemma first_len_cases: "first_len b \<in> {1, 2, 4, 8}"
proof -
  have "unat b div 64 < 4" using unat_byte_less [of b] by linarith
  then have "unat b div 64 \<in> {0, 1, 2, 3}" by auto
  then show ?thesis by (auto simp: first_len_def)
qed

lemma unat_drop_6: "unat (drop_bit 6 (b :: byte)) = unat b div 64"
  unfolding unat_drop_bit_eq by (simp add: drop_bit_eq_div)

lemma unat_and_mask:
  fixes w :: "'a::len word"
  shows "m = mask k \<Longrightarrow> unat (w AND m) = unat w mod 2 ^ k"
  by (simp add: take_bit_eq_mask [symmetric] unsigned_take_bit_eq) (simp add: take_bit_eq_mod)

lemma word_of_nat_mod: "(word_of_nat (n mod 2 ^ LENGTH('a)) :: 'a::len word) = word_of_nat n"
  by (simp add: word_of_nat_eq_iff take_bit_eq_mod)

lemma decode_nat:
  "decode (b # r) =
    (if length (b # r) < first_len b then None
     else Some (word_of_nat (from_be (take (first_len b) (b # r)) mod 2 ^ (8 * first_len b - 2)),
                first_len b))"
proof -
  let ?v = "\<lambda>k. from_be (take k (b # r))"
  have L: "(2 :: nat) ^ unat (drop_bit 6 b) = first_len b"
    by (simp add: unat_drop_6 first_len_def)
  have m2: "ucast ((word_of_nat (?v 2) :: u16) AND 0x3fff) = (word_of_nat (?v 2 mod 2 ^ 14) :: u64)"
    if "2 \<le> length (b # r)"
  proof -
    have "?v 2 < 2 ^ 16" using from_be_less [of "take 2 (b # r)"] that by simp
    then show ?thesis
      by (simp add: word_unat_eq_iff unsigned_ucast_eq unat_and_mask [where k = 14] mask_eq_exp_minus_1
          unat_of_nat take_bit_eq_mod)
  qed
  have m4: "ucast ((word_of_nat (?v 4) :: u32) AND 0x3fffffff) = (word_of_nat (?v 4 mod 2 ^ 30) :: u64)"
    if "4 \<le> length (b # r)"
  proof -
    have "?v 4 < 2 ^ 32" using from_be_less [of "take 4 (b # r)"] that by simp
    then show ?thesis
      by (simp add: word_unat_eq_iff unsigned_ucast_eq unat_and_mask [where k = 30] mask_eq_exp_minus_1
          unat_of_nat take_bit_eq_mod)
  qed
  have m8: "(word_of_nat (?v 8) :: u64) AND 0x3fffffffffffffff = word_of_nat (?v 8 mod 2 ^ 62)"
    if "8 \<le> length (b # r)"
  proof -
    have "?v 8 < 2 ^ 64" using from_be_less [of "take 8 (b # r)"] that by simp
    then show ?thesis
      by (simp add: word_unat_eq_iff unat_and_mask [where k = 62] mask_eq_exp_minus_1
          unat_of_nat take_bit_eq_mod)
  qed
  have m1: "ucast b = (word_of_nat (?v 1 mod 2 ^ 6) :: u64)" if "first_len b = 1"
  proof -
    have "unat b div 64 = 0" using that by (auto simp: first_len_def)
    then have "unat b < 64" by simp
    then show ?thesis
      by (simp add: from_be_def word_unat_eq_iff unsigned_ucast_eq unat_of_nat take_bit_eq_mod)
  qed
  show ?thesis
    using first_len_cases [of b] m1 m2 m4 m8
    by (auto simp: decode_def L Let_def Suc_le_eq simp del: take_Suc_Cons)
qed

section \<open>The reader inverts the writer\<close>

text \<open>The bytes of a value in range, as \<^const>\<open>encode\<close> and \<^const>\<open>encode_to_vec\<close> write them.\<close>

definition wire :: "u64 \<Rightarrow> bytes" where
  "wire n = encode_match (encoded_len n) n"

lemma length_wire [simp]: "length (wire n) = encoded_len n"
  by (simp add: wire_def encode_match_def encoded_len_def)

lemma wire_nonempty [simp]: "wire n \<noteq> []"
  by (metis encoded_len_pos length_greater_0_conv length_wire)

lemma unat_max: "n \<le> varint_MAX \<Longrightarrow> unat n < 2 ^ 62"
  by (simp add: word_le_nat_alt)

lemma unat_len_bound: "n \<le> varint_MAX \<Longrightarrow> unat n < 2 ^ (8 * encoded_len n - 2)"
  using unat_max [of n] by (auto simp: encoded_len_nat)

lemma tagged_bound: "n \<le> varint_MAX \<Longrightarrow>
    unat n + tag (encoded_len n) * 2 ^ (8 * encoded_len n - 2) < 256 ^ encoded_len n"
  using unat_len_bound [of n] encoded_len_cases [of n] by (auto simp: tag_def)

lemma from_be_wire:
  "n \<le> varint_MAX \<Longrightarrow>
    from_be (wire n) = unat n + tag (encoded_len n) * 2 ^ (8 * encoded_len n - 2)"
  by (simp only: wire_def encode_match_be from_be_be_bytes mod_less tagged_bound)

lemma hd_wire:
  assumes "n \<le> varint_MAX"
  shows "first_len (hd (wire n)) = encoded_len n"
proof -
  define k where "k = encoded_len n"
  define N where "N = unat n"
  have k: "k \<in> {1, 2, 4, 8}" and N: "N < 2 ^ (8 * k - 2)"
    using encoded_len_cases [of n] unat_len_bound [OF assms] by (simp_all add: k_def N_def)
  have q: "(N + tag k * 2 ^ (8 * k - 2)) div 256 ^ (k - 1) mod 256 div 64 = tag k"
    using k N by (auto simp: tag_def)
  have "hd (wire n) = word_of_nat ((N + tag k * 2 ^ (8 * k - 2)) div 256 ^ (k - 1) mod 256)"
    by (simp add: wire_def encode_match_be [OF assms] hd_be_bytes k_def N_def)
  then have "first_len (hd (wire n)) = 2 ^ tag k"
    using q by (simp add: first_len_def unat_word_of_byte)
  also have "\<dots> = k" using k by (auto simp: tag_def)
  finally show ?thesis by (simp add: k_def)
qed

lemma decode_wire:
  assumes "n \<le> varint_MAX"
  shows "decode (wire n @ rest) = Some (n, encoded_len n)"
proof -
  obtain b r where w: "wire n = b # r" using wire_nonempty by (cases "wire n") auto
  then have fl: "first_len b = encoded_len n" using hd_wire [OF assms] by simp
  have tk: "take (encoded_len n) (b # r @ rest) = wire n"
    using length_wire [of n] unfolding w by (metis append_Cons append_eq_conv_conj)
  have "from_be (wire n) mod 2 ^ (8 * encoded_len n - 2) = unat n"
    using unat_len_bound [OF assms] by (simp add: from_be_wire [OF assms])
  then show ?thesis
    using length_wire [of n] by (simp add: w decode_nat fl tk del: length_wire)
qed

lemma encode_to_vec_wire: "n \<le> varint_MAX \<Longrightarrow> encode_to_vec n buf = Some (buf @ wire n)"
  by (simp add: encode_to_vec_def encode_def wire_def Let_def)

lemma encode_wire:
  "encode buf n = (if n \<le> varint_MAX \<and> encoded_len n \<le> length buf
     then Some (wire n @ drop (encoded_len n) buf, encoded_len n) else None)"
  by (simp add: encode_def wire_def Let_def)

subsection \<open>Interface: a self-delimiting integer code\<close>

text \<open>What a client of the codec relies on: a reader that, in front of any continuation, returns the
  value written and the number of bytes written. From it follow unique decodability and the
  reading of a sequence of fields.\<close>

locale varint_codec =
  fixes enc :: "u64 \<Rightarrow> bytes"
    and dec :: "bytes \<Rightarrow> (u64 \<times> nat) option"
    and in_range :: "u64 \<Rightarrow> bool"
  assumes dec_enc: "in_range n \<Longrightarrow> dec (enc n @ rest) = Some (n, length (enc n))"
    and dec_total: "dec buf = Some (v, k) \<Longrightarrow> 0 < k \<and> k \<le> length buf \<and> in_range v"
begin

lemma prefix_free:
  assumes "in_range m" "in_range n" "enc m @ r = enc n @ s"
  shows "m = n \<and> r = s"
proof -
  have "Some (m, length (enc m)) = Some (n, length (enc n))"
    using dec_enc [OF assms(1), of r] dec_enc [OF assms(2), of s] assms(3) by metis
  then show ?thesis using assms(3) by simp
qed

lemma fields_inj:
  assumes "list_all in_range ms" "list_all in_range ns"
    and "length ms = length ns" "concat (map enc ms) @ r = concat (map enc ns) @ s"
  shows "ms = ns \<and> r = s"
  using assms(3,1,2,4)
proof (induction ms ns rule: list_induct2)
  case (Cons m ms n ns)
  then have "m = n \<and> concat (map enc ms) @ r = concat (map enc ns) @ s"
    by (intro prefix_free) auto
  with Cons show ?case by simp
qed simp

end

lemma decode_SomeD:
  assumes "decode buf = Some (v, k)"
  shows "k \<in> {1, 2, 4, 8}" "k \<le> length buf" "k = first_len (hd buf)"
    "unat v = from_be (take k buf) mod 2 ^ (8 * k - 2)" "v \<le> varint_MAX"
proof -
  obtain b r where b: "buf = b # r" using assms by (cases buf) (auto simp: decode_def)
  have k: "k = first_len b" and l: "k \<le> length buf"
    and v: "v = word_of_nat (from_be (take k buf) mod 2 ^ (8 * k - 2))"
    using assms by (auto simp: b decode_nat split: if_splits)
  have k8: "k \<in> {1, 2, 4, 8}" using first_len_cases k by simp
  have "from_be (take k buf) mod 2 ^ (8 * k - 2) < 2 ^ (8 * k - 2)"
    by (rule mod_less_divisor) simp
  also have "\<dots> \<le> (2 :: nat) ^ 62" using k8 by (intro power_increasing) auto
  finally have small: "from_be (take k buf) mod 2 ^ (8 * k - 2) < 2 ^ 62" .
  then show u: "unat v = from_be (take k buf) mod 2 ^ (8 * k - 2)"
    by (simp add: v unat_of_nat)
  show "v \<le> varint_MAX" using small by (simp add: word_le_nat_alt u)
  show "k \<in> {1, 2, 4, 8}" "k \<le> length buf" "k = first_len (hd buf)" using k8 l k b by auto
qed

lemma first_len_tag: "tag (first_len b) = unat b div 64"
proof -
  have "unat b div 64 < 4" using unat_byte_less [of b] by linarith
  then have "unat b div 64 \<in> {0, 1, 2, 3}" by auto
  then show ?thesis by (auto simp: first_len_def tag_def)
qed

lemma take_k_wire:
  assumes "decode buf = Some (v, k)"
  shows "k = encoded_len v \<Longrightarrow> wire v = take k buf"
proof -
  assume kv: "k = encoded_len v"
  note d = decode_SomeD [OF assms]
  define F where "F = from_be (take k buf)"
  have lk: "length (take k buf) = k" using d(2) by simp
  have "hd (take k buf) = hd buf" using d(1,2) by (cases buf) auto
  then have "first_len (hd (take k buf)) = k" using d(3) by simp
  moreover obtain b r where br: "take k buf = b # r" using d(1) lk by (cases "take k buf") auto
  ultimately have fb: "first_len b = k" by simp
  have F: "F = unat b * 256 ^ (k - 1) + from_be r" "from_be r < 256 ^ (k - 1)"
    using from_be_Cons [of b r] from_be_less [of r] lk by (auto simp: F_def br)
  have "unat b div 64 = tag k"
    using first_len_tag [of b] fb by simp
  then have "F div 2 ^ (8 * k - 2) = tag k"
    using F d(1) by (auto simp: tag_def)
  then have "F = unat v + tag k * 2 ^ (8 * k - 2)"
    using d(4) div_mult_mod_eq [of F "2 ^ (8 * k - 2)"] by (simp add: F_def)
  then have "be_bytes k F = wire v"
    using encode_match_be [OF d(5)] by (simp add: wire_def kv)
  then show "wire v = take k buf"
    using be_bytes_from_be [of "take k buf"] lk by (simp add: F_def)
qed

interpretation vc: varint_codec wire decode "\<lambda>n. n \<le> varint_MAX"
proof (unfold_locales, goal_cases)
  case (1 n rest) then show ?case by (simp only: decode_wire length_wire)
next
  case (2 buf v k) then show ?case using decode_SomeD [OF 2] by auto
qed

section \<open>Properties\<close>

text \<open>C24. Writing a value in range appends exactly \<^const>\<open>encoded_len\<close> bytes to the vector, and reading
  them back in front of any continuation returns the value and that number of bytes; a value out
  of range makes the writer panic.\<close>

theorem varint_roundtrip:
  "(if n \<le> varint_MAX
    then \<exists>bs. encode_to_vec n buf = Some (buf @ bs) \<and> length bs = encoded_len n
           \<and> decode (bs @ rest) = Some (n, encoded_len n)
    else encode_to_vec n buf = None)"
proof (cases "n \<le> varint_MAX")
  case True
  then show ?thesis
    using encode_to_vec_wire [OF True, of buf] decode_wire [OF True, of rest] length_wire [of n]
    by (simp only: if_True) blast
next
  case False
  then show ?thesis by (simp only: encode_to_vec_def encode_def Let_def) simp
qed

text \<open>Every successful reading consumes 1, 2, 4 or 8 bytes that are there, returns a value in range,
  consumes at least the length the writer would use for that value, and when it consumes exactly
  that length the bytes are the ones the writer produces.\<close>

lemma decode_canonical:
  assumes "decode buf = Some (v, k)"
  shows "k \<in> {1, 2, 4, 8} \<and> k \<le> length buf \<and> v \<le> varint_MAX \<and> encoded_len v \<le> k
    \<and> (k = encoded_len v \<longrightarrow> encode (take k buf) v = Some (take k buf, k))"
proof (intro conjI impI)
  note d = decode_SomeD [OF assms]
  show "k \<in> {1, 2, 4, 8}" "k \<le> length buf" "v \<le> varint_MAX" using d by auto
  have "unat v < 2 ^ (8 * k - 2)" unfolding d(4) by (rule mod_less_divisor) simp
  with d(1) show "encoded_len v \<le> k" by (auto simp: encoded_len_nat)
  show "encode (take k buf) v = Some (take k buf, k)" if "k = encoded_len v"
    using take_k_wire [OF assms that] that d(2,5) by (simp add: encode_wire)
qed

text \<open>The encodings are uniquely decodable: two sequences of the same number of values whose
  encodings agree up to what follows are equal, and so is what follows.\<close>

lemma varint_fields_unique:
  assumes "list_all (\<lambda>n. n \<le> varint_MAX) ms" "list_all (\<lambda>n. n \<le> varint_MAX) ns"
    and "length ms = length ns" "concat (map wire ms) @ r = concat (map wire ns) @ s"
  shows "ms = ns \<and> r = s"
  using assms by (rule vc.fields_inj)

end
