(* ===== verification/Packet.thy ===== *)
theory Packet
  imports Varint "HOL-Library.Monad_Syntax"
begin

unbundle bit_operations_syntax

text \<open>
  Splitting a written buffer into QUIC packets (\<^verbatim>\<open>src/ngtcp2/src/packet.rs\<close>). \<open>packet_len\<close> finds
  the end of the first packet, \<open>split_packets\<close> iterates it; \<open>None\<close> of the former is the code's
  \<^verbatim>\<open>None\<close>, \<open>None\<close> of the latter is the panic of \<^verbatim>\<open>split_at\<close> beyond the end. \<^verbatim>\<open>usize\<close> is 64 bits wide and
  its checked additions are written out. The theorems show that splitting never panics and loses
  nothing, that it finds the packet boundaries of coalesced version 1 packets, and what happens to
  the other packet type numbering of version 2.
\<close>

section \<open>Model\<close>

text \<open>\<^verbatim>\<open>slice.get(i)\<close>, \<^verbatim>\<open>slice.get(i..j)\<close>, \<^verbatim>\<open>slice.get(i..)\<close> and \<^verbatim>\<open>usize::checked_add\<close>.\<close>

definition get_at :: "bytes \<Rightarrow> nat \<Rightarrow> byte option" where
  "get_at buf i = (if i < length buf then Some (buf ! i) else None)"

definition get_range :: "bytes \<Rightarrow> nat \<Rightarrow> nat \<Rightarrow> bytes option" where
  "get_range buf i j = (if i \<le> j \<and> j \<le> length buf then Some (take (j - i) (drop i buf)) else None)"

definition get_from :: "bytes \<Rightarrow> nat \<Rightarrow> bytes option" where
  "get_from buf i = (if i \<le> length buf then Some (drop i buf) else None)"

definition checked_add :: "nat \<Rightarrow> nat \<Rightarrow> nat option" where
  "checked_add a b = (if a + b < 2 ^ 64 then Some (a + b) else None)"

text \<open>The position after the token of an Initial packet (type 0); other types have no token.\<close>

definition skip_token :: "byte \<Rightarrow> bytes \<Rightarrow> nat \<Rightarrow> nat option" where
  "skip_token packet_type buf pos =
    (if packet_type = 0 then do {
       bs \<leftarrow> get_from buf pos;
       (token_len, len) \<leftarrow> decode bs;
       p \<leftarrow> checked_add pos len;
       checked_add p (unat token_len)
     } else Some pos)"

definition packet_len :: "bytes \<Rightarrow> nat option" where
  "packet_len buf = do {
     first \<leftarrow> get_at buf 0;
     if first AND 0x80 = 0 then Some (length buf)
     else do {
       vb \<leftarrow> get_range buf 1 5;
       let version = (word_of_nat (from_be vb) :: u32);
       if version = 0 then Some (length buf)
       else do {
         dcid_len \<leftarrow> get_at buf 5;
         p \<leftarrow> checked_add 5 1;
         pos \<leftarrow> checked_add p (unat dcid_len);
         scid_len \<leftarrow> get_at buf pos;
         p \<leftarrow> checked_add pos 1;
         pos \<leftarrow> checked_add p (unat scid_len);
         let packet_type = drop_bit 4 (first AND 0x30);
         if packet_type = 3 then Some (length buf)
         else do {
           pos \<leftarrow> skip_token packet_type buf pos;
           bs \<leftarrow> get_from buf pos;
           (plen, len) \<leftarrow> decode bs;
           p \<leftarrow> checked_add pos len;
           e \<leftarrow> checked_add p (unat plen);
           if e \<le> length buf then Some e else None
         }
       }
     }
   }"

lemma checked_add_SomeD: "checked_add a b = Some c \<Longrightarrow> c = a + b"
  by (simp add: checked_add_def split: if_splits)

lemma get_from_SomeD: "get_from buf i = Some bs \<Longrightarrow> i \<le> length buf \<and> bs = drop i buf"
  by (simp add: get_from_def split: if_splits)

lemma get_at_SomeD: "get_at buf i = Some b \<Longrightarrow> i < length buf \<and> b = buf ! i"
  by (simp add: get_at_def split: if_splits)

lemma packet_len_bounds:
  assumes "packet_len buf = Some n"
  shows "0 < n \<and> n \<le> length buf"
proof -
  have ne: "0 < length buf"
    using assms by (auto simp: packet_len_def bind_eq_Some_conv dest: get_at_SomeD)
  consider "n = length buf" | p c where "checked_add p c = Some n" "0 < p" "n \<le> length buf"
    using assms
    by (auto simp: packet_len_def bind_eq_Some_conv Let_def split: if_splits)
       (metis add_pos_pos checked_add_SomeD decode_SomeD(1) empty_iff insert_iff trans_less_add2
          zero_less_one zero_less_numeral)+
  then show ?thesis using ne by cases (auto dest!: checked_add_SomeD)
qed

function split_packets :: "bytes \<Rightarrow> bytes list option" where
  "split_packets rest =
    (if rest = [] then Some []
     else case packet_len rest of
       None \<Rightarrow> Some [rest]
     | Some len \<Rightarrow>
         if length rest < len then None
         else map_option ((#) (take len rest)) (split_packets (drop len rest)))"
  by pat_completeness auto

termination
  by (relation "measure length") (auto dest: packet_len_bounds)

declare split_packets.simps [simp del]

section \<open>Splitting as an interface\<close>

text \<open>A splitter that cuts off what a length function delimits, and keeps the rest when the length
  is unknown. Its clients rely on losing nothing and on framed packets being returned one by one.\<close>

locale splitter =
  fixes len :: "bytes \<Rightarrow> nat option"
    and split :: "bytes \<Rightarrow> bytes list option"
  assumes len_bounds: "len buf = Some n \<Longrightarrow> 0 < n \<and> n \<le> length buf"
    and split_Nil: "split [] = Some []"
    and split_stop: "buf \<noteq> [] \<Longrightarrow> len buf = None \<Longrightarrow> split buf = Some [buf]"
    and split_cut: "len buf = Some n \<Longrightarrow>
      split buf = map_option ((#) (take n buf)) (split (drop n buf))"
begin

lemma split_total: "\<exists>ps. split buf = Some ps \<and> concat ps = buf \<and> [] \<notin> set ps"
proof (induction buf rule: length_induct)
  case (1 buf)
  show ?case
  proof (cases "len buf")
    case None
    then show ?thesis by (cases "buf = []") (auto simp: split_Nil split_stop)
  next
    case (Some n)
    then have n: "0 < n" "n \<le> length buf" using len_bounds by auto
    then have "length (drop n buf) < length buf" by simp
    with 1 obtain ps where ps: "split (drop n buf) = Some ps" "concat ps = drop n buf" "[] \<notin> set ps"
      by blast
    have "split buf = Some (take n buf # ps)" by (simp add: split_cut [OF Some] ps)
    moreover have "concat (take n buf # ps) = buf" by (simp add: ps)
    moreover have "[] \<notin> set (take n buf # ps)" using n ps by auto
    ultimately show ?thesis by blast
  qed
qed

lemma split_framed:
  assumes "\<And>f rest. f \<in> set fs \<Longrightarrow> len (f @ rest) = Some (length f)"
  shows "split (concat fs @ tail) = map_option ((@) fs) (split tail)"
  using assms
proof (induction fs)
  case Nil
  show ?case by (cases "split tail") auto
next
  case (Cons f fs)
  have "len (f @ concat fs @ tail) = Some (length f)" using Cons.prems by simp
  from split_cut [OF this] show ?case using Cons by (simp add: option.map_comp comp_def)
qed

lemma split_whole:
  assumes "tail \<noteq> []" "len tail = Some (length tail) \<or> len tail = None"
  shows "split tail = Some [tail]"
  using assms split_cut [of tail "length tail"] by (auto simp: split_Nil split_stop)

end

interpretation sp: splitter packet_len split_packets
proof (unfold_locales, goal_cases)
  case (1 buf n) then show ?case by (rule packet_len_bounds)
next
  case 2 show ?case by (subst split_packets.simps) simp
next
  case (3 buf) then show ?case by (subst split_packets.simps) simp
next
  case (4 buf n)
  then have "buf \<noteq> []" "n \<le> length buf" using packet_len_bounds [OF 4] by auto
  with 4 show ?case by (subst split_packets.simps) simp
qed

section \<open>The wire image of a long header packet\<close>

text \<open>The layout of RFC 9000 section 17.2: first byte, version, connection IDs with their length
  bytes, the token of an Initial packet, and the length-prefixed packet number and payload.\<close>

record long_packet =
  lp_first :: byte
  lp_version :: u32
  lp_dcid :: bytes
  lp_scid :: bytes
  lp_token :: bytes
  lp_body :: bytes

definition packet_type_bits :: "byte \<Rightarrow> byte" where
  "packet_type_bits first = drop_bit 4 (first AND 0x30)"

definition token_field :: "long_packet \<Rightarrow> bytes" where
  "token_field p = (if packet_type_bits (lp_first p) = 0
     then wire (word_of_nat (length (lp_token p))) @ lp_token p else [])"

definition long_image :: "long_packet \<Rightarrow> bytes" where
  "long_image p = lp_first p # be_bytes 4 (unat (lp_version p))
     @ word_of_nat (length (lp_dcid p)) # lp_dcid p
     @ word_of_nat (length (lp_scid p)) # lp_scid p
     @ token_field p @ wire (word_of_nat (length (lp_body p))) @ lp_body p"

definition sized_long_packet :: "long_packet \<Rightarrow> bool" where
  "sized_long_packet p \<longleftrightarrow> lp_first p AND 0x80 \<noteq> 0 \<and> lp_version p \<noteq> 0
     \<and> packet_type_bits (lp_first p) \<noteq> 3
     \<and> length (lp_dcid p) \<le> u8_max \<and> length (lp_scid p) \<le> u8_max
     \<and> length (lp_token p) < 2 ^ 62 \<and> length (lp_body p) < 2 ^ 62"

lemma decode_length_field:
  assumes "length xs < 2 ^ 62"
  shows "decode (wire (word_of_nat (length xs)) @ rest)
    = Some (word_of_nat (length xs), encoded_len (word_of_nat (length xs)))"
    and "unat (word_of_nat (length xs) :: u64) = length xs"
proof -
  show u: "unat (word_of_nat (length xs) :: u64) = length xs" using assms by (simp add: unat_of_nat)
  then have "word_of_nat (length xs) \<le> varint_MAX" using assms by (simp add: word_le_nat_alt)
  then show "decode (wire (word_of_nat (length xs)) @ rest)
    = Some (word_of_nat (length xs), encoded_len (word_of_nat (length xs)))" by (rule decode_wire)
qed

lemma encoded_len_le_8: "encoded_len n \<le> 8"
  using encoded_len_cases [of n] by auto

lemma get_at_append: "i = length xs \<Longrightarrow> get_at (xs @ y # ys) i = Some y"
  by (simp add: get_at_def)

lemma get_from_append: "i = length xs \<Longrightarrow> get_from (xs @ ys) i = Some ys"
  by (simp add: get_from_def)

lemma checked_add_small: "a + b < 2 ^ 64 \<Longrightarrow> checked_add a b = Some (a + b)"
  by (simp add: checked_add_def)

lemma skip_token_image:
  assumes "sized_long_packet p" "pos = length xs" "pos < 1000"
  shows "skip_token (packet_type_bits (lp_first p)) (xs @ token_field p @ rest) pos
    = Some (pos + length (token_field p))"
proof (cases "packet_type_bits (lp_first p) = 0")
  case True
  let ?l = "word_of_nat (length (lp_token p)) :: u64"
  have t: "length (lp_token p) < 2 ^ 62" using assms by (simp add: sized_long_packet_def)
  note d = decode_length_field [OF t]
  have l: "length (token_field p) = encoded_len ?l + length (lp_token p)"
    by (simp add: token_field_def True)
  have f: "get_from (xs @ token_field p @ rest) pos = Some (wire ?l @ lp_token p @ rest)"
    using assms(2) by (simp add: get_from_append token_field_def True)
  have c: "checked_add pos (encoded_len ?l) = Some (pos + encoded_len ?l)"
    "checked_add (pos + encoded_len ?l) (length (lp_token p))
      = Some (pos + encoded_len ?l + length (lp_token p))"
    using assms(3) t encoded_len_le_8 [of ?l] by (simp_all add: checked_add_small)
  show ?thesis by (simp only: skip_token_def True f d bind.bind_lunit prod.case c l refl if_True add.assoc)
next
  case False
  then show ?thesis by (simp add: skip_token_def token_field_def)
qed

text \<open>Where the fields of the image stand.\<close>

definition header_end :: "long_packet \<Rightarrow> nat" where
  "header_end p = 7 + length (lp_dcid p) + length (lp_scid p)"

definition body_field :: "long_packet \<Rightarrow> bytes" where
  "body_field p = wire (word_of_nat (length (lp_body p))) @ lp_body p"

lemma image_fields:
  defines "buf \<equiv> \<lambda>p rest. long_image p @ rest"
  shows "get_at (buf p rest) 0 = Some (lp_first p)"
    and "get_range (buf p rest) 1 5 = Some (be_bytes 4 (unat (lp_version p)))"
    and "get_at (buf p rest) 5 = Some (word_of_nat (length (lp_dcid p)))"
    and "get_at (buf p rest) (6 + length (lp_dcid p)) = Some (word_of_nat (length (lp_scid p)))"
    and "\<exists>h. length h = header_end p \<and> buf p rest = h @ token_field p @ body_field p @ rest"
proof -
  define h0 where "h0 = lp_first p # be_bytes 4 (unat (lp_version p))"
  define h1 where "h1 = h0 @ word_of_nat (length (lp_dcid p)) # lp_dcid p"
  define tl where "tl = token_field p @ body_field p @ rest"
  have len: "length h0 = 5" "length h1 = 6 + length (lp_dcid p)"
    by (simp_all add: h0_def h1_def)
  have b1: "buf p rest = h1 @ word_of_nat (length (lp_scid p)) # lp_scid p @ tl"
    by (simp add: buf_def long_image_def h0_def h1_def tl_def body_field_def)
  then have b0: "buf p rest = h0 @ word_of_nat (length (lp_dcid p)) # lp_dcid p
      @ word_of_nat (length (lp_scid p)) # lp_scid p @ tl"
    by (simp add: h1_def)
  show "get_at (buf p rest) 0 = Some (lp_first p)" by (simp add: b0 h0_def get_at_def)
  show "get_range (buf p rest) 1 5 = Some (be_bytes 4 (unat (lp_version p)))"
    unfolding b0 by (simp add: get_range_def len)
      (simp add: h0_def)
  show "get_at (buf p rest) 5 = Some (word_of_nat (length (lp_dcid p)))"
    unfolding b0 by (simp add: get_at_append len)
  show "get_at (buf p rest) (6 + length (lp_dcid p)) = Some (word_of_nat (length (lp_scid p)))"
    unfolding b1 by (simp add: get_at_append len)
  have "length (h1 @ word_of_nat (length (lp_scid p)) # lp_scid p) = header_end p"
    by (simp add: len header_end_def)
  moreover have "buf p rest = (h1 @ word_of_nat (length (lp_scid p)) # lp_scid p) @ tl"
    by (simp add: b1)
  ultimately show "\<exists>h. length h = header_end p \<and> buf p rest = h @ token_field p @ body_field p @ rest"
    unfolding tl_def by blast
qed

lemma length_image:
  "length (long_image p) = header_end p + length (token_field p) + length (body_field p)"
  by (simp add: long_image_def header_end_def body_field_def)

lemma version_bytes: "(word_of_nat (from_be (be_bytes 4 (unat v))) :: u32) = v"
proof -
  have "unat v < 2 ^ LENGTH(32)" by (rule unsigned_less)
  then show ?thesis by (simp add: from_be_be_bytes)
qed

lemma packet_len_image:
  assumes p: "sized_long_packet p"
  shows "packet_len (long_image p @ rest) = Some (length (long_image p))"
proof -
  let ?buf = "long_image p @ rest"
  let ?d = "length (lp_dcid p)" and ?s = "length (lp_scid p)" and ?b = "length (lp_body p)"
  let ?bl = "encoded_len (word_of_nat ?b)"
  let ?e = "header_end p + length (token_field p)"
  obtain h where h: "length h = header_end p" "?buf = h @ token_field p @ body_field p @ rest"
    using image_fields(5) by blast
  have sz: "?d \<le> 255" "?s \<le> 255" "length (lp_token p) < 2 ^ 62" "?b < 2 ^ 62"
    using p by (simp_all add: sized_long_packet_def)
  then have ub: "unat (word_of_nat ?d :: byte) = ?d" "unat (word_of_nat ?s :: byte) = ?s"
    by (simp_all add: unat_word_of_byte)
  have st: "skip_token (packet_type_bits (lp_first p)) ?buf (header_end p) = Some ?e"
    unfolding h(2) using sz h(1) by (intro skip_token_image [OF p]) (simp_all add: header_end_def)
  have gt: "get_from ?buf ?e = Some (body_field p @ rest)"
    unfolding h(2) using h(1) get_from_append [of ?e "h @ token_field p"] by simp
  have dt: "decode (body_field p @ rest) = Some (word_of_nat ?b, ?bl)"
      "unat (word_of_nat ?b :: u64) = ?b"
    using decode_length_field [OF sz(4)] by (simp_all add: body_field_def)
  have e: "?e + ?bl + ?b = length (long_image p)" by (simp add: length_image body_field_def)
  have tf: "length (token_field p) \<le> 8 + length (lp_token p)"
    using encoded_len_le_8 by (simp add: token_field_def)
  have c: "checked_add 5 1 = Some 6" "checked_add 6 ?d = Some (6 + ?d)"
    "checked_add (6 + ?d) 1 = Some (7 + ?d)" "checked_add (7 + ?d) ?s = Some (header_end p)"
    "checked_add ?e ?bl = Some (?e + ?bl)" "checked_add (?e + ?bl) ?b = Some (length (long_image p))"
    using sz tf e encoded_len_le_8 [of "word_of_nat ?b"]
    by (simp_all add: checked_add_small header_end_def)
  have t3: "drop_bit 4 (lp_first p AND 0x30) = packet_type_bits (lp_first p)"
    "packet_type_bits (lp_first p) \<noteq> 3" "lp_first p AND 0x80 \<noteq> 0" "lp_version p \<noteq> 0"
    using p by (simp_all add: sized_long_packet_def packet_type_bits_def)
  have le: "length (long_image p) \<le> length ?buf" by simp
  show ?thesis
    by (simp only: packet_len_def image_fields(1-4) version_bytes ub c st gt dt t3 Let_def
        bind.bind_lunit if_False prod.case le if_True)
qed

section \<open>Properties\<close>

text \<open>Splitting never panics: it returns non-empty packets whose concatenation is the buffer, so
  no byte is lost, duplicated or reordered.\<close>

lemma split_packets_lossless:
  "\<exists>ps. split_packets buf = Some ps \<and> concat ps = buf \<and> [] \<notin> set ps"
  by (rule sp.split_total)

text \<open>C23. A buffer of coalesced long header packets (any version but Version Negotiation's 0, type
  bits other than 3, in the version 1 layout), followed by nothing or by one short header packet,
  is split exactly at the packet boundaries.\<close>

theorem split_packets_coalesced:
  assumes "list_all sized_long_packet ps"
    and "tail = [] \<or> hd tail AND 0x80 = 0"
  shows "split_packets (concat (map long_image ps) @ tail)
    = Some (map long_image ps @ (if tail = [] then [] else [tail]))"
proof -
  have "split_packets (concat (map long_image ps) @ tail)
      = map_option ((@) (map long_image ps)) (split_packets tail)"
    using assms(1) by (intro sp.split_framed) (auto simp: list_all_iff packet_len_image)
  moreover have "split_packets tail = Some [tail]" if "tail \<noteq> []"
    using that assms(2)
    by (intro sp.split_whole) (auto simp: packet_len_def get_at_def hd_conv_nth)
  ultimately show ?thesis by (simp add: sp.split_Nil)
qed

definition sample_handshake :: "u32 \<Rightarrow> byte \<Rightarrow> long_packet" where
  "sample_handshake v first = \<lparr>lp_first = first, lp_version = v, lp_dcid = [1, 2], lp_scid = [],
     lp_token = [], lp_body = [9, 9, 9]\<rparr>"

theorem split_packets_coalesced_witness:
  "split_packets (long_image (sample_handshake 1 0xe0) @ [0x40, 7])
    = Some [long_image (sample_handshake 1 0xe0), [0x40, 7]]"
proof -
  have "sized_long_packet (sample_handshake 1 0xe0)"
    by (simp add: sized_long_packet_def sample_handshake_def packet_type_bits_def)
  then show ?thesis
    using split_packets_coalesced [of "[sample_handshake 1 0xe0]" "[0x40, 7]"] by simp
qed

text \<open>C39. The packet type is read with the version 1 numbering whatever the version field says: a
  buffer that starts with a long header whose type bits are 3, which is Retry in version 1 and
  Handshake in version 2, comes back as one packet however many packets it holds.\<close>

theorem split_ignores_version:
  assumes "lp_first p AND 0x80 \<noteq> 0" "packet_type_bits (lp_first p) = 3"
    and "length (lp_dcid p) \<le> u8_max" "length (lp_scid p) \<le> u8_max"
  shows "split_packets (long_image p @ rest) = Some [long_image p @ rest]"
proof -
  have ub: "unat (word_of_nat (length (lp_dcid p)) :: byte) = length (lp_dcid p)"
      "unat (word_of_nat (length (lp_scid p)) :: byte) = length (lp_scid p)"
    using assms(3,4) by (simp_all add: unat_word_of_byte)
  have c: "checked_add 5 1 = Some 6" "checked_add 6 (length (lp_dcid p)) = Some (6 + length (lp_dcid p))"
    "checked_add (6 + length (lp_dcid p)) 1 = Some (7 + length (lp_dcid p))"
    "checked_add (7 + length (lp_dcid p)) (length (lp_scid p)) = Some (header_end p)"
    using assms(3,4) by (simp_all add: checked_add_small header_end_def)
  have "packet_len (long_image p @ rest) = Some (length (long_image p @ rest))"
    using assms(1,2) by (simp only: packet_len_def image_fields(1-4) version_bytes ub c Let_def
        packet_type_bits_def bind.bind_lunit if_False refl if_True if_cancel)
  moreover have "long_image p @ rest \<noteq> []" by (simp add: long_image_def)
  ultimately show ?thesis by (intro sp.split_whole) blast+
qed

theorem split_ignores_version_witness:
  "split_packets (long_image (sample_handshake 0x6b3343cf 0xf0) @ [0x40, 7])
    = Some [long_image (sample_handshake 0x6b3343cf 0xf0) @ [0x40, 7]]"
  by (rule split_ignores_version) (simp_all add: sample_handshake_def packet_type_bits_def)

end
