(* ===== verification/Types.thy ===== *)
theory Types
  imports Prelude
begin

unbundle bit_operations_syntax

text \<open>
  The basic types of the binding crate: QUIC versions, connection IDs, paths and stream IDs
  (\<^verbatim>\<open>src/ngtcp2/src/types.rs\<close>), the error type with its classification
  (\<^verbatim>\<open>src/ngtcp2/src/error.rs\<close>) and the connection events (\<^verbatim>\<open>src/ngtcp2/src/event.rs\<close>). Random
  bytes come from \<^verbatim>\<open>aws_lc_rs::rand::fill\<close>, which is an argument \<open>rnd\<close> of the definitions that
  draw them: \<open>rnd n\<close> is the buffer of \<open>n\<close> bytes after the call, \<open>None\<close> its failure. The message of
  \<^verbatim>\<open>ngtcp2_strerror\<close> is an argument \<open>strerror\<close>.
\<close>

section \<open>Versions and connection IDs\<close>

definition NGTCP2_PROTO_VER_V1 :: u32 where "NGTCP2_PROTO_VER_V1 = 0x00000001"
definition NGTCP2_PROTO_VER_V2 :: u32 where "NGTCP2_PROTO_VER_V2 = 0x6b3343cf"

datatype QuicVersion = V1 | V2

fun as_u32 :: "QuicVersion \<Rightarrow> u32" where
  "as_u32 V1 = NGTCP2_PROTO_VER_V1"
| "as_u32 V2 = NGTCP2_PROTO_VER_V2"

definition from_u32 :: "u32 \<Rightarrow> QuicVersion option" where
  "from_u32 version =
    (if version = NGTCP2_PROTO_VER_V1 then Some V1
     else if version = NGTCP2_PROTO_VER_V2 then Some V2
     else None)"

text \<open>\<^verbatim>\<open>NGTCP2_MAX_CIDLEN\<close> and \<^verbatim>\<open>NGTCP2_MIN_CIDLEN\<close> of the C library.\<close>

abbreviation (input) NGTCP2_MAX_CIDLEN :: nat where "NGTCP2_MAX_CIDLEN \<equiv> 20"
abbreviation (input) NGTCP2_MIN_CIDLEN :: nat where "NGTCP2_MIN_CIDLEN \<equiv> 1"

datatype ConnectionId = ConnectionId (cid_bytes: bytes)

type_synonym cid = ConnectionId

definition cid_new :: "bytes \<Rightarrow> cid option" where
  "cid_new data = (if length data > NGTCP2_MAX_CIDLEN then None else Some (ConnectionId data))"

definition cid_empty :: cid where
  "cid_empty = ConnectionId []"

definition cid_random :: "(nat \<Rightarrow> bytes option) \<Rightarrow> nat \<Rightarrow> cid option" where
  "cid_random rnd len =
    (if len < NGTCP2_MIN_CIDLEN \<or> len > NGTCP2_MAX_CIDLEN then None
     else map_option ConnectionId (rnd len))"

definition cid_len :: "cid \<Rightarrow> nat" where
  "cid_len c = length (cid_bytes c)"

definition cid_is_empty :: "cid \<Rightarrow> bool" where
  "cid_is_empty c = (cid_bytes c = [])"

text \<open>Lower-case hexadecimal with two digits per byte (\<^verbatim>\<open>{:02x}\<close>).\<close>

definition hex_digit :: "nat \<Rightarrow> char" where
  "hex_digit n = ''0123456789abcdef'' ! n"

definition hex_byte :: "byte \<Rightarrow> string" where
  "hex_byte b = [hex_digit (unat b div 16), hex_digit (unat b mod 16)]"

definition cid_display :: "cid \<Rightarrow> string" where
  "cid_display c = concat (map hex_byte (cid_bytes c))"

definition cid_debug :: "cid \<Rightarrow> string" where
  "cid_debug c = ''ConnectionId('' @ concat (map hex_byte (cid_bytes c)) @ '')''"

text \<open>The connection IDs that the constructors produce.\<close>

definition cid_ok :: "cid \<Rightarrow> bool" where
  "cid_ok c \<longleftrightarrow> cid_len c \<le> NGTCP2_MAX_CIDLEN"

section \<open>Paths and streams\<close>

datatype SocketAddr =
    SockV4 (v4_ip: u32) (v4_port: u16)
  | SockV6 (v6_ip: "128 word") (v6_port: u16) (v6_flowinfo: u32) (v6_scope_id: u32)

record PathInfo =
  path_local :: SocketAddr
  path_remote :: SocketAddr

record PacketInfo =
  pi_ecn :: byte

definition packet_info_default :: PacketInfo where
  "packet_info_default = \<lparr>pi_ecn = 0\<rparr>"

type_synonym StreamId = "64 word"

datatype StreamType = Bidirectional | Unidirectional
datatype StreamDirection = ClientInitiated | ServerInitiated

definition stream_type :: "StreamId \<Rightarrow> StreamType" where
  "stream_type stream_id = (if stream_id AND 0x2 = 0 then Bidirectional else Unidirectional)"

definition stream_direction :: "StreamId \<Rightarrow> StreamDirection" where
  "stream_direction stream_id = (if stream_id AND 0x1 = 0 then ClientInitiated else ServerInitiated)"

section \<open>Errors\<close>

datatype Error =
    Ngtcp2 string int
  | InvalidArgument string
  | ConnectionClosedErr
  | StreamDataBlocked StreamId
  | StreamShutWr StreamId
  | InternalErr string

type_synonym 'a result = "Error + 'a"

abbreviation Ok :: "'a \<Rightarrow> 'e + 'a" where "Ok \<equiv> Inr"
abbreviation Err :: "'e \<Rightarrow> 'e + 'a" where "Err \<equiv> Inl"

datatype ConnectionErrorKind =
  Ignore | SilentDrop | Terminal | TransportClose | ApplicationClose | Internal

abbreviation (input) NGTCP2_ERR_INVALID_ARGUMENT :: int where "NGTCP2_ERR_INVALID_ARGUMENT \<equiv> - 201"
abbreviation (input) NGTCP2_ERR_STREAM_ID_BLOCKED :: int where "NGTCP2_ERR_STREAM_ID_BLOCKED \<equiv> - 206"
abbreviation (input) NGTCP2_ERR_STREAM_DATA_BLOCKED :: int where "NGTCP2_ERR_STREAM_DATA_BLOCKED \<equiv> - 208"
abbreviation (input) NGTCP2_ERR_CRYPTO :: int where "NGTCP2_ERR_CRYPTO \<equiv> - 213"
abbreviation (input) NGTCP2_ERR_STREAM_SHUT_WR :: int where "NGTCP2_ERR_STREAM_SHUT_WR \<equiv> - 219"
abbreviation (input) NGTCP2_ERR_CLOSING :: int where "NGTCP2_ERR_CLOSING \<equiv> - 223"
abbreviation (input) NGTCP2_ERR_DRAINING :: int where "NGTCP2_ERR_DRAINING \<equiv> - 224"
abbreviation (input) NGTCP2_ERR_DISCARD_PKT :: int where "NGTCP2_ERR_DISCARD_PKT \<equiv> - 226"
abbreviation (input) NGTCP2_ERR_WRITE_MORE :: int where "NGTCP2_ERR_WRITE_MORE \<equiv> - 230"
abbreviation (input) NGTCP2_ERR_RETRY :: int where "NGTCP2_ERR_RETRY \<equiv> - 231"
abbreviation (input) NGTCP2_ERR_DROP_CONN :: int where "NGTCP2_ERR_DROP_CONN \<equiv> - 232"
abbreviation (input) NGTCP2_ERR_VERSION_NEGOTIATION :: int where "NGTCP2_ERR_VERSION_NEGOTIATION \<equiv> - 235"
abbreviation (input) NGTCP2_ERR_IDLE_CLOSE :: int where "NGTCP2_ERR_IDLE_CLOSE \<equiv> - 238"
abbreviation (input) NGTCP2_ERR_CALLBACK_FAILURE :: int where "NGTCP2_ERR_CALLBACK_FAILURE \<equiv> - 502"

definition from_ngtcp2 :: "(int \<Rightarrow> string option) \<Rightarrow> int \<Rightarrow> Error" where
  "from_ngtcp2 strerror code =
    Ngtcp2 (case strerror code of None \<Rightarrow> ''unknown error'' | Some msg \<Rightarrow> msg) code"

fun is_retry_required :: "Error \<Rightarrow> bool" where
  "is_retry_required (Ngtcp2 _ code) = (code = NGTCP2_ERR_RETRY)"
| "is_retry_required _ = False"

fun classify_connection_error :: "Error \<Rightarrow> ConnectionErrorKind" where
  "classify_connection_error (Ngtcp2 _ code) =
    (if code = NGTCP2_ERR_DISCARD_PKT then Ignore
     else if code = NGTCP2_ERR_DROP_CONN \<or> code = NGTCP2_ERR_IDLE_CLOSE \<or> code = NGTCP2_ERR_RETRY
       then SilentDrop
     else if code = NGTCP2_ERR_DRAINING \<or> code = NGTCP2_ERR_CLOSING then Terminal
     else TransportClose)"
| "classify_connection_error (StreamDataBlocked _) = Ignore"
| "classify_connection_error (StreamShutWr _) = Ignore"
| "classify_connection_error ConnectionClosedErr = Terminal"
| "classify_connection_error (InvalidArgument _) = Internal"
| "classify_connection_error (InternalErr _) = Internal"

definition check_ngtcp2 :: "(int \<Rightarrow> string option) \<Rightarrow> int \<Rightarrow> unit result" where
  "check_ngtcp2 strerror code = (if code < 0 then Err (from_ngtcp2 strerror code) else Ok ())"

text \<open>\<^verbatim>\<open>Display\<close>: integers in decimal, a stream ID as \<^verbatim>\<open>i64\<close>.\<close>

fun show_nat :: "nat \<Rightarrow> string" where
  "show_nat n = (if n < 10 then [char_of (48 + n)] else show_nat (n div 10) @ [char_of (48 + n mod 10)])"

declare show_nat.simps [simp del]

definition show_int :: "int \<Rightarrow> string" where
  "show_int i = (if i < 0 then CHR ''-'' # show_nat (nat (- i)) else show_nat (nat i))"

fun error_display :: "Error \<Rightarrow> string" where
  "error_display (Ngtcp2 msg code) = ''ngtcp2 error: '' @ msg @ '' ('' @ show_int code @ '')''"
| "error_display (InvalidArgument msg) = ''invalid argument: '' @ msg"
| "error_display ConnectionClosedErr = ''connection is closed''"
| "error_display (StreamDataBlocked i) = ''stream data blocked: '' @ show_int (sint i)"
| "error_display (StreamShutWr i) = ''stream shut wr: '' @ show_int (sint i)"
| "error_display (InternalErr msg) = ''internal error: '' @ msg"

section \<open>Events\<close>

datatype ConnectionEvent =
    HandshakeCompleted
  | HandshakeConfirmed
  | EarlyDataRejected
  | StreamOpened StreamId
  | StreamData StreamId bytes bool
  | StreamClosed StreamId "u64 option" "u64 option"
  | StreamReset StreamId u64 u64
  | StreamStopSending StreamId u64
  | StreamMaxData StreamId u64
  | MaxStreamsBidi u64
  | MaxStreamsUni u64
  | Datagram bytes
  | StatelessResetReceived
  | PathValidated PathInfo bool

section \<open>Properties\<close>

lemma hex_digit_inj: "m < 16 \<Longrightarrow> n < 16 \<Longrightarrow> hex_digit m = hex_digit n \<Longrightarrow> m = n"
proof -
  have d: "distinct ''0123456789abcdef''" by simp
  show "m < 16 \<Longrightarrow> n < 16 \<Longrightarrow> hex_digit m = hex_digit n \<Longrightarrow> m = n"
    unfolding hex_digit_def using nth_eq_iff_index_eq [OF d, of m n] by simp
qed

lemma hex_byte_inj: "hex_byte a = hex_byte b \<longleftrightarrow> a = b"
proof
  assume "hex_byte a = hex_byte b"
  moreover have "unat c div 16 < 16" for c :: byte using unat_byte_less [of c] by linarith
  ultimately have "unat a div 16 = unat b div 16" "unat a mod 16 = unat b mod 16"
    by (auto simp: hex_byte_def intro!: hex_digit_inj)
  then have "unat a = unat b" by (metis div_mult_mod_eq)
  then show "a = b" by (simp add: word_unat_eq_iff)
qed simp

lemma concat_hex_inj: "concat (map hex_byte xs) = concat (map hex_byte ys) \<Longrightarrow> xs = ys"
proof (induction xs arbitrary: ys)
  case Nil
  then show ?case by (cases ys) (auto simp: hex_byte_def)
next
  case (Cons x xs)
  then obtain y ys' where "ys = y # ys'" by (cases ys) (auto simp: hex_byte_def)
  moreover have "length (hex_byte x) = length (hex_byte y)" by (simp add: hex_byte_def)
  ultimately show ?case using Cons by (auto simp: hex_byte_inj)
qed

text \<open>The facts about errors that the I/O layers use.\<close>

lemma check_ngtcp2_Err: "check_ngtcp2 strerror code = Err e \<Longrightarrow> \<exists>m. e = Ngtcp2 m code \<and> code < 0"
  by (auto simp: check_ngtcp2_def from_ngtcp2_def split: if_splits)

lemma from_ngtcp2_not_internal [simp]: "classify_connection_error (from_ngtcp2 s code) \<noteq> Internal"
  by (simp add: from_ngtcp2_def)

lemma classify_never_application [simp]: "classify_connection_error e \<noteq> ApplicationClose"
  by (cases e) auto

lemma stream_type_bits:
  "stream_type s = Unidirectional \<longleftrightarrow> bit s 1" "stream_direction s = ServerInitiated \<longleftrightarrow> bit s 0"
proof -
  have "s AND 2 = 0 \<longleftrightarrow> \<not> bit s 1"
    using bit_iff_and_push_bit_not_eq_0 [of s 1] by simp
  then show "stream_type s = Unidirectional \<longleftrightarrow> bit s 1" by (simp add: stream_type_def)
  have "s AND 1 = 0 \<longleftrightarrow> \<not> bit s 0"
    using bit_iff_and_push_bit_not_eq_0 [of s 0] by simp
  then show "stream_direction s = ServerInitiated \<longleftrightarrow> bit s 0" by (simp add: stream_direction_def)
qed

lemma cid_new_Some: "cid_new data = Some c \<longleftrightarrow> c = ConnectionId data \<and> cid_ok c"
  by (auto simp: cid_new_def cid_ok_def cid_len_def split: if_splits)

lemma cid_random_Some:
  "cid_random rnd len = Some c \<Longrightarrow> 1 \<le> len \<and> len \<le> NGTCP2_MAX_CIDLEN \<and> rnd len = Some (cid_bytes c)"
  by (auto simp: cid_random_def split: if_splits)

lemma cid_display_inj: "cid_display c = cid_display d \<longleftrightarrow> c = d"
  by (auto simp: cid_display_def dest: concat_hex_inj intro: ConnectionId.expand)

lemma from_u32_as_u32: "from_u32 (as_u32 v) = Some v"
  by (cases v) (simp_all add: from_u32_def NGTCP2_PROTO_VER_V1_def NGTCP2_PROTO_VER_V2_def)

lemma from_u32_Some: "from_u32 w = Some v \<longleftrightarrow> w = as_u32 v"
  by (cases v) (auto simp: from_u32_def NGTCP2_PROTO_VER_V1_def NGTCP2_PROTO_VER_V2_def split: if_splits)

text \<open>The classification of connection errors follows ngtcp2's contract: a discarded packet and the
  two stream signals are ignored, a silent drop happens exactly for the three codes that must not
  be answered (among them a required Retry), a terminated connection is left alone, every other
  code of the C library asks for a transport CONNECTION_CLOSE, only errors of the crate itself are
  internal, and nothing is ever classified as an application close.\<close>

lemma classification_contract:
  "(classify_connection_error e = Ignore \<longleftrightarrow>
      (\<exists>m. e = Ngtcp2 m NGTCP2_ERR_DISCARD_PKT) \<or> (\<exists>s. e = StreamDataBlocked s \<or> e = StreamShutWr s))
   \<and> (classify_connection_error e = SilentDrop \<longleftrightarrow> is_retry_required e \<or>
      (\<exists>m. e = Ngtcp2 m NGTCP2_ERR_DROP_CONN \<or> e = Ngtcp2 m NGTCP2_ERR_IDLE_CLOSE))
   \<and> (classify_connection_error e = Terminal \<longleftrightarrow> e = ConnectionClosedErr \<or>
      (\<exists>m. e = Ngtcp2 m NGTCP2_ERR_DRAINING \<or> e = Ngtcp2 m NGTCP2_ERR_CLOSING))
   \<and> (classify_connection_error e = Internal \<longleftrightarrow>
      (\<exists>m. e = InvalidArgument m \<or> e = InternalErr m))
   \<and> classify_connection_error e \<noteq> ApplicationClose"
  by (cases e) auto

end
