(* ===== verification/Sockaddr.thy ===== *)
theory Sockaddr
  imports Types
begin

text \<open>
  Conversions between the crate's values and the C structures of the ngtcp2 API
  (\<^verbatim>\<open>src/ngtcp2/src/conn.rs\<close>, with a copy of \<^verbatim>\<open>cid_to_raw\<close> in \<^verbatim>\<open>reset.rs\<close> and \<^verbatim>\<open>retry.rs\<close>). A
  \<^verbatim>\<open>sockaddr_storage\<close> is its 128 bytes in the layout of Linux on a little-endian machine: the family in
  native order at offset 0, the port and the address in network order, flow information and scope
  in native order. A null pointer is \<open>None\<close>.
\<close>

section \<open>Connection IDs\<close>

record ngtcp2_cid =
  rc_datalen :: nat
  rc_data :: bytes

text \<open>\<^verbatim>\<open>raw.data[..len].copy_from_slice\<close> panics (\<open>None\<close>) when the ID is longer than the array.\<close>

definition cid_to_raw :: "cid \<Rightarrow> ngtcp2_cid option" where
  "cid_to_raw c =
    (if cid_len c > NGTCP2_MAX_CIDLEN then None
     else Some \<lparr>rc_datalen = cid_len c,
                rc_data = cid_bytes c @ drop (cid_len c) (replicate NGTCP2_MAX_CIDLEN 0)\<rparr>)"

text \<open>\<^verbatim>\<open>slice::from_raw_parts(raw.data.as_ptr(), raw.datalen)\<close>.\<close>

definition raw_cid_bytes :: "ngtcp2_cid \<Rightarrow> bytes" where
  "raw_cid_bytes raw = take (rc_datalen raw) (rc_data raw)"

lemma cid_to_raw_ok: "cid_ok c \<Longrightarrow> \<exists>raw. cid_to_raw c = Some raw \<and> raw_cid_bytes raw = cid_bytes c
    \<and> length (rc_data raw) = NGTCP2_MAX_CIDLEN"
  by (simp add: cid_to_raw_def cid_ok_def raw_cid_bytes_def cid_len_def)

section \<open>Socket addresses\<close>

definition AF_INET :: nat where "AF_INET = 2"
definition AF_INET6 :: nat where "AF_INET6 = 10"
definition sizeof_sockaddr_in :: nat where "sizeof_sockaddr_in = 16"
definition sizeof_sockaddr_in6 :: nat where "sizeof_sockaddr_in6 = 28"
definition sizeof_sockaddr_storage :: nat where "sizeof_sockaddr_storage = 128"

text \<open>Native (little-endian) order.\<close>

definition le_bytes :: "nat \<Rightarrow> nat \<Rightarrow> bytes" where
  "le_bytes k n = rev (be_bytes k n)"

definition from_le :: "bytes \<Rightarrow> nat" where
  "from_le bs = from_be (rev bs)"

definition pad_storage :: "bytes \<Rightarrow> bytes" where
  "pad_storage bs = bs @ replicate (sizeof_sockaddr_storage - length bs) 0"

fun sockaddr_to_raw :: "SocketAddr \<Rightarrow> bytes \<times> nat" where
  "sockaddr_to_raw (SockV4 ip port) =
    (pad_storage (le_bytes 2 AF_INET @ be_bytes 2 (unat port) @ be_bytes 4 (unat ip)),
     sizeof_sockaddr_in)"
| "sockaddr_to_raw (SockV6 ip port flowinfo scope_id) =
    (pad_storage (le_bytes 2 AF_INET6 @ be_bytes 2 (unat port) @ le_bytes 4 (unat flowinfo)
       @ be_bytes 16 (unat ip) @ le_bytes 4 (unat scope_id)),
     sizeof_sockaddr_in6)"

definition field :: "bytes \<Rightarrow> nat \<Rightarrow> nat \<Rightarrow> bytes" where
  "field bs i n = take n (drop i bs)"

text \<open>\<^verbatim>\<open>SocketAddr::new\<close> of an IPv6 address sets flow information and scope to 0.\<close>

definition sockaddr_from_raw :: "bytes option \<Rightarrow> nat \<Rightarrow> SocketAddr option" where
  "sockaddr_from_raw addr len =
    (case addr of None \<Rightarrow> None
     | Some bs \<Rightarrow>
       let family = from_le (field bs 0 2) in
       if family = AF_INET then
         if len < sizeof_sockaddr_in then None
         else Some (SockV4 (word_of_nat (from_be (field bs 4 4))) (word_of_nat (from_be (field bs 2 2))))
       else if family = AF_INET6 then
         if len < sizeof_sockaddr_in6 then None
         else Some (SockV6 (word_of_nat (from_be (field bs 8 16))) (word_of_nat (from_be (field bs 2 2))) 0 0)
       else None)"

section \<open>Paths\<close>

record ngtcp2_addr =
  na_addr :: "bytes option"
  na_addrlen :: nat

record ngtcp2_path =
  np_local :: ngtcp2_addr
  np_remote :: ngtcp2_addr

definition raw_path :: "PathInfo \<Rightarrow> ngtcp2_path" where
  "raw_path info =
    (let (l, llen) = sockaddr_to_raw (path_local info);
         (r, rlen) = sockaddr_to_raw (path_remote info)
     in \<lparr>np_local = \<lparr>na_addr = Some l, na_addrlen = llen\<rparr>,
         np_remote = \<lparr>na_addr = Some r, na_addrlen = rlen\<rparr>\<rparr>)"

definition path_info_from_raw :: "ngtcp2_path option \<Rightarrow> PathInfo option" where
  "path_info_from_raw path =
    (case path of None \<Rightarrow> None
     | Some p \<Rightarrow>
       (case sockaddr_from_raw (na_addr (np_local p)) (na_addrlen (np_local p)) of None \<Rightarrow> None
        | Some l \<Rightarrow>
          (case sockaddr_from_raw (na_addr (np_remote p)) (na_addrlen (np_remote p)) of None \<Rightarrow> None
           | Some r \<Rightarrow> Some \<lparr>path_local = l, path_remote = r\<rparr>)))"

text \<open>The part of an address that survives the conversion.\<close>

fun without_scope :: "SocketAddr \<Rightarrow> SocketAddr" where
  "without_scope (SockV4 ip port) = SockV4 ip port"
| "without_scope (SockV6 ip port _ _) = SockV6 ip port 0 0"

lemma word_of_be_bytes:
  "LENGTH('a::len) = 8 * k \<Longrightarrow> (word_of_nat (from_be (be_bytes k (unat w))) :: 'a word) = w"
proof -
  assume k: "LENGTH('a) = 8 * k"
  have "unat w < 2 ^ LENGTH('a)" by (rule unsigned_less)
  also have "(2 :: nat) ^ LENGTH('a) = 256 ^ k" by (simp add: k power_mult)
  finally show ?thesis by (simp add: from_be_be_bytes)
qed

lemma length_le_bytes [simp]: "length (le_bytes k n) = k"
  by (simp add: le_bytes_def)

lemma from_le_le_bytes: "from_le (le_bytes k n) = n mod 256 ^ k"
  by (simp add: from_le_def le_bytes_def from_be_be_bytes)

lemma field_skip: "length xs \<le> i \<Longrightarrow> field (xs @ ys) i n = field ys (i - length xs) n"
  by (simp add: field_def)

lemma field_here: "n = length xs \<Longrightarrow> field (xs @ ys) 0 n = xs"
  by (simp add: field_def)

lemmas field_simps' = field_skip field_here pad_storage_def from_le_le_bytes

lemma sockaddr_roundtrip:
  "sockaddr_to_raw a = (bs, len) \<Longrightarrow> sockaddr_from_raw (Some bs) len = Some (without_scope a)"
proof (cases a)
  case (SockV4 ip port)
  assume "sockaddr_to_raw a = (bs, len)"
  then show ?thesis
    using SockV4 word_of_be_bytes [where k = 4 and w = ip] word_of_be_bytes [where k = 2 and w = port]
    by (auto simp: sockaddr_from_raw_def field_simps' Let_def AF_INET_def)
next
  case (SockV6 ip port fl sc)
  assume "sockaddr_to_raw a = (bs, len)"
  then show ?thesis
    using SockV6 word_of_be_bytes [where k = 16 and w = ip] word_of_be_bytes [where k = 2 and w = port]
    by (auto simp: sockaddr_from_raw_def field_simps' Let_def AF_INET_def AF_INET6_def)
qed

text \<open>A path handed to ngtcp2 and read back has the same addresses and ports, IPv4 and IPv6, but the
  flow information and the scope of IPv6 addresses are lost.\<close>

lemma path_roundtrip:
  "path_info_from_raw (Some (raw_path p))
    = Some \<lparr>path_local = without_scope (path_local p), path_remote = without_scope (path_remote p)\<rparr>"
proof -
  obtain l ll where l: "sockaddr_to_raw (path_local p) = (l, ll)" by fastforce
  obtain r rl where r: "sockaddr_to_raw (path_remote p) = (r, rl)" by fastforce
  show ?thesis
    using sockaddr_roundtrip [OF l] sockaddr_roundtrip [OF r]
    by (simp add: raw_path_def path_info_from_raw_def l r)
qed

end
