(* ===== verification/Stateless.thy ===== *)
theory Stateless
  imports Sockaddr
begin

unbundle bit_operations_syntax

text \<open>
  What an endpoint does without connection state: reading the version and the connection IDs of a
  long header packet and answering with Version Negotiation (\<^verbatim>\<open>src/ngtcp2/src/version.rs\<close>),
  Stateless Reset (\<^verbatim>\<open>src/ngtcp2/src/reset.rs\<close>), and address validation tokens, Retry and the
  stateless CONNECTION_CLOSE (\<^verbatim>\<open>src/ngtcp2/src/retry.rs\<close>). The C functions these call are fields of
  the record \<open>stateless_api\<close>, an argument of every definition that uses one; a C function that
  writes into a buffer takes the buffer and returns its result code and the buffer after the call.
  A panic of \<^verbatim>\<open>cid_to_raw\<close> is not reachable from connection IDs built by the crate and is mapped to
  an all-zero ID of length 0.
\<close>

section \<open>The C functions\<close>

record raw_version_cid =
  rv_version :: u32
  rv_dcid :: "bytes option"
  rv_scid :: "bytes option"

record raw_pkt_hd =
  hd_version :: u32
  hd_dcid :: ngtcp2_cid
  hd_scid :: ngtcp2_cid
  hd_token :: "bytes option"

record stateless_api =
  strerror :: "int \<Rightarrow> string option"
  pkt_decode_version_cid :: "bytes \<Rightarrow> nat \<Rightarrow> int \<times> raw_version_cid"
  pkt_write_version_negotiation :: "bytes \<Rightarrow> byte \<Rightarrow> bytes \<Rightarrow> bytes \<Rightarrow> u32 list \<Rightarrow> int \<times> bytes"
  pkt_write_stateless_reset2 :: "bytes \<Rightarrow> bytes \<Rightarrow> bytes \<Rightarrow> int \<times> bytes"
  crypto_generate_stateless_reset_token :: "bytes \<Rightarrow> ngtcp2_cid \<Rightarrow> int \<times> bytes"
  ngtcp2_accept :: "bytes \<Rightarrow> int \<times> raw_pkt_hd"
  crypto_generate_retry_token2 ::
    "bytes \<Rightarrow> bytes \<Rightarrow> u32 \<Rightarrow> bytes \<times> nat \<Rightarrow> ngtcp2_cid \<Rightarrow> ngtcp2_cid \<Rightarrow> u64 \<Rightarrow> int \<times> bytes"
  crypto_verify_retry_token2 ::
    "bytes \<Rightarrow> bytes \<Rightarrow> u32 \<Rightarrow> bytes \<times> nat \<Rightarrow> ngtcp2_cid \<Rightarrow> u64 \<Rightarrow> u64 \<Rightarrow> int \<times> ngtcp2_cid"
  crypto_generate_regular_token :: "bytes \<Rightarrow> bytes \<Rightarrow> bytes \<times> nat \<Rightarrow> u64 \<Rightarrow> int \<times> bytes"
  crypto_verify_regular_token :: "bytes \<Rightarrow> bytes \<Rightarrow> bytes \<times> nat \<Rightarrow> u64 \<Rightarrow> u64 \<Rightarrow> int"
  crypto_write_retry ::
    "bytes \<Rightarrow> u32 \<Rightarrow> ngtcp2_cid \<Rightarrow> ngtcp2_cid \<Rightarrow> ngtcp2_cid \<Rightarrow> bytes \<Rightarrow> int \<times> bytes"
  crypto_write_connection_close ::
    "bytes \<Rightarrow> u32 \<Rightarrow> ngtcp2_cid \<Rightarrow> ngtcp2_cid \<Rightarrow> u64 \<Rightarrow> bytes \<Rightarrow> int \<times> bytes"

text \<open>A \<^verbatim>\<open>ConnectionId\<close> as the argument of a C function.\<close>

definition raw_of :: "cid \<Rightarrow> ngtcp2_cid" where
  "raw_of c = (case cid_to_raw c of Some raw \<Rightarrow> raw
     | None \<Rightarrow> \<lparr>rc_datalen = 0, rc_data = replicate NGTCP2_MAX_CIDLEN 0\<rparr>)"

lemma raw_of_bytes: "cid_ok c \<Longrightarrow> raw_cid_bytes (raw_of c) = cid_bytes c"
  using cid_to_raw_ok [of c] by (auto simp: raw_of_def)

section \<open>Versions\<close>

datatype LongHeaderType = Initial | ZeroRtt | Handshake | Retry

definition long_header_type :: "u32 \<Rightarrow> byte \<Rightarrow> LongHeaderType option" where
  "long_header_type version first_byte =
    (let bits = drop_bit 4 first_byte AND 0x3 in
     if version = NGTCP2_PROTO_VER_V1 then
       Some (if bits = 0x0 then Initial else if bits = 0x1 then ZeroRtt
             else if bits = 0x2 then Handshake else Retry)
     else if version = NGTCP2_PROTO_VER_V2 then
       Some (if bits = 0x1 then Initial else if bits = 0x2 then ZeroRtt
             else if bits = 0x3 then Handshake else Retry)
     else None)"

record PacketVersion =
  pv_version :: u32
  pv_dcid :: cid
  pv_scid :: cid
  pv_header_type :: "LongHeaderType option"

definition is_initial :: "PacketVersion \<Rightarrow> bool" where
  "is_initial pv = (pv_header_type pv = Some Initial)"

definition decode_packet_version :: "('a stateless_api_scheme) \<Rightarrow> bytes \<Rightarrow> PacketVersion option" where
  "decode_packet_version api data =
    (case data of [] \<Rightarrow> None
     | first # _ \<Rightarrow>
       if first AND 0x80 = 0 then None
       else
         let (rv, raw) = pkt_decode_version_cid api data 0 in
         if rv \<noteq> 0 \<and> rv \<noteq> NGTCP2_ERR_VERSION_NEGOTIATION then None
         else if rv_version raw = 0 then None
         else case (rv_dcid raw, rv_scid raw) of
           (Some d, Some s) \<Rightarrow>
             (case cid_new d of None \<Rightarrow> None
              | Some dcid \<Rightarrow>
                (case cid_new s of None \<Rightarrow> None
                 | Some scid \<Rightarrow>
                   Some \<lparr>pv_version = rv_version raw, pv_dcid = dcid, pv_scid = scid,
                         pv_header_type = long_header_type (rv_version raw) first\<rparr>))
         | _ \<Rightarrow> None)"

text \<open>Writers return the result and the buffer after the call.\<close>

definition write_version_negotiation :: "('a stateless_api_scheme) \<Rightarrow> (nat \<Rightarrow> bytes option) \<Rightarrow> bytes
    \<Rightarrow> cid \<Rightarrow> cid \<Rightarrow> QuicVersion list \<Rightarrow> nat result \<times> bytes" where
  "write_version_negotiation api rnd buf client_scid client_dcid supported_versions =
    (if supported_versions = [] then (Err (InvalidArgument ''supported_versions must not be empty''), buf)
     else case rnd 1 of
       None \<Rightarrow> (Err (InternalErr ''failed to generate random bits''), buf)
     | Some unused_random \<Rightarrow>
         let versions = map as_u32 supported_versions;
             (rv, buf1) = pkt_write_version_negotiation api buf (hd unused_random)
                            (cid_bytes client_scid) (cid_bytes client_dcid) versions
         in if rv < 0 then (Err (from_ngtcp2 (strerror api) rv), buf1) else (Ok (nat rv), buf1))"

section \<open>Stateless Reset\<close>

definition STATELESS_RESET_TOKEN_LEN :: nat where "STATELESS_RESET_TOKEN_LEN = 16"
definition STATELESS_RESET_SECRET_LEN :: nat where "STATELESS_RESET_SECRET_LEN = 32"
definition MIN_RANDOM_LEN :: nat where "MIN_RANDOM_LEN = 5"
definition MAX_RANDOM_LEN :: nat where
  "MAX_RANDOM_LEN = NGTCP2_MAX_CIDLEN + 22 - STATELESS_RESET_TOKEN_LEN"
definition MIN_STATELESS_RESET_SIZE :: nat where
  "MIN_STATELESS_RESET_SIZE = 1 + MIN_RANDOM_LEN + STATELESS_RESET_TOKEN_LEN"

datatype StatelessResetToken = StatelessResetToken (token_bytes: bytes)
datatype StatelessResetSecret = StatelessResetSecret (secret_bytes: bytes)

definition reset_secret_generate :: "(nat \<Rightarrow> bytes option) \<Rightarrow> StatelessResetSecret option" where
  "reset_secret_generate rnd = map_option StatelessResetSecret (rnd STATELESS_RESET_SECRET_LEN)"

definition reset_token :: "('a stateless_api_scheme) \<Rightarrow> StatelessResetSecret \<Rightarrow> cid
    \<Rightarrow> StatelessResetToken option" where
  "reset_token api secret c =
    (let (rv, token) = crypto_generate_stateless_reset_token api (secret_bytes secret) (raw_of c)
     in if rv \<noteq> 0 then None else Some (StatelessResetToken token))"

definition write_stateless_reset :: "('a stateless_api_scheme) \<Rightarrow> (nat \<Rightarrow> bytes option) \<Rightarrow> bytes
    \<Rightarrow> StatelessResetToken \<Rightarrow> nat \<Rightarrow> nat result \<times> bytes" where
  "write_stateless_reset api rnd buf token received_len =
    (let random_len = min MAX_RANDOM_LEN (received_len - (1 + STATELESS_RESET_TOKEN_LEN)) in
     if random_len < MIN_RANDOM_LEN then (Ok 0, buf)
     else case rnd random_len of
       None \<Rightarrow> (Err (InternalErr ''failed to generate random bytes''), buf)
     | Some random \<Rightarrow>
         let (rv, buf1) = pkt_write_stateless_reset2 api buf (token_bytes token) random in
         if rv < 0 then (Err (from_ngtcp2 (strerror api) rv), buf1) else (Ok (nat rv), buf1))"

section \<open>Address validation tokens and Retry\<close>

definition RETRY_SECRET_LEN :: nat where "RETRY_SECRET_LEN = 32"
definition sizeof_sockaddr_union :: nat where "sizeof_sockaddr_union = 28"
definition NGTCP2_CRYPTO_TOKEN_RAND_DATALEN :: nat where "NGTCP2_CRYPTO_TOKEN_RAND_DATALEN = 16"
definition MAX_RETRY_TOKEN_LEN :: nat where
  "MAX_RETRY_TOKEN_LEN = 1 + sizeof_sockaddr_union + 1 + NGTCP2_MAX_CIDLEN + 8 + 16
     + NGTCP2_CRYPTO_TOKEN_RAND_DATALEN"
definition MAX_NEW_TOKEN_LEN :: nat where
  "MAX_NEW_TOKEN_LEN = 1 + 8 + 16 + NGTCP2_CRYPTO_TOKEN_RAND_DATALEN"
definition MAX_CLOSE_REASON_LEN :: nat where "MAX_CLOSE_REASON_LEN = 64"
definition TRANSPORT_ERROR_INVALID_TOKEN :: u64 where "TRANSPORT_ERROR_INVALID_TOKEN = 0x0b"

abbreviation (input) NGTCP2_CRYPTO_TOKEN_MAGIC_RETRY2 :: byte where "NGTCP2_CRYPTO_TOKEN_MAGIC_RETRY2 \<equiv> 0xb7"
abbreviation (input) NGTCP2_CRYPTO_TOKEN_MAGIC_REGULAR :: byte where "NGTCP2_CRYPTO_TOKEN_MAGIC_REGULAR \<equiv> 0x36"
abbreviation (input) NGTCP2_CRYPTO_ERR_UNREADABLE_TOKEN :: int where "NGTCP2_CRYPTO_ERR_UNREADABLE_TOKEN \<equiv> - 202"
abbreviation (input) NGTCP2_CRYPTO_ERR_VERIFY_TOKEN :: int where "NGTCP2_CRYPTO_ERR_VERIFY_TOKEN \<equiv> - 203"

datatype AddressValidationTokenKind = RetryToken | NewToken

fun token_kind_as_raw :: "AddressValidationTokenKind \<Rightarrow> nat" where
  "token_kind_as_raw RetryToken = 1"
| "token_kind_as_raw NewToken = 2"

record AddressValidationToken =
  avt_bytes :: bytes
  avt_kind :: AddressValidationTokenKind

definition token_kind :: "bytes \<Rightarrow> AddressValidationTokenKind option" where
  "token_kind token =
    (case token of [] \<Rightarrow> None
     | magic # _ \<Rightarrow>
       if magic = NGTCP2_CRYPTO_TOKEN_MAGIC_RETRY2 then Some RetryToken
       else if magic = NGTCP2_CRYPTO_TOKEN_MAGIC_REGULAR then Some NewToken
       else None)"

definition token_from_packet :: "bytes \<Rightarrow> AddressValidationToken option" where
  "token_from_packet bs =
    (case token_kind bs of None \<Rightarrow> None | Some kind \<Rightarrow> Some \<lparr>avt_bytes = bs, avt_kind = kind\<rparr>)"

definition token_as_raw_kind :: "AddressValidationToken \<Rightarrow> nat" where
  "token_as_raw_kind t = token_kind_as_raw (avt_kind t)"

datatype RetrySecret = RetrySecret (retry_secret_bytes: bytes)

definition retry_secret_generate :: "(nat \<Rightarrow> bytes option) \<Rightarrow> RetrySecret option" where
  "retry_secret_generate rnd = map_option RetrySecret (rnd RETRY_SECRET_LEN)"

record AcceptedInitial =
  ai_version :: u32
  ai_dcid :: cid
  ai_scid :: cid
  ai_token :: bytes

definition accept_initial :: "('a stateless_api_scheme) \<Rightarrow> bytes \<Rightarrow> AcceptedInitial option" where
  "accept_initial api data =
    (let (rv, hd) = ngtcp2_accept api data in
     if rv \<noteq> 0 then None
     else
       let token = (case hd_token hd of None \<Rightarrow> [] | Some t \<Rightarrow> t) in
       case cid_new (raw_cid_bytes (hd_dcid hd)) of None \<Rightarrow> None
       | Some dcid \<Rightarrow>
         (case cid_new (raw_cid_bytes (hd_scid hd)) of None \<Rightarrow> None
          | Some scid \<Rightarrow>
            Some \<lparr>ai_version = hd_version hd, ai_dcid = dcid, ai_scid = scid, ai_token = token\<rparr>))"

definition generate_retry_token :: "('a stateless_api_scheme) \<Rightarrow> RetrySecret \<Rightarrow> QuicVersion \<Rightarrow> SocketAddr
    \<Rightarrow> cid \<Rightarrow> cid \<Rightarrow> u64 \<Rightarrow> AddressValidationToken result" where
  "generate_retry_token api secret version client_addr retry_scid original_dcid ts =
    (let (rv, token) = crypto_generate_retry_token2 api (replicate MAX_RETRY_TOKEN_LEN 0)
           (retry_secret_bytes secret) (as_u32 version) (sockaddr_to_raw client_addr)
           (raw_of retry_scid) (raw_of original_dcid) ts
     in if rv < 0 then Err (InternalErr ''ngtcp2_crypto_generate_retry_token2 failed'')
        else Ok \<lparr>avt_bytes = take (nat rv) token, avt_kind = RetryToken\<rparr>)"

text \<open>Durations are in nanoseconds; \<^verbatim>\<open>timeout.as_nanos() as u64\<close> keeps the low 64 bits.\<close>

definition verify_retry_token :: "('a stateless_api_scheme) \<Rightarrow> RetrySecret \<Rightarrow> bytes \<Rightarrow> QuicVersion
    \<Rightarrow> SocketAddr \<Rightarrow> cid \<Rightarrow> nat \<Rightarrow> u64 \<Rightarrow> cid result" where
  "verify_retry_token api secret token version client_addr retry_dcid timeout ts =
    (let (rv, odcid_raw) = crypto_verify_retry_token2 api token (retry_secret_bytes secret)
           (as_u32 version) (sockaddr_to_raw client_addr) (raw_of retry_dcid)
           (word_of_nat timeout) ts
     in if rv \<noteq> 0 then
          Err (InvalidArgument
            (if rv = NGTCP2_CRYPTO_ERR_UNREADABLE_TOKEN
             then ''retry token is badly formatted or fails integrity check''
             else if rv = NGTCP2_CRYPTO_ERR_VERIFY_TOKEN
             then ''retry token does not prove the client address or has expired''
             else ''retry token verification failed''))
        else case cid_new (raw_cid_bytes odcid_raw) of
          None \<Rightarrow> Err (InvalidArgument ''retry token contains an invalid cid'')
        | Some c \<Rightarrow> Ok c)"

definition generate_new_token :: "('a stateless_api_scheme) \<Rightarrow> RetrySecret \<Rightarrow> SocketAddr \<Rightarrow> u64
    \<Rightarrow> AddressValidationToken result" where
  "generate_new_token api secret client_addr ts =
    (let (rv, token) = crypto_generate_regular_token api (replicate MAX_NEW_TOKEN_LEN 0)
           (retry_secret_bytes secret) (sockaddr_to_raw client_addr) ts
     in if rv < 0 then Err (InternalErr ''ngtcp2_crypto_generate_regular_token failed'')
        else Ok \<lparr>avt_bytes = take (nat rv) token, avt_kind = NewToken\<rparr>)"

definition verify_new_token :: "('a stateless_api_scheme) \<Rightarrow> RetrySecret \<Rightarrow> bytes \<Rightarrow> SocketAddr
    \<Rightarrow> nat \<Rightarrow> u64 \<Rightarrow> unit result" where
  "verify_new_token api secret token client_addr timeout ts =
    (let rv = crypto_verify_regular_token api token (retry_secret_bytes secret)
           (sockaddr_to_raw client_addr) (word_of_nat timeout) ts
     in if rv \<noteq> 0
        then Err (InvalidArgument ''new token does not prove the client address or has expired'')
        else Ok ())"

definition write_retry_packet :: "('a stateless_api_scheme) \<Rightarrow> bytes \<Rightarrow> QuicVersion \<Rightarrow> cid \<Rightarrow> cid
    \<Rightarrow> cid \<Rightarrow> bytes \<Rightarrow> nat result \<times> bytes" where
  "write_retry_packet api buf version client_scid retry_scid original_dcid token =
    (let (rv, buf1) = crypto_write_retry api buf (as_u32 version) (raw_of client_scid)
           (raw_of retry_scid) (raw_of original_dcid) token
     in if rv < 0 then (Err (InternalErr ''ngtcp2_crypto_write_retry failed''), buf1)
        else (Ok (nat rv), buf1))"

definition write_stateless_connection_close :: "('a stateless_api_scheme) \<Rightarrow> bytes \<Rightarrow> QuicVersion
    \<Rightarrow> cid \<Rightarrow> cid \<Rightarrow> u64 \<Rightarrow> bytes \<Rightarrow> nat result \<times> bytes" where
  "write_stateless_connection_close api buf version client_scid server_scid error_code reason =
    (let (rv, buf1) = crypto_write_connection_close api buf (as_u32 version) (raw_of client_scid)
           (raw_of server_scid) error_code (take (min (length reason) MAX_CLOSE_REASON_LEN) reason)
     in if rv < 0 then (Err (InternalErr ''ngtcp2_crypto_write_connection_close failed''), buf1)
        else (Ok (nat rv), buf1))"

section \<open>Properties\<close>

text \<open>The long header packet types on the wire, as RFC 9000 section 17.2 and RFC 9369 section 3.2 give them.\<close>

fun wire_type :: "QuicVersion \<Rightarrow> LongHeaderType \<Rightarrow> byte" where
  "wire_type V1 Initial = 0" | "wire_type V1 ZeroRtt = 1"
| "wire_type V1 Handshake = 2" | "wire_type V1 Retry = 3"
| "wire_type V2 Retry = 0" | "wire_type V2 Initial = 1"
| "wire_type V2 ZeroRtt = 2" | "wire_type V2 Handshake = 3"

lemma two_bits:
  fixes b :: byte
  shows "drop_bit 4 b AND 3 = 0 \<or> drop_bit 4 b AND 3 = 1 \<or> drop_bit 4 b AND 3 = 2 \<or> drop_bit 4 b AND 3 = 3"
proof -
  let ?w = "drop_bit 4 b AND 3"
  have "(3 :: byte) = mask 2" by (simp add: mask_eq_exp_minus_1)
  then have "?w = take_bit 2 (drop_bit 4 b)" by (simp add: take_bit_eq_mask)
  then have "unat ?w = take_bit 2 (unat (drop_bit 4 b))" by (simp only: unsigned_take_bit_eq)
  then have "unat ?w < 4" using take_bit_nat_less_exp [of 2 "unat (drop_bit 4 b)"] by simp
  then have "unat ?w \<in> {0, 1, 2, 3}" by auto
  then show ?thesis by (auto simp: word_unat_eq_iff)
qed

lemma versions_distinct [simp]:
  "NGTCP2_PROTO_VER_V1 \<noteq> NGTCP2_PROTO_VER_V2" "NGTCP2_PROTO_VER_V2 \<noteq> NGTCP2_PROTO_VER_V1"
  by (simp_all add: NGTCP2_PROTO_VER_V1_def NGTCP2_PROTO_VER_V2_def)

text \<open>The type of a long header packet is read with the numbering of its version: for a supported
  version it is the type whose wire value the packet carries, for any other version it is unknown.\<close>

lemma long_header_type_correct:
  "long_header_type version first = Some t \<longleftrightarrow>
    (\<exists>v. from_u32 version = Some v \<and> drop_bit 4 first AND 3 = wire_type v t)"
proof (cases "from_u32 version")
  case None
  then show ?thesis by (auto simp: long_header_type_def from_u32_def split: if_splits)
next
  case (Some v)
  then have v: "version = as_u32 v" by (simp add: from_u32_Some)
  show ?thesis
    using two_bits [of first] Some
    by (cases v; cases t) (auto simp: v long_header_type_def Let_def)
qed

text \<open>A packet whose version is read is a long header packet other than Version Negotiation, the
  connection IDs are those the decoder found and have at most 20 bytes, the type is unknown exactly
  for unsupported versions, and a packet is taken for an Initial only in a supported version.\<close>

lemma decode_packet_version_sound:
  assumes "decode_packet_version api data = Some pv"
  shows "hd data AND 0x80 \<noteq> 0 \<and> pv_version pv \<noteq> 0 \<and> cid_ok (pv_dcid pv) \<and> cid_ok (pv_scid pv)
    \<and> rv_dcid (snd (pkt_decode_version_cid api data 0)) = Some (cid_bytes (pv_dcid pv))
    \<and> rv_scid (snd (pkt_decode_version_cid api data 0)) = Some (cid_bytes (pv_scid pv))
    \<and> (pv_header_type pv = None \<longleftrightarrow> from_u32 (pv_version pv) = None)
    \<and> (is_initial pv \<longrightarrow> from_u32 (pv_version pv) \<noteq> None)"
proof -
  have t: "long_header_type w b = None \<longleftrightarrow> from_u32 w = None" for w b
    by (simp add: long_header_type_def from_u32_def Let_def)
  obtain first r where d: "data = first # r" "first AND 0x80 \<noteq> 0"
    using assms by (cases data) (auto simp: decode_packet_version_def split: if_splits)
  obtain rv raw where p: "pkt_decode_version_cid api data 0 = (rv, raw)" by fastforce
  have pv: "pv_header_type pv = long_header_type (pv_version pv) first" "pv_version pv \<noteq> 0"
    "rv_dcid raw = Some (cid_bytes (pv_dcid pv))" "rv_scid raw = Some (cid_bytes (pv_scid pv))"
    "cid_ok (pv_dcid pv)" "cid_ok (pv_scid pv)"
    using assms p d
    by (auto simp: decode_packet_version_def cid_new_Some split: if_splits option.splits)
  show ?thesis using pv d p t [of "pv_version pv" first] by (auto simp: is_initial_def)
qed

text \<open>C functions for concrete runs: a decoder that reports a fixed header, writers that write what they
  are given, and tokens that are their magic byte followed by the connection ID.\<close>

definition sample_api :: stateless_api where
  "sample_api = \<lparr>strerror = (\<lambda>_. None),
     pkt_decode_version_cid = (\<lambda>d n. (0, \<lparr>rv_version = 1, rv_dcid = Some [7, 8], rv_scid = Some []\<rparr>)),
     pkt_write_version_negotiation = (\<lambda>buf r s d vs. (7, buf)),
     pkt_write_stateless_reset2 = (\<lambda>buf token rand. (int (length rand + 16), rand @ token)),
     crypto_generate_stateless_reset_token = (\<lambda>secret c. (0, replicate 16 1)),
     ngtcp2_accept = (\<lambda>d. (0, \<lparr>hd_version = 1, hd_dcid = \<lparr>rc_datalen = 2, rc_data = [7, 8]\<rparr>,
        hd_scid = \<lparr>rc_datalen = 0, rc_data = []\<rparr>, hd_token = None\<rparr>)),
     crypto_generate_retry_token2 = (\<lambda>buf secret v a r d ts.
        (int (1 + length (raw_cid_bytes d)), NGTCP2_CRYPTO_TOKEN_MAGIC_RETRY2 # raw_cid_bytes d)),
     crypto_verify_retry_token2 = (\<lambda>tok secret v a d timeout ts.
        (0, \<lparr>rc_datalen = length tok - 1, rc_data = tl tok\<rparr>)),
     crypto_generate_regular_token = (\<lambda>buf secret a ts. (1, [NGTCP2_CRYPTO_TOKEN_MAGIC_REGULAR])),
     crypto_verify_regular_token = (\<lambda>tok secret a timeout ts. 0),
     crypto_write_retry = (\<lambda>buf v cs rs od tok. (int (length tok), tok)),
     crypto_write_connection_close = (\<lambda>buf v cs ss e r. (int (length r), r))\<rparr>"

text \<open>The documented length of a Stateless Reset packet: the random octets followed by the token.\<close>

definition reset_writer_length :: "('a stateless_api_scheme) \<Rightarrow> bool" where
  "reset_writer_length api \<longleftrightarrow> (\<forall>buf token rand. fst (pkt_write_stateless_reset2 api buf token rand)
     \<le> int (length rand + STATELESS_RESET_TOKEN_LEN))"

lemma reset_written_bound:
  assumes "reset_writer_length api" and "\<And>n bs. rnd n = Some bs \<Longrightarrow> length bs = n"
    and "fst (write_stateless_reset api rnd buf token received_len) = Ok n"
  shows "(n = 0 \<or> n < received_len) \<and> n \<le> 42 \<and> (received_len < MIN_STATELESS_RESET_SIZE \<longrightarrow> n = 0)"
proof -
  let ?r = "min MAX_RANDOM_LEN (received_len - (1 + STATELESS_RESET_TOKEN_LEN))"
  note defs = MAX_RANDOM_LEN_def STATELESS_RESET_TOKEN_LEN_def MIN_RANDOM_LEN_def
    MIN_STATELESS_RESET_SIZE_def
  show ?thesis
  proof (cases "?r < MIN_RANDOM_LEN")
    case True
    then show ?thesis using assms(3) by (simp add: write_stateless_reset_def Let_def)
  next
    case False
    then obtain rand rv b where r: "rnd ?r = Some rand"
        "pkt_write_stateless_reset2 api buf (token_bytes token) rand = (rv, b)" "n = nat rv"
      using assms(3)
      by (auto simp: write_stateless_reset_def Let_def split: option.splits if_splits prod.splits)
    have "rv \<le> int (length rand + STATELESS_RESET_TOKEN_LEN)"
      using assms(1) r(2) unfolding reset_writer_length_def by (metis fst_conv)
    then have "n \<le> ?r + STATELESS_RESET_TOKEN_LEN" using assms(2) [OF r(1)] r(3) by linarith
    then show ?thesis using False by (auto simp: defs min_def split: if_splits)
  qed
qed

text \<open>The documented first byte of generated tokens.\<close>

definition tokens_start_with_magic :: "('a stateless_api_scheme) \<Rightarrow> bool" where
  "tokens_start_with_magic api \<longleftrightarrow>
    (\<forall>buf secret v a r d ts rv tok. crypto_generate_retry_token2 api buf secret v a r d ts = (rv, tok) \<and> 0 \<le> rv
       \<longrightarrow> 0 < rv \<and> tok \<noteq> [] \<and> hd tok = NGTCP2_CRYPTO_TOKEN_MAGIC_RETRY2)
    \<and> (\<forall>buf secret a ts rv tok. crypto_generate_regular_token api buf secret a ts = (rv, tok) \<and> 0 \<le> rv
       \<longrightarrow> 0 < rv \<and> tok \<noteq> [] \<and> hd tok = NGTCP2_CRYPTO_TOKEN_MAGIC_REGULAR)"

lemma token_from_packet_magic:
  "0 < n \<Longrightarrow> tok \<noteq> [] \<Longrightarrow> token_kind [hd tok] = Some k \<Longrightarrow>
    token_from_packet (take n tok) = Some \<lparr>avt_bytes = take n tok, avt_kind = k\<rparr>"
  by (cases tok; cases n) (auto simp: token_from_packet_def token_kind_def)

text \<open>A token generated for Retry or for NEW_TOKEN is recognised, when it comes back in an Initial
  packet, with the kind it was generated with.\<close>

lemma token_kind_roundtrip:
  assumes "tokens_start_with_magic api"
    and "generate_retry_token api secret v addr scid odcid ts = Ok t
      \<or> generate_new_token api secret addr ts = Ok t"
  shows "token_from_packet (avt_bytes t) = Some t"
proof -
  have k: "token_kind [NGTCP2_CRYPTO_TOKEN_MAGIC_RETRY2] = Some RetryToken"
      "token_kind [NGTCP2_CRYPTO_TOKEN_MAGIC_REGULAR] = Some NewToken"
    by (simp_all add: token_kind_def)
  show ?thesis
    using assms(2)
  proof
    assume g: "generate_retry_token api secret v addr scid odcid ts = Ok t"
    obtain rv tok where c: "crypto_generate_retry_token2 api (replicate MAX_RETRY_TOKEN_LEN 0)
        (retry_secret_bytes secret) (as_u32 v) (sockaddr_to_raw addr) (raw_of scid) (raw_of odcid) ts
        = (rv, tok)" by fastforce
    with g have t: "0 \<le> rv" "t = \<lparr>avt_bytes = take (nat rv) tok, avt_kind = RetryToken\<rparr>"
      by (auto simp: generate_retry_token_def split: if_splits)
    have "0 < rv" "tok \<noteq> []" "hd tok = NGTCP2_CRYPTO_TOKEN_MAGIC_RETRY2"
      using assms(1) c t(1) unfolding tokens_start_with_magic_def by blast+
    then show ?thesis using k(1) by (simp add: t token_from_packet_magic)
  next
    assume g: "generate_new_token api secret addr ts = Ok t"
    obtain rv tok where c: "crypto_generate_regular_token api (replicate MAX_NEW_TOKEN_LEN 0)
        (retry_secret_bytes secret) (sockaddr_to_raw addr) ts = (rv, tok)" by fastforce
    with g have t: "0 \<le> rv" "t = \<lparr>avt_bytes = take (nat rv) tok, avt_kind = NewToken\<rparr>"
      by (auto simp: generate_new_token_def split: if_splits)
    have "0 < rv" "tok \<noteq> []" "hd tok = NGTCP2_CRYPTO_TOKEN_MAGIC_REGULAR"
      using assms(1) c t(1) unfolding tokens_start_with_magic_def by blast+
    then show ?thesis using k(2) by (simp add: t token_from_packet_magic)
  qed
qed

end
