(* ===== verification/Config.thy ===== *)
theory Config
  imports Stateless
begin

text \<open>
  Connection settings (\<^verbatim>\<open>src/ngtcp2/src/settings.rs\<close>), transport parameters
  (\<^verbatim>\<open>src/ngtcp2/src/config.rs\<close>) and statistics (\<^verbatim>\<open>src/ngtcp2/src/stats.rs\<close>): the Rust values and the C
  structures they are converted to and from. A \<^verbatim>\<open>Duration\<close> is its number of nanoseconds; the fields of
  the C structures are 64-bit words, and \<^verbatim>\<open>as u64\<close> and \<^verbatim>\<open>u64::try_from\<close> are written out. The defaults that
  ngtcp2 fills in are an argument of the constructors.
\<close>

section \<open>Settings\<close>

definition DEFAULT_MAX_TX_UDP_PAYLOAD_SIZE :: nat where "DEFAULT_MAX_TX_UDP_PAYLOAD_SIZE = 1350"
definition DEFAULT_INITIAL_RTT :: nat where "DEFAULT_INITIAL_RTT = 333 * 10 ^ 6"

datatype CongestionAlgorithm = Reno | Cubic | Bbr2

definition cc_from_raw :: "nat \<Rightarrow> CongestionAlgorithm" where
  "cc_from_raw v = (if v = 0 then Reno else if v = 2 then Bbr2 else Cubic)"

fun cc_as_raw :: "CongestionAlgorithm \<Rightarrow> nat" where
  "cc_as_raw Reno = 0"
| "cc_as_raw Cubic = 1"
| "cc_as_raw Bbr2 = 2"

abbreviation (input) UINT64_MAX :: u64 where "UINT64_MAX \<equiv> - 1"

definition finite_duration :: "u64 \<Rightarrow> nat option" where
  "finite_duration nanos = (if nanos \<noteq> UINT64_MAX then Some (unat nanos) else None)"

definition nanos_or_max :: "nat option \<Rightarrow> u64" where
  "nanos_or_max duration = (case duration of None \<Rightarrow> UINT64_MAX | Some d \<Rightarrow> word_of_nat d)"

record Settings =
  s_initial_ts :: u64
  s_congestion_algorithm :: CongestionAlgorithm
  s_initial_rtt :: nat
  s_handshake_timeout :: "nat option"
  s_max_tx_udp_payload_size :: nat
  s_max_window :: u64
  s_max_stream_window :: u64
  s_ack_threshold :: nat
  s_no_tx_udp_payload_size_shaping :: bool
  s_no_pmtud :: bool
  s_keep_alive_timeout :: "nat option"
  s_address_validation_token :: "AddressValidationToken option"
  s_stateless_reset_secret :: "StatelessResetSecret option"
  s_preferred_versions :: "QuicVersion list"
  s_available_versions :: "QuicVersion list"
  s_qlog :: bool

text \<open>The fields of \<^verbatim>\<open>ngtcp2_settings\<close> that the crate writes; a pointer with its length is an optional list.\<close>

record raw_settings =
  rs_initial_ts :: u64
  rs_cc_algo :: nat
  rs_initial_rtt :: u64
  rs_handshake_timeout :: u64
  rs_max_tx_udp_payload_size :: nat
  rs_max_window :: u64
  rs_max_stream_window :: u64
  rs_ack_thresh :: nat
  rs_no_tx_udp_payload_size_shaping :: byte
  rs_no_pmtud :: byte
  rs_preferred_versions :: "u32 list option"
  rs_available_versions :: "u32 list option"
  rs_qlog_write :: bool
  rs_token :: "bytes option"
  rs_token_type :: nat

definition default_raw :: "raw_settings \<Rightarrow> u64 \<Rightarrow> raw_settings" where
  "default_raw dflt initial_ts =
    dflt\<lparr>rs_initial_ts := initial_ts, rs_max_tx_udp_payload_size := DEFAULT_MAX_TX_UDP_PAYLOAD_SIZE\<rparr>"

definition settings_new :: "raw_settings \<Rightarrow> u64 \<Rightarrow> Settings" where
  "settings_new dflt initial_ts =
    (let raw = default_raw dflt initial_ts in
     \<lparr>s_initial_ts = initial_ts,
      s_congestion_algorithm = cc_from_raw (rs_cc_algo raw),
      s_initial_rtt = unat (rs_initial_rtt raw),
      s_handshake_timeout = finite_duration (rs_handshake_timeout raw),
      s_max_tx_udp_payload_size = rs_max_tx_udp_payload_size raw,
      s_max_window = rs_max_window raw,
      s_max_stream_window = rs_max_stream_window raw,
      s_ack_threshold = rs_ack_thresh raw,
      s_no_tx_udp_payload_size_shaping = (rs_no_tx_udp_payload_size_shaping raw \<noteq> 0),
      s_no_pmtud = (rs_no_pmtud raw \<noteq> 0),
      s_keep_alive_timeout = None,
      s_address_validation_token = None,
      s_stateless_reset_secret = None,
      s_preferred_versions = [],
      s_available_versions = [],
      s_qlog = False\<rparr>)"

definition settings_to_raw :: "raw_settings \<Rightarrow> Settings \<Rightarrow> raw_settings" where
  "settings_to_raw dflt s =
    (let raw = (default_raw dflt (s_initial_ts s))\<lparr>
           rs_cc_algo := cc_as_raw (s_congestion_algorithm s),
           rs_initial_rtt := word_of_nat (s_initial_rtt s),
           rs_handshake_timeout := nanos_or_max (s_handshake_timeout s),
           rs_max_tx_udp_payload_size := s_max_tx_udp_payload_size s,
           rs_max_window := s_max_window s,
           rs_max_stream_window := s_max_stream_window s,
           rs_ack_thresh := s_ack_threshold s,
           rs_no_tx_udp_payload_size_shaping := of_bool (s_no_tx_udp_payload_size_shaping s),
           rs_no_pmtud := of_bool (s_no_pmtud s)\<rparr>;
         raw = (if s_preferred_versions s \<noteq> []
                then raw\<lparr>rs_preferred_versions := Some (map as_u32 (s_preferred_versions s))\<rparr> else raw);
         raw = (if s_available_versions s \<noteq> []
                then raw\<lparr>rs_available_versions := Some (map as_u32 (s_available_versions s))\<rparr> else raw);
         raw = (if s_qlog s then raw\<lparr>rs_qlog_write := True\<rparr> else raw)
     in case s_address_validation_token s of
          None \<Rightarrow> raw
        | Some token \<Rightarrow> raw\<lparr>rs_token := Some (avt_bytes token), rs_token_type := token_as_raw_kind token\<rparr>)"

section \<open>Transport parameters\<close>

definition duration_nanos :: "nat \<Rightarrow> u64" where
  "duration_nanos d = (if d \<le> u64_max then word_of_nat d else UINT64_MAX - 1)"

record raw_preferred_addr =
  pa_cid :: ngtcp2_cid
  pa_ipv4 :: "bytes option"
  pa_ipv6 :: "bytes option"
  pa_stateless_reset_token :: bytes

record raw_transport_params =
  tp_initial_max_stream_data_bidi_local :: u64
  tp_initial_max_stream_data_bidi_remote :: u64
  tp_initial_max_stream_data_uni :: u64
  tp_initial_max_data :: u64
  tp_initial_max_streams_bidi :: u64
  tp_initial_max_streams_uni :: u64
  tp_max_idle_timeout :: u64
  tp_max_udp_payload_size :: u64
  tp_active_connection_id_limit :: u64
  tp_ack_delay_exponent :: u64
  tp_max_ack_delay :: u64
  tp_max_datagram_frame_size :: u64
  tp_disable_active_migration :: byte
  tp_grease_quic_bit :: byte
  tp_reset_stream_at :: byte
  tp_stateless_reset_token :: bytes
  tp_stateless_reset_token_present :: byte
  tp_original_dcid :: ngtcp2_cid
  tp_original_dcid_present :: byte
  tp_retry_scid :: ngtcp2_cid
  tp_retry_scid_present :: byte
  tp_preferred_addr :: raw_preferred_addr
  tp_preferred_addr_present :: byte

type_synonym TransportParams = raw_transport_params

definition transport_params_new :: "raw_transport_params \<Rightarrow> TransportParams" where
  "transport_params_new dflt = dflt\<lparr>
     tp_initial_max_stream_data_bidi_local := 1024 * 1024,
     tp_initial_max_stream_data_bidi_remote := 1024 * 1024,
     tp_initial_max_stream_data_uni := 1024 * 1024,
     tp_initial_max_data := 10 * 1024 * 1024,
     tp_initial_max_streams_bidi := 100,
     tp_initial_max_streams_uni := 100,
     tp_max_idle_timeout := duration_nanos (30 * 10 ^ 9),
     tp_active_connection_id_limit := 8\<rparr>"

definition with_max_idle_timeout :: "nat \<Rightarrow> TransportParams \<Rightarrow> TransportParams" where
  "with_max_idle_timeout timeout p = p\<lparr>tp_max_idle_timeout := duration_nanos timeout\<rparr>"

definition with_initial_max_data :: "u64 \<Rightarrow> TransportParams \<Rightarrow> TransportParams" where
  "with_initial_max_data n p = p\<lparr>tp_initial_max_data := n\<rparr>"

definition with_initial_max_stream_data_bidi_local :: "u64 \<Rightarrow> TransportParams \<Rightarrow> TransportParams" where
  "with_initial_max_stream_data_bidi_local n p = p\<lparr>tp_initial_max_stream_data_bidi_local := n\<rparr>"

definition with_initial_max_stream_data_bidi_remote :: "u64 \<Rightarrow> TransportParams \<Rightarrow> TransportParams" where
  "with_initial_max_stream_data_bidi_remote n p = p\<lparr>tp_initial_max_stream_data_bidi_remote := n\<rparr>"

definition with_initial_max_stream_data_uni :: "u64 \<Rightarrow> TransportParams \<Rightarrow> TransportParams" where
  "with_initial_max_stream_data_uni n p = p\<lparr>tp_initial_max_stream_data_uni := n\<rparr>"

definition with_max_streams_bidi :: "u64 \<Rightarrow> TransportParams \<Rightarrow> TransportParams" where
  "with_max_streams_bidi n p = p\<lparr>tp_initial_max_streams_bidi := n\<rparr>"

definition with_max_streams_uni :: "u64 \<Rightarrow> TransportParams \<Rightarrow> TransportParams" where
  "with_max_streams_uni n p = p\<lparr>tp_initial_max_streams_uni := n\<rparr>"

definition with_active_connection_id_limit :: "u64 \<Rightarrow> TransportParams \<Rightarrow> TransportParams" where
  "with_active_connection_id_limit n p = p\<lparr>tp_active_connection_id_limit := n\<rparr>"

definition with_max_ack_delay :: "nat \<Rightarrow> TransportParams \<Rightarrow> TransportParams" where
  "with_max_ack_delay d p = p\<lparr>tp_max_ack_delay := duration_nanos d\<rparr>"

definition with_ack_delay_exponent :: "u64 \<Rightarrow> TransportParams \<Rightarrow> TransportParams" where
  "with_ack_delay_exponent n p = p\<lparr>tp_ack_delay_exponent := n\<rparr>"

definition with_max_udp_payload_size :: "u64 \<Rightarrow> TransportParams \<Rightarrow> TransportParams" where
  "with_max_udp_payload_size n p = p\<lparr>tp_max_udp_payload_size := n\<rparr>"

definition with_disable_active_migration :: "bool \<Rightarrow> TransportParams \<Rightarrow> TransportParams" where
  "with_disable_active_migration b p = p\<lparr>tp_disable_active_migration := of_bool b\<rparr>"

definition with_grease_quic_bit :: "bool \<Rightarrow> TransportParams \<Rightarrow> TransportParams" where
  "with_grease_quic_bit b p = p\<lparr>tp_grease_quic_bit := of_bool b\<rparr>"

definition with_datagram :: "u64 \<Rightarrow> TransportParams \<Rightarrow> TransportParams" where
  "with_datagram n p = p\<lparr>tp_max_datagram_frame_size := n\<rparr>"

definition with_stateless_reset_token :: "StatelessResetToken \<Rightarrow> TransportParams \<Rightarrow> TransportParams" where
  "with_stateless_reset_token t p =
     p\<lparr>tp_stateless_reset_token := token_bytes t, tp_stateless_reset_token_present := 1\<rparr>"

text \<open>\<^verbatim>\<open>data[..len].copy_from_slice\<close> into a 20 byte array keeps the bytes behind the ID.\<close>

definition copy_cid :: "cid \<Rightarrow> ngtcp2_cid \<Rightarrow> ngtcp2_cid" where
  "copy_cid c raw = \<lparr>rc_datalen = cid_len c, rc_data = cid_bytes c @ drop (cid_len c) (rc_data raw)\<rparr>"

definition with_original_dcid :: "cid \<Rightarrow> TransportParams \<Rightarrow> TransportParams" where
  "with_original_dcid c p =
     p\<lparr>tp_original_dcid := copy_cid c (tp_original_dcid p), tp_original_dcid_present := 1\<rparr>"

definition has_original_dcid :: "TransportParams \<Rightarrow> bool" where
  "has_original_dcid p = (tp_original_dcid_present p \<noteq> 0)"

definition with_reset_stream_at :: "bool \<Rightarrow> TransportParams \<Rightarrow> TransportParams" where
  "with_reset_stream_at b p = p\<lparr>tp_reset_stream_at := of_bool b\<rparr>"

definition with_retry_scid :: "cid \<Rightarrow> TransportParams \<Rightarrow> TransportParams" where
  "with_retry_scid c p = p\<lparr>tp_retry_scid := copy_cid c (tp_retry_scid p), tp_retry_scid_present := 1\<rparr>"

text \<open>The IPv6 structure of a preferred address carries neither flow information nor scope.\<close>

definition with_preferred_address :: "cid \<Rightarrow> SocketAddr \<Rightarrow> StatelessResetToken \<Rightarrow> TransportParams
    \<Rightarrow> TransportParams" where
  "with_preferred_address c addr t p =
    (let pa = (tp_preferred_addr p)\<lparr>pa_cid := copy_cid c (pa_cid (tp_preferred_addr p))\<rparr>;
         pa = (case addr of
                 SockV4 ip port \<Rightarrow>
                   pa\<lparr>pa_ipv4 := Some (take sizeof_sockaddr_in (fst (sockaddr_to_raw addr)))\<rparr>
               | SockV6 ip port fl sc \<Rightarrow>
                   pa\<lparr>pa_ipv6 := Some (take sizeof_sockaddr_in6 (fst (sockaddr_to_raw (SockV6 ip port 0 0))))\<rparr>)
     in p\<lparr>tp_preferred_addr := pa\<lparr>pa_stateless_reset_token := token_bytes t\<rparr>,
          tp_preferred_addr_present := 1\<rparr>)"

record RemoteTransportParams =
  rp_initial_max_data :: u64
  rp_initial_max_stream_data_bidi_local :: u64
  rp_initial_max_stream_data_bidi_remote :: u64
  rp_initial_max_stream_data_uni :: u64
  rp_initial_max_streams_bidi :: u64
  rp_initial_max_streams_uni :: u64
  rp_max_idle_timeout :: nat
  rp_max_udp_payload_size :: u64
  rp_active_connection_id_limit :: u64
  rp_ack_delay_exponent :: u64
  rp_max_ack_delay :: nat
  rp_max_datagram_frame_size :: u64
  rp_disable_active_migration :: bool
  rp_grease_quic_bit :: bool
  rp_reset_stream_at :: bool
  rp_retry_scid :: "cid option"

definition remote_from_raw :: "raw_transport_params \<Rightarrow> RemoteTransportParams" where
  "remote_from_raw raw =
    \<lparr>rp_initial_max_data = tp_initial_max_data raw,
     rp_initial_max_stream_data_bidi_local = tp_initial_max_stream_data_bidi_local raw,
     rp_initial_max_stream_data_bidi_remote = tp_initial_max_stream_data_bidi_remote raw,
     rp_initial_max_stream_data_uni = tp_initial_max_stream_data_uni raw,
     rp_initial_max_streams_bidi = tp_initial_max_streams_bidi raw,
     rp_initial_max_streams_uni = tp_initial_max_streams_uni raw,
     rp_max_idle_timeout = unat (tp_max_idle_timeout raw),
     rp_max_udp_payload_size = tp_max_udp_payload_size raw,
     rp_active_connection_id_limit = tp_active_connection_id_limit raw,
     rp_ack_delay_exponent = tp_ack_delay_exponent raw,
     rp_max_ack_delay = unat (tp_max_ack_delay raw),
     rp_max_datagram_frame_size = tp_max_datagram_frame_size raw,
     rp_disable_active_migration = (tp_disable_active_migration raw \<noteq> 0),
     rp_grease_quic_bit = (tp_grease_quic_bit raw \<noteq> 0),
     rp_reset_stream_at = (tp_reset_stream_at raw \<noteq> 0),
     rp_retry_scid = (if tp_retry_scid_present raw \<noteq> 0
        then cid_new (raw_cid_bytes (tp_retry_scid raw)) else None)\<rparr>"

section \<open>Statistics\<close>

definition optional_nanos :: "u64 \<Rightarrow> nat option" where
  "optional_nanos v = (if v \<noteq> UINT64_MAX then Some (unat v) else None)"

definition optional_bytes :: "u64 \<Rightarrow> u64 option" where
  "optional_bytes v = (if v \<noteq> UINT64_MAX then Some v else None)"

record raw_conn_info =
  ci_latest_rtt :: u64
  ci_min_rtt :: u64
  ci_smoothed_rtt :: u64
  ci_rttvar :: u64
  ci_cwnd :: u64
  ci_ssthresh :: u64
  ci_bytes_in_flight :: u64
  ci_pkt_sent :: u64
  ci_bytes_sent :: u64
  ci_pkt_recv :: u64
  ci_bytes_recv :: u64
  ci_pkt_lost :: u64
  ci_bytes_lost :: u64
  ci_ping_recv :: u64
  ci_pkt_discarded :: u64

record ConnStats =
  cs_latest_rtt :: nat
  cs_min_rtt :: "nat option"
  cs_smoothed_rtt :: nat
  cs_rttvar :: nat
  cs_cwnd :: u64
  cs_ssthresh :: "u64 option"
  cs_bytes_in_flight :: u64
  cs_packets_sent :: u64
  cs_bytes_sent :: u64
  cs_packets_received :: u64
  cs_bytes_received :: u64
  cs_packets_lost :: u64
  cs_bytes_lost :: u64
  cs_pings_received :: u64
  cs_packets_discarded :: u64

definition stats_from_raw :: "raw_conn_info \<Rightarrow> ConnStats" where
  "stats_from_raw raw =
    \<lparr>cs_latest_rtt = unat (ci_latest_rtt raw), cs_min_rtt = optional_nanos (ci_min_rtt raw),
     cs_smoothed_rtt = unat (ci_smoothed_rtt raw), cs_rttvar = unat (ci_rttvar raw),
     cs_cwnd = ci_cwnd raw, cs_ssthresh = optional_bytes (ci_ssthresh raw),
     cs_bytes_in_flight = ci_bytes_in_flight raw, cs_packets_sent = ci_pkt_sent raw,
     cs_bytes_sent = ci_bytes_sent raw, cs_packets_received = ci_pkt_recv raw,
     cs_bytes_received = ci_bytes_recv raw, cs_packets_lost = ci_pkt_lost raw,
     cs_bytes_lost = ci_bytes_lost raw, cs_pings_received = ci_ping_recv raw,
     cs_packets_discarded = ci_pkt_discarded raw\<rparr>"

section \<open>Properties\<close>

lemma unat_UINT64_MAX: "unat UINT64_MAX = u64_max"
  by (simp add: unsigned_minus_1_eq_mask mask_eq_exp_minus_1)

lemma unat_of_nat64: "unat (word_of_nat d :: u64) = d mod 2 ^ 64"
  by (simp add: unat_of_nat)

lemma word_of_nat_max: "(word_of_nat d :: u64) = UINT64_MAX \<longleftrightarrow> d mod 2 ^ 64 = u64_max"
  by (simp add: word_unat_eq_iff unat_UINT64_MAX unat_of_nat64)

lemma unat_duration_nanos: "unat (duration_nanos d) = (if d \<le> u64_max then d else u64_max - 1)"
proof (cases "d \<le> u64_max")
  case True
  then show ?thesis by (simp add: duration_nanos_def unat_of_nat64)
next
  case False
  have "UINT64_MAX - 1 = 18446744073709551614" by simp
  then have "unat (UINT64_MAX - 1) = u64_max - 1" by (simp only: unsigned_numeral) simp
  with False show ?thesis by (simp only: duration_nanos_def if_False)
qed

text \<open>The optional handshake timeout is passed to ngtcp2 modulo \<open>2 ^ 64\<close> nanoseconds, and ngtcp2
  gets the timeout that was set exactly when it is below the reserved value: one nanosecond more
  disables it and \<open>2 ^ 64\<close> nanoseconds become an immediate timeout.\<close>

lemma settings_handshake_timeout:
  "finite_duration (rs_handshake_timeout (settings_to_raw dflt s)) = s_handshake_timeout s
     \<longleftrightarrow> (case s_handshake_timeout s of None \<Rightarrow> True | Some d \<Rightarrow> d < u64_max)"
proof -
  have raw: "rs_handshake_timeout (settings_to_raw dflt s) = nanos_or_max (s_handshake_timeout s)"
    by (simp add: settings_to_raw_def Let_def split: option.split)
  show ?thesis
  proof (cases "s_handshake_timeout s")
    case None
    then show ?thesis unfolding raw by (simp add: nanos_or_max_def finite_duration_def)
  next
    case (Some d)
    have "finite_duration (word_of_nat d) = Some d \<longleftrightarrow> d mod 2 ^ 64 \<noteq> u64_max \<and> d mod 2 ^ 64 = d"
      by (auto simp: finite_duration_def word_of_nat_max unat_of_nat64)
    also have "\<dots> \<longleftrightarrow> d < u64_max"
    proof -
      have "d mod 2 ^ 64 = d \<longleftrightarrow> d < 2 ^ 64" by (metis mod_less mod_less_divisor zero_less_numeral zero_less_power)
      then show ?thesis by auto
    qed
    finally show ?thesis unfolding raw using Some by (simp add: nanos_or_max_def)
  qed
qed

text \<open>A peer that reads the transport parameters sees what the builder set: the idle timeout clamped
  below the reserved value when it does not fit, the retry source connection ID, and the other
  limits unchanged by the setters of the connection IDs.\<close>

lemma transport_params_roundtrip:
  assumes "cid_ok c" and "cid_ok orig"
  shows "let p = with_original_dcid orig (with_retry_scid c (with_max_idle_timeout d
             (with_initial_max_data n (with_datagram k p0))));
             r = remote_from_raw p
         in has_original_dcid p \<and> raw_cid_bytes (tp_original_dcid p) = cid_bytes orig
            \<and> rp_retry_scid r = Some c
            \<and> rp_max_idle_timeout r = (if d \<le> u64_max then d else u64_max - 1)
            \<and> rp_initial_max_data r = n \<and> rp_max_datagram_frame_size r = k
            \<and> rp_initial_max_streams_bidi r = tp_initial_max_streams_bidi p0"
proof -
  have cb: "raw_cid_bytes (copy_cid x r) = cid_bytes x" for x r
    by (simp add: copy_cid_def raw_cid_bytes_def cid_len_def)
  have "cid_new (cid_bytes c) = Some c" using assms(1) by (simp add: cid_new_Some)
  then show ?thesis
    by (simp add: Let_def with_original_dcid_def with_retry_scid_def with_max_idle_timeout_def
        with_initial_max_data_def with_datagram_def remote_from_raw_def has_original_dcid_def cb
        unat_duration_nanos)
qed

end
