(* ===== verification/InFlight.thy ===== *)
theory InFlight
  imports Prelude
begin

text \<open>
  The buffer of stream data that was sent and not yet acknowledged (\<^verbatim>\<open>InFlightStreamData\<close> in
  \<^verbatim>\<open>src/ngtcp2/src/conn.rs\<close>). ngtcp2 keeps pointers into the buffer for retransmission, so the point
  of the code is memory safety: bytes handed to ngtcp2 must stay where they are, unchanged, until
  they are acknowledged. The model therefore has an explicit memory: a region per allocation, freed
  regions mapped to \<open>None\<close>, and a \<^verbatim>\<open>Vec\<close> that names its region, its length and its capacity and
  moves to a new region when it grows beyond it. Stream offsets stay below \<open>2 ^ 62\<close> by the protocol and
  are natural numbers; the saturating doubling of the capacity is written out.
\<close>

section \<open>Memory and vectors\<close>

record mem =
  m_reg :: "nat \<Rightarrow> bytes option"
  m_next :: nat

record vec =
  v_reg :: "nat option"
  v_len :: nat
  v_cap :: nat

definition vec_new :: vec where
  "vec_new = \<lparr>v_reg = None, v_len = 0, v_cap = 0\<rparr>"

definition vec_with_capacity :: "nat \<Rightarrow> mem \<Rightarrow> vec \<times> mem" where
  "vec_with_capacity cap m =
    (if cap = 0 then (vec_new, m)
     else (\<lparr>v_reg = Some (m_next m), v_len = 0, v_cap = cap\<rparr>,
           m\<lparr>m_reg := (m_reg m)(m_next m \<mapsto> []), m_next := Suc (m_next m)\<rparr>))"

definition region_bytes :: "mem \<Rightarrow> vec \<Rightarrow> bytes" where
  "region_bytes m v = (case v_reg v of None \<Rightarrow> []
     | Some r \<Rightarrow> (case m_reg m r of None \<Rightarrow> [] | Some bs \<Rightarrow> bs))"

definition vec_bytes :: "mem \<Rightarrow> vec \<Rightarrow> bytes" where
  "vec_bytes m v = take (v_len v) (region_bytes m v)"

definition vec_drop :: "vec \<Rightarrow> mem \<Rightarrow> mem" where
  "vec_drop v m = (case v_reg v of None \<Rightarrow> m | Some r \<Rightarrow> m\<lparr>m_reg := (m_reg m)(r := None)\<rparr>)"

definition vec_store :: "vec \<Rightarrow> bytes \<Rightarrow> mem \<Rightarrow> mem" where
  "vec_store v bs m = (case v_reg v of None \<Rightarrow> m | Some r \<Rightarrow> m\<lparr>m_reg := (m_reg m)(r \<mapsto> bs)\<rparr>)"

text \<open>\<^verbatim>\<open>extend_from_slice\<close>: in place when the capacity allows, otherwise the contents move to a new
  region and the old one is freed.\<close>

definition vec_extend :: "vec \<Rightarrow> bytes \<Rightarrow> mem \<Rightarrow> vec \<times> mem" where
  "vec_extend v data m =
    (let n = v_len v + length data in
     if n \<le> v_cap v
     then (v\<lparr>v_len := n\<rparr>, vec_store v (vec_bytes m v @ data) m)
     else let (w, m1) = vec_with_capacity n m in
       (w\<lparr>v_len := n\<rparr>, vec_drop v (vec_store w (vec_bytes m v @ data) m1)))"

section \<open>The in-flight buffer\<close>

record RetiredBuffer =
  rb_data :: vec
  rb_end :: nat

record InFlightStreamData =
  fl_offset :: nat
  fl_data :: vec
  fl_start :: nat
  fl_retired :: "RetiredBuffer list"

definition in_flight_new :: InFlightStreamData where
  "in_flight_new = \<lparr>fl_offset = 0, fl_data = vec_new, fl_start = 0, fl_retired = []\<rparr>"

definition unacked :: "mem \<Rightarrow> InFlightStreamData \<Rightarrow> bytes" where
  "unacked m f = drop (fl_start f) (vec_bytes m (fl_data f))"

definition ack_until :: "nat \<Rightarrow> InFlightStreamData \<Rightarrow> mem \<Rightarrow> InFlightStreamData \<times> mem" where
  "ack_until offset f m =
    (if offset \<le> fl_offset f then (f, m)
     else
      let acked = min (offset - fl_offset f) (v_len (fl_data f) - fl_start f);
          f1 = f\<lparr>fl_offset := fl_offset f + acked, fl_start := fl_start f + acked\<rparr>;
          f2 = (if fl_start f1 = v_len (fl_data f1)
                then f1\<lparr>fl_data := (fl_data f1)\<lparr>v_len := 0\<rparr>, fl_start := 0\<rparr> else f1);
          gone = filter (\<lambda>r. \<not> rb_end r > fl_offset f2) (fl_retired f2)
      in (f2\<lparr>fl_retired := filter (\<lambda>r. rb_end r > fl_offset f2) (fl_retired f2)\<rparr>,
          fold (\<lambda>r. vec_drop (rb_data r)) gone m))"

text \<open>The branch of \<^verbatim>\<open>append\<close> that makes room before the data is added.\<close>

definition make_room :: "nat \<Rightarrow> InFlightStreamData \<Rightarrow> mem \<Rightarrow> InFlightStreamData \<times> mem" where
  "make_room n f m =
    (let v = fl_data f in
     if v_len v + n > v_cap v then
       let needed = v_len v + n;
           capacity = max needed (min (v_cap v * 2) u64_max)
       in if v_len v = 0 then
            let (w, m1) = vec_with_capacity capacity m in (f\<lparr>fl_data := w\<rparr>, vec_drop v m1)
          else
            let (w0, m1) = vec_with_capacity capacity m;
                (w, m2) = vec_extend w0 (unacked m f) m1;
                e = fl_offset f + (v_len v - fl_start f)
            in (f\<lparr>fl_retired := fl_retired f @ [\<lparr>rb_data = v, rb_end = e\<rparr>],
                  fl_data := w, fl_start := 0\<rparr>, m2)
     else (f, m))"

definition append_data ::
    "bytes \<Rightarrow> InFlightStreamData \<Rightarrow> mem \<Rightarrow> (nat \<times> nat) \<times> InFlightStreamData \<times> mem" where
  "append_data data f m =
    (let (f1, m1) = make_room (length data) f m;
         start = v_len (fl_data f1);
         (v, m2) = vec_extend (fl_data f1) data m1
     in ((start, v_len v), f1\<lparr>fl_data := v\<rparr>, m2))"

definition truncate_unwritten :: "nat \<Rightarrow> InFlightStreamData \<Rightarrow> InFlightStreamData" where
  "truncate_unwritten len f =
    f\<lparr>fl_data := (fl_data f)\<lparr>v_len := min (v_len (fl_data f)) (fl_start f + len)\<rparr>\<rparr>"

text \<open>What \<^verbatim>\<open>write_stream_with_flags\<close> does to the buffer when ngtcp2 accepts \<open>accepted\<close> bytes of \<open>data\<close>
  (0 when it writes no STREAM frame): append, hand out the appended range, drop the unwritten tail.
  The range handed out is the region and index of the first appended byte.\<close>

definition offer :: "bytes \<Rightarrow> nat \<Rightarrow> InFlightStreamData \<Rightarrow> mem
    \<Rightarrow> (nat option \<times> nat) \<times> InFlightStreamData \<times> mem" where
  "offer data accepted f m =
    (let ((s, e), f1, m1) = append_data data f m
     in ((v_reg (fl_data f1), s), truncate_unwritten ((s - fl_start f1) + accepted) f1, m1))"

section \<open>Well-formedness\<close>

definition retired_regs :: "InFlightStreamData \<Rightarrow> nat list" where
  "retired_regs f = map (\<lambda>b. the (v_reg (rb_data b))) (fl_retired f)"

definition regs :: "InFlightStreamData \<Rightarrow> nat list" where
  "regs f = (case v_reg (fl_data f) of None \<Rightarrow> [] | Some r \<Rightarrow> [r]) @ retired_regs f"

definition flight_ok :: "mem \<Rightarrow> InFlightStreamData \<Rightarrow> bool" where
  "flight_ok m f \<longleftrightarrow>
     fl_start f \<le> v_len (fl_data f) \<and> v_len (fl_data f) \<le> v_cap (fl_data f)
     \<and> (v_reg (fl_data f) = None \<longleftrightarrow> v_cap (fl_data f) = 0)
     \<and> v_len (fl_data f) \<le> length (region_bytes m (fl_data f))
     \<and> (\<forall>b \<in> set (fl_retired f). v_reg (rb_data b) \<noteq> None)
     \<and> distinct (regs f)
     \<and> (\<forall>r \<in> set (regs f). r < m_next m \<and> m_reg m r \<noteq> None)"

definition stored :: "mem \<Rightarrow> nat \<Rightarrow> nat \<Rightarrow> byte option" where
  "stored m r i = (case m_reg m r of None \<Rightarrow> None
     | Some bs \<Rightarrow> if i < length bs then Some (bs ! i) else None)"

text \<open>A byte of the stream placed in memory: stream offset, region and index.\<close>

type_synonym placed = "nat \<times> nat \<times> nat"

definition byte_ok :: "mem \<Rightarrow> InFlightStreamData \<Rightarrow> bytes \<Rightarrow> placed \<Rightarrow> bool" where
  "byte_ok m f S = (\<lambda>(o', r, i). fl_offset f \<le> o' \<longrightarrow>
     o' < length S \<and> stored m r i = Some (S ! o')
     \<and> (v_reg (fl_data f) = Some r \<and> i + fl_offset f = fl_start f + o'
        \<or> (\<exists>b \<in> set (fl_retired f). v_reg (rb_data b) = Some r \<and> o' < rb_end b)))"

definition flight_inv :: "mem \<Rightarrow> InFlightStreamData \<Rightarrow> bytes \<Rightarrow> placed set \<Rightarrow> bool" where
  "flight_inv m f S H \<longleftrightarrow> flight_ok m f
     \<and> fl_offset f + (v_len (fl_data f) - fl_start f) = length S
     \<and> unacked m f = drop (fl_offset f) S
     \<and> (\<forall>h \<in> H. byte_ok m f S h)
     \<and> (\<forall>b \<in> set (fl_retired f). rb_end b \<le> length S)"

lemma flight_inv_new: "flight_inv m in_flight_new [] {}"
  by (simp add: flight_inv_def flight_ok_def in_flight_new_def vec_new_def regs_def retired_regs_def
      region_bytes_def unacked_def vec_bytes_def)

lemma v_len_unacked: "flight_ok m f \<Longrightarrow> length (unacked m f) = v_len (fl_data f) - fl_start f"
  by (simp add: flight_ok_def unacked_def vec_bytes_def)

text \<open>Making room keeps the unacknowledged data and every placed byte, and leaves enough capacity.\<close>

lemma make_room_cases:
  assumes "flight_ok m f" "make_room n f m = (f1, m1)"
  obtains (enough) "v_len (fl_data f) + n \<le> v_cap (fl_data f)" "f1 = f" "m1 = m"
  | (fresh) c where "v_len (fl_data f) = 0" "n \<le> c" "0 < c"
      "f1 = f\<lparr>fl_data := \<lparr>v_reg = Some (m_next m), v_len = 0, v_cap = c\<rparr>\<rparr>"
      "m1 = vec_drop (fl_data f) (m\<lparr>m_reg := (m_reg m)(m_next m \<mapsto> []), m_next := Suc (m_next m)\<rparr>)"
  | (move) c where "0 < v_len (fl_data f)" "v_len (fl_data f) + n \<le> c"
      "f1 = f\<lparr>fl_retired := fl_retired f @
              [\<lparr>rb_data = fl_data f, rb_end = fl_offset f + (v_len (fl_data f) - fl_start f)\<rparr>],
            fl_data := \<lparr>v_reg = Some (m_next m), v_len = length (unacked m f), v_cap = c\<rparr>,
            fl_start := 0\<rparr>"
      "m1 = m\<lparr>m_reg := (m_reg m)(m_next m \<mapsto> unacked m f), m_next := Suc (m_next m)\<rparr>"
proof (cases "v_len (fl_data f) + n > v_cap (fl_data f)")
  case False
  then have "make_room n f m = (f, m)" unfolding make_room_def Let_def by (simp only: if_False)
  with False show ?thesis using assms enough by simp
next
  case True
  define c where "c = max (v_len (fl_data f) + n) (min (v_cap (fl_data f) * 2) u64_max)"
  have c: "v_len (fl_data f) + n \<le> c" unfolding c_def by (rule max.cobounded1)
  then have c0: "0 < c" using True by linarith
  have mr: "make_room n f m =
     (if v_len (fl_data f) = 0
      then let (w, m1) = vec_with_capacity c m in (f\<lparr>fl_data := w\<rparr>, vec_drop (fl_data f) m1)
      else let (w0, m1) = vec_with_capacity c m; (w, m2) = vec_extend w0 (unacked m f) m1
        in (f\<lparr>fl_retired := fl_retired f @
              [\<lparr>rb_data = fl_data f, rb_end = fl_offset f + (v_len (fl_data f) - fl_start f)\<rparr>],
              fl_data := w, fl_start := 0\<rparr>, m2))"
    unfolding make_room_def Let_def c_def using True by (simp only: if_True)
  show ?thesis
  proof (cases "v_len (fl_data f) = 0")
    case True
    then show ?thesis
      using assms(2) c c0 fresh [of c] by (simp add: mr vec_with_capacity_def)
  next
    case False
    have "length (unacked m f) \<le> c" using v_len_unacked [OF assms(1)] c by linarith
    then have "make_room n f m =
       (f\<lparr>fl_retired := fl_retired f @
              [\<lparr>rb_data = fl_data f, rb_end = fl_offset f + (v_len (fl_data f) - fl_start f)\<rparr>],
            fl_data := \<lparr>v_reg = Some (m_next m), v_len = length (unacked m f), v_cap = c\<rparr>,
            fl_start := 0\<rparr>,
        m\<lparr>m_reg := (m_reg m)(m_next m \<mapsto> unacked m f), m_next := Suc (m_next m)\<rparr>)"
      using c0 False
      by (simp add: mr vec_with_capacity_def vec_extend_def vec_store_def vec_bytes_def region_bytes_def)
    with assms(2) c False show ?thesis by (intro move [of c]) simp_all
  qed
qed

lemma vec_drop_other: "v_reg v \<noteq> Some r \<Longrightarrow> m_reg (vec_drop v m) r = m_reg m r"
  by (simp add: vec_drop_def split: option.split)

lemma vec_drop_next [simp]: "m_next (vec_drop v m) = m_next m"
  by (simp add: vec_drop_def split: option.split)

lemma retired_reg_ok:
  assumes "flight_ok m f" "r \<in> set (retired_regs f)"
  shows "r < m_next m" "v_reg (fl_data f) \<noteq> Some r" "m_reg m r \<noteq> None"
  using assms by (auto simp: flight_ok_def regs_def split: option.splits)

lemma current_reg_ok:
  assumes "flight_ok m f" "v_reg (fl_data f) = Some r"
  shows "r < m_next m" "r \<notin> set (retired_regs f)" "m_reg m r \<noteq> None"
  using assms by (auto simp: flight_ok_def regs_def)

lemma retired_regs_simps [simp]:
  "retired_regs (f\<lparr>fl_data := v\<rparr>) = retired_regs f"
  "retired_regs (f\<lparr>fl_start := s\<rparr>) = retired_regs f"
  "retired_regs (f\<lparr>fl_offset := k\<rparr>) = retired_regs f"
  by (simp_all add: retired_regs_def)

lemma byte_reg:
  assumes "flight_ok m f" "byte_ok m f S (k, r, i)" "fl_offset f \<le> k"
  shows "r < m_next m"
proof -
  have "v_reg (fl_data f) = Some r \<or> r \<in> set (retired_regs f)"
    using assms(2,3) by (force simp: byte_ok_def retired_regs_def)
  then show ?thesis using retired_reg_ok(1) current_reg_ok(1) assms(1) by blast
qed

lemma make_room_fresh:
  assumes inv: "flight_inv m f S H" and z: "v_len (fl_data f) = 0" and c: "n \<le> c" "0 < c"
    and f1: "f1 = f\<lparr>fl_data := \<lparr>v_reg = Some (m_next m), v_len = 0, v_cap = c\<rparr>\<rparr>"
    and m1: "m1 = vec_drop (fl_data f) (m\<lparr>m_reg := (m_reg m)(m_next m \<mapsto> []), m_next := Suc (m_next m)\<rparr>)"
  shows "flight_inv m1 f1 S H \<and> v_len (fl_data f1) + n \<le> v_cap (fl_data f1)"
proof -
  have ok: "flight_ok m f" and off: "fl_offset f + (v_len (fl_data f) - fl_start f) = length S"
    and bs: "\<forall>h \<in> H. byte_ok m f S h" and re: "\<forall>b \<in> set (fl_retired f). rb_end b \<le> length S"
    using inv by (auto simp: flight_inv_def)
  have all: "fl_offset f = length S" using z ok off by (simp add: flight_ok_def)
  have rr: "r < m_next m \<and> m_reg m1 r \<noteq> None" if "r \<in> set (retired_regs f)" for r
    using retired_reg_ok [OF ok that] by (simp add: m1 vec_drop_other)
  have "m_reg m1 (m_next m) = Some []"
    using current_reg_ok(1) [OF ok] by (subst m1, subst vec_drop_other) auto
  then have "flight_ok m1 f1"
    using ok z c f1 m1 rr by (auto simp: flight_ok_def regs_def region_bytes_def less_Suc_eq split: option.splits)
  moreover have "unacked m1 f1 = []" by (simp add: f1 unacked_def vec_bytes_def)
  ultimately show ?thesis
    using bs re all c z f1 by (auto simp: flight_inv_def byte_ok_def flight_ok_def)
qed

lemma make_room_inv:
  assumes inv: "flight_inv m f S H" and mr: "make_room n f m = (f1, m1)"
  shows "flight_inv m1 f1 S H \<and> v_len (fl_data f1) + n \<le> v_cap (fl_data f1)"
proof -
  have ok: "flight_ok m f" and off: "fl_offset f + (v_len (fl_data f) - fl_start f) = length S"
    and un: "unacked m f = drop (fl_offset f) S" and bs: "\<forall>h \<in> H. byte_ok m f S h"
    and re: "\<forall>b \<in> set (fl_retired f). rb_end b \<le> length S"
    using inv by (auto simp: flight_inv_def)
  show ?thesis
    using ok mr
  proof (cases rule: make_room_cases)
    case enough
    then show ?thesis using inv by simp
  next
    case (fresh c)
    then show ?thesis by (rule make_room_fresh [OF inv])
  next
    case (move c)
    have cap: "0 < v_cap (fl_data f)" using ok move(1) by (simp add: flight_ok_def)
    then obtain r0 where r0: "v_reg (fl_data f) = Some r0" using ok by (auto simp: flight_ok_def)
    have rr: "set (regs f1) = insert (m_next m) (set (regs f))"
      "distinct (regs f1)"
      using ok move(3) r0 by (auto simp: regs_def retired_regs_def flight_ok_def)
    have ok1: "flight_ok m1 f1"
      using ok move cap rr v_len_unacked [OF ok] r0
      by (auto simp: flight_ok_def region_bytes_def less_Suc_eq)
    have un1: "unacked m1 f1 = unacked m f"
      by (simp add: move unacked_def vec_bytes_def region_bytes_def)
    have "byte_ok m1 f1 S h" if "h \<in> H" for h
    proof -
      obtain k r i where h: "h = (k, r, i)" by (cases h) auto
      have b: "byte_ok m f S (k, r, i)" using bs that h by simp
      show ?thesis
        using b byte_reg [OF ok b] off unfolding h byte_ok_def move(3,4)
        by (auto simp: stored_def r0)
    qed
    then show ?thesis
      using ok1 un1 un off re move(2) v_len_unacked [OF ok]
      by (auto simp: flight_inv_def move(3))
  qed
qed

text \<open>Extending within the capacity writes behind the data that is there and moves nothing.\<close>

lemma extend_in_place:
  assumes "flight_ok m f" "v_len (fl_data f) + length data \<le> v_cap (fl_data f)"
    and "vec_extend (fl_data f) data m = (v, m1)"
  shows "v = (fl_data f)\<lparr>v_len := v_len (fl_data f) + length data\<rparr>"
    and "m_next m1 = m_next m"
    and "\<And>r. v_reg (fl_data f) \<noteq> Some r \<Longrightarrow> m_reg m1 r = m_reg m r"
    and "data \<noteq> [] \<Longrightarrow> \<exists>r. v_reg (fl_data f) = Some r"
    and "\<And>r. v_reg (fl_data f) = Some r \<Longrightarrow> m_reg m1 r = Some (vec_bytes m (fl_data f) @ data)"
  using assms
  by (auto simp: vec_extend_def vec_store_def flight_ok_def split: option.splits)

lemma byte_ok_extend:
  assumes ok: "flight_ok m f" and b: "byte_ok m f S h"
    and off: "fl_offset f + (v_len (fl_data f) - fl_start f) = length S"
    and oth: "\<And>r. v_reg (fl_data f) \<noteq> Some r \<Longrightarrow> m_reg m1 r = m_reg m r"
    and cur: "\<And>r. v_reg (fl_data f) = Some r \<Longrightarrow> m_reg m1 r = Some (vec_bytes m (fl_data f) @ data)"
  shows "byte_ok m1 (f\<lparr>fl_data := (fl_data f)\<lparr>v_len := n\<rparr>\<rparr>) (S @ T) h"
proof -
  obtain k r i where h: "h = (k, r, i)" by (cases h) auto
  have "stored m1 r i = Some (S ! k)" if k: "fl_offset f \<le> k"
  proof (cases "v_reg (fl_data f) = Some r")
    case True
    then have "r \<notin> set (retired_regs f)" using current_reg_ok(2) [OF ok] by blast
    then have i: "i + fl_offset f = fl_start f + k" "stored m r i = Some (S ! k)" "k < length S"
      using b k by (force simp: byte_ok_def h retired_regs_def)+
    then have "i < v_len (fl_data f)" using ok off by (auto simp: flight_ok_def)
    then show ?thesis
      using i(2) True cur [OF True]
      by (auto simp: stored_def vec_bytes_def region_bytes_def nth_append split: option.splits if_splits)
  next
    case False
    then show ?thesis using b k oth [OF False] by (simp add: byte_ok_def h stored_def)
  qed
  then show ?thesis using b by (auto simp: byte_ok_def h nth_append)
qed

lemma append_truncate_inv:
  assumes inv: "flight_inv m f S H" and room: "v_len (fl_data f) + length data \<le> v_cap (fl_data f)"
    and ex: "vec_extend (fl_data f) data m = (v, m1)" and a: "a \<le> length data"
    and f1: "f1 = truncate_unwritten ((v_len (fl_data f) - fl_start f) + a) (f\<lparr>fl_data := v\<rparr>)"
    and S1: "S1 = S @ take a data"
  shows "flight_inv m1 f1 S1 (H \<union> {(length S + k, r, v_len (fl_data f) + k) |k r.
           k < a \<and> v_reg (fl_data f) = Some r})"
proof -
  let ?v = "fl_data f"
  have ok: "flight_ok m f" and off: "fl_offset f + (v_len ?v - fl_start f) = length S"
    and un: "unacked m f = drop (fl_offset f) S" and bs: "\<forall>h \<in> H. byte_ok m f S h"
    and re: "\<forall>b \<in> set (fl_retired f). rb_end b \<le> length S"
    using inv by (auto simp: flight_inv_def)
  note e = extend_in_place [OF ok room ex]
  have f1': "f1 = f\<lparr>fl_data := ?v\<lparr>v_len := v_len ?v + a\<rparr>\<rparr>"
    using a ok by (simp add: f1 truncate_unwritten_def e(1) flight_ok_def)
  have lb: "length (vec_bytes m ?v) = v_len ?v" using ok by (simp add: vec_bytes_def flight_ok_def)
  have live: "m_reg m1 r \<noteq> None" if "r \<in> set (regs f)" for r
    using that e(3,5) ok by (cases "v_reg ?v = Some r") (auto simp: flight_ok_def)
  have rb: "region_bytes m1 ?v = vec_bytes m ?v @ data"
    using e(4,5) lb ok by (cases "v_reg ?v") (auto simp: region_bytes_def flight_ok_def)
  have rf: "regs f1 = regs f" by (simp add: f1' regs_def)
  have ok1: "flight_ok m1 f1"
    unfolding flight_ok_def rf
    using ok rb lb a room live
    by (auto simp: flight_ok_def f1' e(2) region_bytes_def)
  have un1: "unacked m1 f1 = unacked m f @ take a data"
    using rb lb a ok
    by (simp add: unacked_def vec_bytes_def f1' region_bytes_def flight_ok_def)
  have old: "byte_ok m1 f1 S1 h" if "h \<in> H" for h
    using byte_ok_extend [OF ok bs [rule_format, OF that] off e(3,5)] by (simp add: f1' S1)
  have new: "byte_ok m1 f1 S1 (length S + k, r, v_len ?v + k)" if "k < a" "v_reg ?v = Some r" for k r
    using that e(5) lb a off ok
    by (auto simp: byte_ok_def stored_def f1' S1 nth_append flight_ok_def)
  show ?thesis
    using ok1 un1 un off re a ok old new
    by (auto simp: flight_inv_def f1' S1 flight_ok_def)
qed

lemma offer_inv:
  assumes "flight_inv m f S H" "offer data a f m = ((r, s), f1, m1)" "a \<le> length data"
  shows "flight_inv m1 f1 (S @ take a data) (H \<union> {(length S + k, r', s + k) |k r'. k < a \<and> r = Some r'})"
proof -
  obtain f0 m0 where mr: "make_room (length data) f m = (f0, m0)" by fastforce
  obtain v m2 where ex: "vec_extend (fl_data f0) data m0 = (v, m2)" by fastforce
  note i = make_room_inv [OF assms(1) mr]
  have ok: "flight_ok m0 f0" using i by (simp add: flight_inv_def)
  note e = extend_in_place [OF ok conjunct2 [OF i] ex]
  have eqs: "r = v_reg (fl_data f0)" "s = v_len (fl_data f0)" "m1 = m2"
    "f1 = truncate_unwritten ((v_len (fl_data f0) - fl_start f0) + a) (f0\<lparr>fl_data := v\<rparr>)"
    using assms(2) mr ex e(1) by (auto simp: offer_def append_data_def Let_def)
  show ?thesis
    using append_truncate_inv [OF conjunct1 [OF i] conjunct2 [OF i] ex assms(3) refl refl]
    by (simp add: eqs)
qed

text \<open>Acknowledging advances the start; it frees exactly the retired buffers whose data is
  acknowledged.\<close>

lemma fold_vec_drop_other:
  "(\<And>b. b \<in> set bs \<Longrightarrow> v_reg (rb_data b) \<noteq> Some r) \<Longrightarrow>
    m_reg (fold (\<lambda>b. vec_drop (rb_data b)) bs m) r = m_reg m r"
  by (induction bs arbitrary: m) (simp_all add: vec_drop_other)

lemma fold_vec_drop_next [simp]: "m_next (fold (\<lambda>b. vec_drop (rb_data b)) bs m) = m_next m"
  by (induction bs arbitrary: m) simp_all

lemma fold_vec_drop_frees:
  "b \<in> set bs \<Longrightarrow> v_reg (rb_data b) = Some r \<Longrightarrow>
    m_reg (fold (\<lambda>b. vec_drop (rb_data b)) bs m) r = None"
proof (induction bs arbitrary: m)
  case (Cons c bs)
  have keep: "m_reg m' r = None \<Longrightarrow> m_reg (fold (\<lambda>b. vec_drop (rb_data b)) cs m') r = None" for cs m'
    by (induction cs arbitrary: m') (simp_all add: vec_drop_def split: option.split)
  have "m_reg (vec_drop (rb_data b) m') r = None" for m'
    using Cons.prems(2) by (simp add: vec_drop_def)
  then show ?case using Cons by (auto simp: keep)
qed simp

lemma gone_other:
  assumes "flight_ok m f"
    and "v_reg (fl_data f) = Some r \<or> (\<exists>b \<in> set (fl_retired f). rb_end b > k \<and> v_reg (rb_data b) = Some r)"
    and "c \<in> set (fl_retired f)" "\<not> rb_end c > k"
  shows "v_reg (rb_data c) \<noteq> Some r"
proof
  assume c: "v_reg (rb_data c) = Some r"
  then have "r \<in> set (retired_regs f)" using assms(3) by (force simp: retired_regs_def)
  then have "v_reg (fl_data f) \<noteq> Some r" using current_reg_ok(2) [OF assms(1)] by blast
  then obtain b where b: "b \<in> set (fl_retired f)" "rb_end b > k" "v_reg (rb_data b) = Some r"
    using assms(2) by blast
  have "inj_on (\<lambda>b. the (v_reg (rb_data b))) (set (fl_retired f))"
    using assms(1) by (auto simp: flight_ok_def regs_def retired_regs_def distinct_map)
  then have "b = c" using b(1,3) c assms(3) by (simp add: inj_on_def)
  then show False using b(2) assms(4) by simp
qed

lemma distinct_map_filter: "distinct (map g xs) \<Longrightarrow> distinct (map g (filter P xs))"
  by (induction xs) auto

text \<open>The state after acknowledging \<open>a\<close> more bytes.\<close>

definition acked_state :: "nat \<Rightarrow> InFlightStreamData \<Rightarrow> InFlightStreamData" where
  "acked_state a f =
    (let e = (fl_start f + a = v_len (fl_data f)); k = fl_offset f + a in
     f\<lparr>fl_offset := k, fl_data := (fl_data f)\<lparr>v_len := (if e then 0 else v_len (fl_data f))\<rparr>,
       fl_start := (if e then 0 else fl_start f + a),
       fl_retired := filter (\<lambda>b. rb_end b > k) (fl_retired f)\<rparr>)"

definition acked_mem :: "nat \<Rightarrow> InFlightStreamData \<Rightarrow> mem \<Rightarrow> mem" where
  "acked_mem a f m = fold (\<lambda>b. vec_drop (rb_data b))
     (filter (\<lambda>b. \<not> rb_end b > fl_offset f + a) (fl_retired f)) m"

lemma ack_until_form:
  assumes "\<not> off \<le> fl_offset f"
  shows "ack_until off f m =
    (let a = min (off - fl_offset f) (v_len (fl_data f) - fl_start f) in (acked_state a f, acked_mem a f m))"
  using assms by (simp add: ack_until_def acked_state_def acked_mem_def Let_def)

lemma acked_mem_keep:
  assumes "flight_ok m f"
    and "v_reg (fl_data f) = Some r
      \<or> (\<exists>b \<in> set (fl_retired f). rb_end b > fl_offset f + a \<and> v_reg (rb_data b) = Some r)"
  shows "m_reg (acked_mem a f m) r = m_reg m r"
  unfolding acked_mem_def using gone_other [OF assms] by (intro fold_vec_drop_other) auto

lemma acked_state_ok:
  assumes ok: "flight_ok m f" and a: "fl_start f + a \<le> v_len (fl_data f)"
  shows "flight_ok (acked_mem a f m) (acked_state a f)"
proof -
  let ?f1 = "acked_state a f" and ?m1 = "acked_mem a f m"
  have vr: "v_reg (fl_data ?f1) = v_reg (fl_data f)" "v_cap (fl_data ?f1) = v_cap (fl_data f)"
    "fl_start ?f1 \<le> v_len (fl_data ?f1)" "v_len (fl_data ?f1) \<le> v_len (fl_data f)"
    "fl_retired ?f1 = filter (\<lambda>b. rb_end b > fl_offset f + a) (fl_retired f)"
    using a by (simp_all add: acked_state_def Let_def)
  have rb: "region_bytes ?m1 (fl_data ?f1) = region_bytes m (fl_data f)"
    using acked_mem_keep [OF ok] by (simp add: region_bytes_def vr split: option.split)
  have rr: "set (regs ?f1) \<subseteq> set (regs f)" "distinct (regs ?f1)"
    using ok by (auto simp: vr regs_def retired_regs_def flight_ok_def split: option.splits
        intro: distinct_map_filter)
  have live: "m_reg ?m1 r = m_reg m r" if "r \<in> set (regs ?f1)" for r
    using that ok
    by (intro acked_mem_keep [OF ok])
       (auto simp: vr regs_def retired_regs_def flight_ok_def split: option.splits)
  have nx: "m_next ?m1 = m_next m" by (simp add: acked_mem_def)
  have "v_len (fl_data ?f1) \<le> v_cap (fl_data f)" "v_len (fl_data ?f1) \<le> length (region_bytes m (fl_data f))"
    using vr(4) ok by (auto simp: flight_ok_def)
  moreover have "\<forall>r \<in> set (regs ?f1). r < m_next m \<and> m_reg ?m1 r \<noteq> None"
    using rr(1) live ok by (auto simp: flight_ok_def)
  ultimately show ?thesis
    unfolding flight_ok_def rb vr nx using ok vr(3) rr(2) by (auto simp: flight_ok_def)
qed

lemma acked_byte_ok:
  assumes ok: "flight_ok m f" and b: "byte_ok m f S h"
    and len: "fl_offset f + (v_len (fl_data f) - fl_start f) = length S"
    and a: "fl_start f + a \<le> v_len (fl_data f)"
  shows "byte_ok (acked_mem a f m) (acked_state a f) S h"
proof -
  obtain k r i where h: "h = (k, r, i)" by (cases h) auto
  have "stored (acked_mem a f m) r i = Some (S ! k)" if k: "fl_offset f + a \<le> k"
  proof -
    have "v_reg (fl_data f) = Some r
        \<or> (\<exists>c \<in> set (fl_retired f). rb_end c > fl_offset f + a \<and> v_reg (rb_data c) = Some r)"
      using b k by (force simp: byte_ok_def h)
    then show ?thesis using acked_mem_keep [OF ok] b k by (simp add: byte_ok_def h stored_def)
  qed
  moreover have "fl_start f + a \<noteq> v_len (fl_data f)" if "fl_offset f + a \<le> k" "k < length S"
    using that len by linarith
  ultimately show ?thesis
    using b by (auto simp: byte_ok_def h acked_state_def Let_def)
qed

lemma ack_until_inv:
  assumes inv: "flight_inv m f S H" and ak: "ack_until off f m = (f1, m1)"
  shows "flight_inv m1 f1 S H \<and> fl_offset f1 = max (fl_offset f) (min off (length S))"
proof (cases "off \<le> fl_offset f")
  case True
  then show ?thesis using inv ak by (auto simp: ack_until_def flight_inv_def)
next
  case False
  have ok: "flight_ok m f" and len: "fl_offset f + (v_len (fl_data f) - fl_start f) = length S"
    and un: "unacked m f = drop (fl_offset f) S" and bs: "\<forall>h \<in> H. byte_ok m f S h"
    and re: "\<forall>b \<in> set (fl_retired f). rb_end b \<le> length S"
    using inv by (auto simp: flight_inv_def)
  define a where "a = min (off - fl_offset f) (v_len (fl_data f) - fl_start f)"
  have f1: "f1 = acked_state a f" "m1 = acked_mem a f m"
    using ak False by (simp_all add: ack_until_form a_def Let_def)
  have a: "fl_start f + a \<le> v_len (fl_data f)" "fl_offset f + a = max (fl_offset f) (min off (length S))"
    using len False ok by (auto simp: a_def flight_ok_def)
  have rb: "region_bytes m1 (fl_data f1) = region_bytes m (fl_data f)"
    using acked_mem_keep [OF ok] by (simp add: f1 region_bytes_def acked_state_def Let_def split: option.split)
  have "unacked m1 f1 = drop a (unacked m f)"
    using a(1) rb by (auto simp: f1 unacked_def vec_bytes_def acked_state_def Let_def add.commute)
  then have un1: "unacked m1 f1 = drop (fl_offset f + a) S" by (simp add: un add.commute)
  have "fl_offset f1 = fl_offset f + a" "set (fl_retired f1) \<subseteq> set (fl_retired f)"
    "fl_offset f1 + (v_len (fl_data f1) - fl_start f1) = length S"
    using len a(1) by (auto simp: f1 acked_state_def Let_def)
  then show ?thesis
    using acked_state_ok [OF ok a(1)] acked_byte_ok [OF ok _ len a(1)] un1 a(2) bs re
    by (auto simp: flight_inv_def f1)
qed

section \<open>The window a client sees\<close>

text \<open>Operations of a send window and their laws: offering appends what was accepted, acknowledging
  drops a prefix and never goes back.\<close>

datatype window_op = Offer bytes nat | Ack nat

fun apply_op :: "(bytes \<Rightarrow> nat \<Rightarrow> 's \<Rightarrow> 's) \<Rightarrow> (nat \<Rightarrow> 's \<Rightarrow> 's) \<Rightarrow> window_op \<Rightarrow> 's \<Rightarrow> 's" where
  "apply_op off ack (Offer d a) s = off d a s"
| "apply_op off ack (Ack k) s = ack k s"

fun op_ok :: "window_op \<Rightarrow> bool" where
  "op_ok (Offer d a) = (a \<le> length d)"
| "op_ok (Ack k) = True"

fun accepted :: "window_op \<Rightarrow> bytes" where
  "accepted (Offer d a) = take a d"
| "accepted (Ack k) = []"

locale send_window =
  fixes inv :: "'s \<Rightarrow> bool"
    and base :: "'s \<Rightarrow> nat"
    and pending :: "'s \<Rightarrow> bytes"
    and offer_op :: "bytes \<Rightarrow> nat \<Rightarrow> 's \<Rightarrow> 's"
    and ack_op :: "nat \<Rightarrow> 's \<Rightarrow> 's"
  assumes inv_offer: "inv s \<Longrightarrow> a \<le> length d \<Longrightarrow> inv (offer_op d a s)"
    and base_offer: "inv s \<Longrightarrow> a \<le> length d \<Longrightarrow> base (offer_op d a s) = base s"
    and pending_offer: "inv s \<Longrightarrow> a \<le> length d \<Longrightarrow> pending (offer_op d a s) = pending s @ take a d"
    and inv_ack: "inv s \<Longrightarrow> inv (ack_op k s)"
    and base_ack: "inv s \<Longrightarrow> base (ack_op k s) = max (base s) (min k (base s + length (pending s)))"
    and pending_ack: "inv s \<Longrightarrow> pending (ack_op k s) = drop (base (ack_op k s) - base s) (pending s)"
begin

lemma run_inv: "inv s \<Longrightarrow> list_all op_ok ops \<Longrightarrow> inv (fold (apply_op offer_op ack_op) ops s)"
proof (induction ops arbitrary: s)
  case (Cons op ops)
  then show ?case by (cases op) (auto simp: inv_offer inv_ack)
qed simp

lemma run_pending:
  assumes "inv s" "list_all op_ok ops"
  shows "base s \<le> base (fold (apply_op offer_op ack_op) ops s)
    \<and> pending (fold (apply_op offer_op ack_op) ops s)
      = drop (base (fold (apply_op offer_op ack_op) ops s) - base s) (pending s @ concat (map accepted ops))
    \<and> base (fold (apply_op offer_op ack_op) ops s) \<le> base s + length (pending s @ concat (map accepted ops))"
  using assms
proof (induction ops arbitrary: s)
  case (Cons op ops)
  then have i: "inv (apply_op offer_op ack_op op s)" by (cases op) (auto simp: inv_offer inv_ack)
  note IH = Cons.IH [OF i]
  show ?case
  proof (cases op)
    case (Offer d a)
    then show ?thesis using IH Cons.prems by (simp add: pending_offer base_offer add.assoc)
  next
    case (Ack k)
    have "base (ack_op k s) - base s \<le> length (pending s)" "base s \<le> base (ack_op k s)"
      using Cons.prems by (auto simp: base_ack)
    then show ?thesis
      using IH Cons.prems Ack by (auto simp: pending_ack add.commute)
  qed
qed simp

end

definition flight_valid :: "InFlightStreamData \<times> mem \<Rightarrow> bool" where
  "flight_valid = (\<lambda>(f, m). \<exists>S H. flight_inv m f S H)"

definition offer_window :: "bytes \<Rightarrow> nat \<Rightarrow> InFlightStreamData \<times> mem \<Rightarrow> InFlightStreamData \<times> mem" where
  "offer_window d a = (\<lambda>(f, m). snd (offer d a f m))"

definition ack_window :: "nat \<Rightarrow> InFlightStreamData \<times> mem \<Rightarrow> InFlightStreamData \<times> mem" where
  "ack_window k = (\<lambda>(f, m). ack_until k f m)"

lemma flight_inv_pending:
  "flight_inv m f S H \<Longrightarrow> fl_offset f + length (unacked m f) = length S"
  by (auto simp: flight_inv_def)

lemma offer_offset: "offer d a f m = (p, f1, m1) \<Longrightarrow> fl_offset f1 = fl_offset f"
  by (auto simp: offer_def append_data_def make_room_def truncate_unwritten_def Let_def
      split: prod.splits if_splits)

lemma offer_window_laws:
  assumes "flight_valid (f, m)" "a \<le> length d" "offer_window d a (f, m) = (f1, m1)"
  shows "flight_valid (f1, m1) \<and> fl_offset f1 = fl_offset f \<and> unacked m1 f1 = unacked m f @ take a d"
proof -
  obtain S H where i: "flight_inv m f S H" using assms(1) by (auto simp: flight_valid_def)
  obtain r s where o: "offer d a f m = ((r, s), f1, m1)"
    using assms(3) by (auto simp: offer_window_def prod_eq_iff)
  note j = offer_inv [OF i o assms(2)]
  have "fl_offset f \<le> length S" using flight_inv_pending [OF i] by simp
  moreover have "flight_valid (f1, m1)" using j by (auto simp: flight_valid_def)
  ultimately show ?thesis
    using i j offer_offset [OF o] by (simp add: flight_inv_def)
qed

lemma ack_window_laws:
  assumes "flight_valid (f, m)" "ack_window k (f, m) = (f1, m1)"
  shows "flight_valid (f1, m1)
    \<and> fl_offset f1 = max (fl_offset f) (min k (fl_offset f + length (unacked m f)))
    \<and> unacked m1 f1 = drop (fl_offset f1 - fl_offset f) (unacked m f)"
proof -
  obtain S H where i: "flight_inv m f S H" using assms(1) by (auto simp: flight_valid_def)
  have a: "ack_until k f m = (f1, m1)" using assms(2) by (simp add: ack_window_def)
  note j = ack_until_inv [OF i a]
  have "fl_offset f \<le> fl_offset f1" using j by simp
  moreover have "flight_valid (f1, m1)" using j by (auto simp: flight_valid_def)
  ultimately show ?thesis
    using i j flight_inv_pending [OF i] by (simp add: flight_inv_def)
qed

lemma window_laws:
  "flight_valid s \<Longrightarrow> a \<le> length d \<Longrightarrow> flight_valid (offer_window d a s)
     \<and> fl_offset (fst (offer_window d a s)) = fl_offset (fst s)
     \<and> unacked (snd (offer_window d a s)) (fst (offer_window d a s)) = unacked (snd s) (fst s) @ take a d"
  "flight_valid s \<Longrightarrow> flight_valid (ack_window k s)
     \<and> fl_offset (fst (ack_window k s))
         = max (fl_offset (fst s)) (min k (fl_offset (fst s) + length (unacked (snd s) (fst s))))
     \<and> unacked (snd (ack_window k s)) (fst (ack_window k s))
         = drop (fl_offset (fst (ack_window k s)) - fl_offset (fst s)) (unacked (snd s) (fst s))"
  using offer_window_laws [of "fst s" "snd s" a d] ack_window_laws [of "fst s" "snd s" k]
  by (metis prod.collapse)+

interpretation fw: send_window flight_valid "\<lambda>s. fl_offset (fst s)" "\<lambda>s. unacked (snd s) (fst s)"
  offer_window ack_window
  by unfold_locales (use window_laws in blast)+

section \<open>Runs of the buffer against ngtcp2's pointers\<close>

text \<open>A configuration is the memory, the buffer, the bytes of the stream accepted by ngtcp2 so far and
  the places where ngtcp2 was told to find them. A step offers data, of which ngtcp2 accepts a
  prefix and remembers where it lies, receives an acknowledgement, or lets the rest of the
  program use memory that the buffer does not own.\<close>

type_synonym config = "mem \<times> InFlightStreamData \<times> bytes \<times> placed set"

inductive flight_step :: "config \<Rightarrow> config \<Rightarrow> bool" where
  step_offer: "a \<le> length data \<Longrightarrow> offer data a f m = ((r, s), f1, m1) \<Longrightarrow>
    H1 = H \<union> {(length S + k, r', s + k) |k r'. k < a \<and> r = Some r'} \<Longrightarrow>
    flight_step (m, f, S, H) (m1, f1, S @ take a data, H1)"
| step_ack: "ack_until off f m = (f1, m1) \<Longrightarrow> flight_step (m, f, S, H) (m1, f1, S, H)"
| step_other: "m_next m \<le> m_next m1 \<Longrightarrow> \<forall>r \<in> set (regs f). m_reg m1 r = m_reg m r \<Longrightarrow>
    flight_step (m, f, S, H) (m1, f, S, H)"

inductive flight_reach :: "config \<Rightarrow> bool" where
  reach_init: "flight_reach (m, in_flight_new, [], {})"
| reach_step: "flight_reach c \<Longrightarrow> flight_step c d \<Longrightarrow> flight_reach d"

inductive_cases flight_stepE: "flight_step (m, f, S, H) d"

lemma other_inv:
  assumes inv: "flight_inv m f S H" and n: "m_next m \<le> m_next m1"
    and r: "\<forall>r \<in> set (regs f). m_reg m1 r = m_reg m r"
  shows "flight_inv m1 f S H"
proof -
  have ok: "flight_ok m f" and bs: "\<forall>h \<in> H. byte_ok m f S h" using inv by (auto simp: flight_inv_def)
  have cur: "m_reg m1 r = m_reg m r" if "v_reg (fl_data f) = Some r" for r
    using that r by (simp add: regs_def)
  have rb: "region_bytes m1 (fl_data f) = region_bytes m (fl_data f)"
    using cur by (simp add: region_bytes_def split: option.split)
  have ok1: "flight_ok m1 f" using ok r n rb by (auto simp: flight_ok_def)
  have "byte_ok m1 f S h" if "h \<in> H" for h
  proof -
    obtain k r i where h: "h = (k, r, i)" by (cases h) auto
    have b: "byte_ok m f S (k, r, i)" using bs that h by simp
    have "r \<in> set (regs f)" if "fl_offset f \<le> k"
      using b that by (force simp: byte_ok_def regs_def retired_regs_def)
    then show ?thesis using b r by (auto simp: h byte_ok_def stored_def)
  qed
  then show ?thesis using inv ok1 rb by (auto simp: flight_inv_def unacked_def vec_bytes_def)
qed

lemma flight_step_inv:
  "flight_step (m, f, S, H) (m1, f1, S1, H1) \<Longrightarrow> flight_inv m f S H \<Longrightarrow> flight_inv m1 f1 S1 H1"
  by (erule flight_stepE) (auto dest: offer_inv ack_until_inv other_inv)

lemma flight_reach_inv: "flight_reach c \<Longrightarrow> case c of (m, f, S, H) \<Rightarrow> flight_inv m f S H"
proof (induction rule: flight_reach.induct)
  case (reach_init m)
  show ?case by (simp add: flight_inv_new)
next
  case (reach_step c d)
  then show ?case by (cases c, cases d) (auto intro: flight_step_inv)
qed

section \<open>Properties\<close>

text \<open>Memory safety of retransmission: in every state reachable by offering data, receiving
  acknowledgements and other use of memory, every byte whose place was handed to ngtcp2 and that is
  not acknowledged is still at that place, in a live region, with the value the stream has there.\<close>

lemma flight_memory_safe:
  assumes "flight_reach (m, f, S, H)" and "(k, r, i) \<in> H" and "fl_offset f \<le> k"
  shows "k < length S \<and> stored m r i = Some (S ! k)"
proof -
  have "byte_ok m f S (k, r, i)"
    using flight_reach_inv [OF assms(1)] assms(2) by (auto simp: flight_inv_def)
  then show ?thesis using assms(3) by (simp add: byte_ok_def)
qed

definition empty_mem :: mem where
  "empty_mem = \<lparr>m_reg = (\<lambda>_. None), m_next = 0\<rparr>"

definition flight_sample :: "InFlightStreamData \<times> mem" where
  "flight_sample = snd (offer [1, 2, 3] 2 in_flight_new empty_mem)"

lemma flight_sample_offer:
  "offer [1, 2, 3] 2 in_flight_new empty_mem = ((Some 0, 0), flight_sample)"
  "fl_offset (fst flight_sample) = 0" "stored (snd flight_sample) 0 1 = Some 2"
  by (simp_all add: flight_sample_def offer_def append_data_def make_room_def vec_new_def in_flight_new_def
      empty_mem_def vec_with_capacity_def vec_drop_def vec_extend_def vec_store_def vec_bytes_def
      region_bytes_def truncate_unwritten_def stored_def)



text \<open>Nothing is kept longer than needed: once everything sent is acknowledged, no byte is
  pending, no old buffer is retained, and the regions of the old buffers have been freed.\<close>

lemma flight_all_acked_frees:
  assumes "flight_reach (m, f, S, H)" and "length S \<le> off" and "fl_offset f < off"
    and "ack_until off f m = (f1, m1)"
  shows "unacked m1 f1 = [] \<and> fl_retired f1 = []
    \<and> (\<forall>b \<in> set (fl_retired f). \<exists>r. v_reg (rb_data b) = Some r \<and> m_reg m1 r = None)"
proof -
  have inv: "flight_inv m f S H" using flight_reach_inv [OF assms(1)] by simp
  note j = ack_until_inv [OF inv assms(4)]
  have o: "fl_offset f1 = length S"
    using j assms(2) flight_inv_pending [OF inv] by simp
  define a where "a = min (off - fl_offset f) (v_len (fl_data f) - fl_start f)"
  have f1: "f1 = acked_state a f" "m1 = acked_mem a f m"
    using assms(3,4) by (simp_all add: ack_until_form a_def Let_def)
  then have k: "fl_offset f + a = length S" using o by (simp add: acked_state_def Let_def)
  have re: "\<forall>b \<in> set (fl_retired f). rb_end b \<le> length S \<and> v_reg (rb_data b) \<noteq> None"
    using inv by (auto simp: flight_inv_def flight_ok_def)
  then have "filter (\<lambda>b. rb_end b > length S) (fl_retired f) = []"
    and all: "filter (\<lambda>b. \<not> rb_end b > length S) (fl_retired f) = fl_retired f"
    by (auto simp: filter_empty_conv filter_id_conv)
  then have "fl_retired f1 = []" by (simp add: f1 acked_state_def Let_def k)
  moreover have "unacked m1 f1 = []" using j o by (simp add: flight_inv_def)
  moreover have "m_reg m1 r = None" if "b \<in> set (fl_retired f)" "v_reg (rb_data b) = Some r" for b r
    using that unfolding f1(2) acked_mem_def k all by (rule fold_vec_drop_frees)
  ultimately show ?thesis using re by blast
qed

end
