(* ===== verification/Tls.thy ===== *)
theory Tls
  imports Types
begin

text \<open>
  The TLS layer (\<^verbatim>\<open>src/ngtcp2/src/crypto.rs\<close>): contexts, sessions, session tickets and application
  protocol negotiation. An \<^verbatim>\<open>SSL\<close> of aws-lc is an opaque value \<open>'s\<close>, the functions of aws-lc that the
  code calls are the fields of \<open>ssl_api\<close>, and a context is a handle in a heap of live contexts, so that
  ownership can be stated: a constructor returns the handles that are live after it. The parser of
  \<^verbatim>\<open>std::net::IpAddr\<close> is the argument \<open>parse_ip\<close>, yielding the octets of the address.
\<close>

section \<open>Session tickets\<close>

record SessionTicketSlot =
  slot_ticket :: "bytes option"

definition slot_new :: SessionTicketSlot where
  "slot_new = \<lparr>slot_ticket = None\<rparr>"

definition slot_store :: "bytes \<Rightarrow> SessionTicketSlot \<Rightarrow> SessionTicketSlot" where
  "slot_store ticket slot = slot\<lparr>slot_ticket := Some ticket\<rparr>"

definition slot_take :: "SessionTicketSlot \<Rightarrow> bytes option \<times> SessionTicketSlot" where
  "slot_take slot = (slot_ticket slot, slot\<lparr>slot_ticket := None\<rparr>)"

text \<open>The session callback: \<open>None\<close> of the slot stands for a null pointer, \<open>None\<close> of the session for a failed
  serialisation.\<close>

definition new_session_callback :: "SessionTicketSlot option \<Rightarrow> bytes option \<Rightarrow> SessionTicketSlot option" where
  "new_session_callback slot session_bytes =
    (case slot of None \<Rightarrow> None
     | Some s \<Rightarrow> Some (case session_bytes of None \<Rightarrow> s | Some bs \<Rightarrow> slot_store bs s))"

section \<open>Application protocol negotiation\<close>

text \<open>\<^verbatim>\<open>proto.len() as u8\<close> keeps the low eight bits of the length.\<close>

fun encode_alpn :: "bytes list \<Rightarrow> bytes" where
  "encode_alpn [] = []"
| "encode_alpn (proto # alpn) = word_of_nat (length proto) # proto @ encode_alpn alpn"

text \<open>The inner loop of \<^verbatim>\<open>alpn_select_callback\<close> over the client's list, from position \<open>pos\<close>; the result is
  the offset and the length of the match in the client's list.\<close>

function client_loop :: "bytes \<Rightarrow> bytes \<Rightarrow> nat \<Rightarrow> (nat \<times> nat) option" where
  "client_loop server_proto client pos =
    (if pos < length client then
       let n = unat (client ! pos); pos1 = pos + 1 in
       if pos1 + n > length client then None
       else if server_proto = take n (drop pos1 client) then Some (pos1, n)
       else client_loop server_proto client (pos1 + n)
     else None)"
  by pat_completeness auto

termination
  by (relation "measure (\<lambda>(s, c, pos). length c - pos)") auto

function server_loop :: "bytes \<Rightarrow> bytes \<Rightarrow> nat \<Rightarrow> (nat \<times> nat) option" where
  "server_loop server client pos =
    (if pos < length server then
       let n = unat (server ! pos); pos1 = pos + 1 in
       if pos1 + n > length server then None
       else case client_loop (take n (drop pos1 server)) client 0 of
         Some hit \<Rightarrow> Some hit
       | None \<Rightarrow> server_loop server client (pos1 + n)
     else None)"
  by pat_completeness auto

termination
  by (relation "measure (\<lambda>(s, c, pos). length s - pos)") auto

declare client_loop.simps [simp del] server_loop.simps [simp del]

text \<open>\<open>None\<close> is \<^verbatim>\<open>SSL_TLSEXT_ERR_NOACK\<close>; the server's list is the argument registered with the callback.\<close>

definition alpn_select_callback :: "bytes option \<Rightarrow> bytes \<Rightarrow> (nat \<times> nat) option" where
  "alpn_select_callback server_alpn client_alpn =
    (case server_alpn of None \<Rightarrow> None | Some server \<Rightarrow> server_loop server client_alpn 0)"

section \<open>Contexts\<close>

record tls_heap =
  live_ctx :: "nat list"
  next_ctx :: nat

record TlsContext =
  tc_ctx :: nat
  tc_is_server :: bool
  tc_verify_peer :: bool
  tc_alpn_data :: "bytes option"
  tc_accept_early_data :: bool

text \<open>Results of the aws-lc calls of the constructors.\<close>

record ctx_calls =
  tls_method_ok :: bool
  ctx_new_ok :: bool
  configure_rv :: int
  set_alpn_rv :: "bytes \<Rightarrow> int"
  use_cert_rv :: "string \<Rightarrow> int"
  use_key_rv :: "string \<Rightarrow> int"

definition ctx_alloc :: "tls_heap \<Rightarrow> nat \<times> tls_heap" where
  "ctx_alloc h = (next_ctx h, h\<lparr>live_ctx := next_ctx h # live_ctx h, next_ctx := Suc (next_ctx h)\<rparr>)"

definition ctx_free :: "nat \<Rightarrow> tls_heap \<Rightarrow> tls_heap" where
  "ctx_free c h = h\<lparr>live_ctx := removeAll c (live_ctx h)\<rparr>"

definition new_client_with_options ::
    "ctx_calls \<Rightarrow> bytes list \<Rightarrow> bool \<Rightarrow> tls_heap \<Rightarrow> TlsContext result \<times> tls_heap" where
  "new_client_with_options calls alpn verify_peer h =
    (if \<not> tls_method_ok calls then (Err (InternalErr ''TLS_method failed''), h)
     else if \<not> ctx_new_ok calls then (Err (InternalErr ''SSL_CTX_new failed''), h)
     else
       let (ctx, h) = ctx_alloc h in
       if configure_rv calls \<noteq> 0
       then (Err (InternalErr ''ngtcp2_crypto_boringssl_configure_client_context failed''), ctx_free ctx h)
       else if set_alpn_rv calls (encode_alpn alpn) \<noteq> 0
       then (Err (InternalErr ''SSL_CTX_set_alpn_protos failed''), ctx_free ctx h)
       else (Ok \<lparr>tc_ctx = ctx, tc_is_server = False, tc_verify_peer = verify_peer, tc_alpn_data = None,
                 tc_accept_early_data = False\<rparr>, h))"

definition new_client :: "ctx_calls \<Rightarrow> bytes list \<Rightarrow> tls_heap \<Rightarrow> TlsContext result \<times> tls_heap" where
  "new_client calls alpn h = new_client_with_options calls alpn True h"

text \<open>\<^verbatim>\<open>CString::new\<close> fails on an interior NUL.\<close>

definition cstring_new :: "string \<Rightarrow> string option" where
  "cstring_new s = (if CHR 0x00 \<in> set s then None else Some s)"

definition new_server ::
    "ctx_calls \<Rightarrow> string \<Rightarrow> string \<Rightarrow> bytes list \<Rightarrow> tls_heap \<Rightarrow> TlsContext result \<times> tls_heap" where
  "new_server calls cert_path key_path alpn h =
    (if \<not> tls_method_ok calls then (Err (InternalErr ''TLS_method failed''), h)
     else if \<not> ctx_new_ok calls then (Err (InternalErr ''SSL_CTX_new failed''), h)
     else
       let (ctx, h) = ctx_alloc h in
       if configure_rv calls \<noteq> 0
       then (Err (InternalErr ''ngtcp2_crypto_boringssl_configure_server_context failed''), ctx_free ctx h)
       else case cstring_new cert_path of
         None \<Rightarrow> (Err (InvalidArgument ''invalid cert path''), h)
       | Some cert \<Rightarrow>
         if use_cert_rv calls cert \<noteq> 1
         then (Err (InternalErr (''SSL_CTX_use_certificate_chain_file failed: '' @ cert_path)), ctx_free ctx h)
         else case cstring_new key_path of
           None \<Rightarrow> (Err (InvalidArgument ''invalid key path''), h)
         | Some key \<Rightarrow>
           if use_key_rv calls key \<noteq> 1
           then (Err (InternalErr (''SSL_CTX_use_PrivateKey_file failed: '' @ key_path)), ctx_free ctx h)
           else (Ok \<lparr>tc_ctx = ctx, tc_is_server = True, tc_verify_peer = False,
                     tc_alpn_data = Some (encode_alpn alpn), tc_accept_early_data = False\<rparr>, h))"

definition set_accept_early_data :: "bool \<Rightarrow> TlsContext \<Rightarrow> unit result \<times> TlsContext" where
  "set_accept_early_data accept c =
    (if \<not> tc_is_server c
     then (Err (InvalidArgument ''cannot accept early data on client context''), c)
     else (Ok (), c\<lparr>tc_accept_early_data := accept\<rparr>))"

text \<open>The calls of \<^verbatim>\<open>add_ca_cert_pem\<close>: the memory BIO, the parsed certificate, the store, the insertion.\<close>

definition add_ca_cert_pem :: "bool \<Rightarrow> bool \<Rightarrow> bool \<Rightarrow> int \<Rightarrow> TlsContext \<Rightarrow> unit result" where
  "add_ca_cert_pem bio_ok x509_ok store_ok add_rv c =
    (if tc_is_server c then Err (InvalidArgument ''cannot add CA cert on server context'')
     else if \<not> tc_verify_peer c
     then Err (InvalidArgument ''cannot add CA cert when verify_peer is false'')
     else if \<not> bio_ok then Err (InternalErr ''BIO_new_mem_buf failed'')
     else if \<not> x509_ok then Err (InvalidArgument ''invalid CA certificate PEM'')
     else if \<not> store_ok then Err (InternalErr ''SSL_CTX_get_cert_store failed'')
     else if add_rv \<noteq> 1 then Err (InternalErr ''X509_STORE_add_cert failed'')
     else Ok ())"

definition tls_context_drop :: "TlsContext \<Rightarrow> tls_heap \<Rightarrow> tls_heap" where
  "tls_context_drop c h = ctx_free (tc_ctx c) h"

section \<open>Sessions\<close>

record 's ssl_api =
  SSL_set_tlsext_host_name :: "'s \<Rightarrow> string option \<Rightarrow> int \<times> 's"
  SSL_get0_param_null :: "'s \<Rightarrow> bool"
  X509_VERIFY_PARAM_clear_host :: "'s \<Rightarrow> int \<times> 's"
  SSL_set1_host :: "'s \<Rightarrow> string \<Rightarrow> int \<times> 's"
  X509_VERIFY_PARAM_set1_ip :: "'s \<Rightarrow> bytes \<Rightarrow> int \<times> 's"
  SSL_set_quic_transport_params :: "'s \<Rightarrow> bytes \<Rightarrow> int \<times> 's"
  SSL_get0_alpn_selected :: "'s \<Rightarrow> bytes option"
  SSL_SESSION_from_bytes :: "'s \<Rightarrow> bytes \<Rightarrow> bool option"
  SSL_set_session :: "'s \<Rightarrow> bytes \<Rightarrow> int \<times> 's"
  SSL_set_early_data_enabled :: "'s \<Rightarrow> 's"
  SSL_in_early_data :: "'s \<Rightarrow> bool"
  SSL_early_data_accepted :: "'s \<Rightarrow> bool"
  SSL_set_quic_early_data_context :: "'s \<Rightarrow> bytes \<Rightarrow> int \<times> 's"

record 's TlsSession =
  ts_ssl :: 's
  ts_is_server :: bool
  ts_peer_ip :: "bytes option"
  ts_accept_early_data :: bool
  ts_ticket_slot :: "SessionTicketSlot option"

text \<open>\<open>ssl\<close> is the result of \<^verbatim>\<open>SSL_new\<close> with the state set, \<open>ex_data_rv\<close> that of \<^verbatim>\<open>SSL_set_ex_data\<close>.\<close>

definition create_session :: "'s option \<Rightarrow> int \<Rightarrow> TlsContext \<Rightarrow> ('s TlsSession) result" where
  "create_session ssl ex_data_rv c =
    (case ssl of None \<Rightarrow> Err (InternalErr ''SSL_new failed'')
     | Some s \<Rightarrow>
       if \<not> tc_is_server c \<and> ex_data_rv \<noteq> 1 then Err (InternalErr ''SSL_set_ex_data failed'')
       else Ok \<lparr>ts_ssl = s, ts_is_server = tc_is_server c, ts_peer_ip = None,
                ts_accept_early_data = tc_accept_early_data c,
                ts_ticket_slot = (if tc_is_server c then None else Some slot_new)\<rparr>)"

definition set_server_name :: "'s ssl_api \<Rightarrow> (string \<Rightarrow> bytes option) \<Rightarrow> string \<Rightarrow> 's TlsSession
    \<Rightarrow> unit result \<times> 's TlsSession" where
  "set_server_name api parse_ip server_name t =
    (if ts_is_server t then (Err (InvalidArgument ''cannot set server name on server session''), t)
     else if server_name = [] then (Err (InvalidArgument ''server_name must not be empty''), t)
     else if CHR ''*'' \<in> set server_name
     then (Err (InvalidArgument ''server_name must be a DNS name, not a wildcard''), t)
     else if length server_name > 255 then (Err (InvalidArgument ''server_name exceeds 255 bytes''), t)
     else case cstring_new server_name of
       None \<Rightarrow> (Err (InvalidArgument ''invalid server name''), t)
     | Some name \<Rightarrow>
       let peer_ip = parse_ip server_name in
       if SSL_get0_param_null api (ts_ssl t) then (Err (InternalErr ''SSL_get0_param failed''), t)
       else
         let sni = (if peer_ip \<noteq> None then None else Some name);
             (rv, ssl) = SSL_set_tlsext_host_name api (ts_ssl t) sni;
             t = t\<lparr>ts_ssl := ssl\<rparr>
         in if rv \<noteq> 1 then (Err (InternalErr ''SSL_set_tlsext_host_name failed''), t)
            else if peer_ip \<noteq> None then
              let (rv, ssl) = X509_VERIFY_PARAM_clear_host api (ts_ssl t); t = t\<lparr>ts_ssl := ssl\<rparr> in
              if rv \<noteq> 1 then (Err (InternalErr ''failed to clear DNS identity''), t)
              else (Ok (), t\<lparr>ts_peer_ip := peer_ip\<rparr>)
            else
              let (rv, ssl) = SSL_set1_host api (ts_ssl t) name; t = t\<lparr>ts_ssl := ssl\<rparr> in
              if rv \<noteq> 1 then (Err (InternalErr ''SSL_set1_host failed''), t)
              else (Ok (), t\<lparr>ts_peer_ip := peer_ip\<rparr>))"

definition configure_peer_ip_verification :: "'s ssl_api \<Rightarrow> 's TlsSession \<Rightarrow> unit result \<times> 's TlsSession" where
  "configure_peer_ip_verification api t =
    (case ts_peer_ip t of None \<Rightarrow> (Ok (), t)
     | Some octets \<Rightarrow>
       if SSL_get0_param_null api (ts_ssl t) then (Err (InternalErr ''SSL_get0_param failed''), t)
       else
         let (rv, ssl) = X509_VERIFY_PARAM_set1_ip api (ts_ssl t) octets; t = t\<lparr>ts_ssl := ssl\<rparr> in
         if rv \<noteq> 1 then (Err (InternalErr ''X509_VERIFY_PARAM_set1_ip failed''), t) else (Ok (), t))"

definition set_quic_transport_params :: "'s ssl_api \<Rightarrow> bytes \<Rightarrow> 's TlsSession \<Rightarrow> unit result \<times> 's TlsSession" where
  "set_quic_transport_params api params t =
    (let (rv, ssl) = SSL_set_quic_transport_params api (ts_ssl t) params; t = t\<lparr>ts_ssl := ssl\<rparr> in
     if rv \<noteq> 1 then (Err (InternalErr ''SSL_set_quic_transport_params failed''), t) else (Ok (), t))"

definition tls_selected_alpn_protocol :: "'s ssl_api \<Rightarrow> 's TlsSession \<Rightarrow> bytes option" where
  "tls_selected_alpn_protocol api t =
    (case SSL_get0_alpn_selected api (ts_ssl t) of None \<Rightarrow> None
     | Some p \<Rightarrow> if p = [] then None else Some p)"

definition set_session :: "'s ssl_api \<Rightarrow> bytes \<Rightarrow> 's TlsSession \<Rightarrow> bool result \<times> 's TlsSession" where
  "set_session api session t =
    (if ts_is_server t then (Err (InvalidArgument ''cannot set session on server session''), t)
     else if session = [] then (Err (InvalidArgument ''session is empty''), t)
     else case SSL_SESSION_from_bytes api (ts_ssl t) session of
       None \<Rightarrow> (Err (InvalidArgument ''invalid TLS session''), t)
     | Some early_data_capable \<Rightarrow>
       let (rv, ssl) = SSL_set_session api (ts_ssl t) session; t = t\<lparr>ts_ssl := ssl\<rparr> in
       if rv \<noteq> 1 then (Err (InvalidArgument ''TLS session cannot be set''), t)
       else (Ok early_data_capable,
             if early_data_capable then t\<lparr>ts_ssl := SSL_set_early_data_enabled api (ts_ssl t)\<rparr> else t))"

definition tls_take_session_ticket :: "'s TlsSession \<Rightarrow> bytes option \<times> 's TlsSession" where
  "tls_take_session_ticket t =
    (case ts_ticket_slot t of None \<Rightarrow> (None, t)
     | Some slot \<Rightarrow> let (ticket, slot) = slot_take slot in (ticket, t\<lparr>ts_ticket_slot := Some slot\<rparr>))"

definition tls_is_in_early_data :: "'s ssl_api \<Rightarrow> 's TlsSession \<Rightarrow> bool" where
  "tls_is_in_early_data api t = SSL_in_early_data api (ts_ssl t)"

definition tls_is_early_data_accepted :: "'s ssl_api \<Rightarrow> 's TlsSession \<Rightarrow> bool" where
  "tls_is_early_data_accepted api t = SSL_early_data_accepted api (ts_ssl t)"

definition set_quic_early_data_context :: "'s ssl_api \<Rightarrow> bytes \<Rightarrow> 's TlsSession \<Rightarrow> unit result \<times> 's TlsSession" where
  "set_quic_early_data_context api ctx t =
    (if \<not> ts_is_server t then (Err (InvalidArgument ''cannot set early data context on client session''), t)
     else
       let (rv, ssl) = SSL_set_quic_early_data_context api (ts_ssl t) ctx; t = t\<lparr>ts_ssl := ssl\<rparr> in
       if rv \<noteq> 1 then (Err (InternalErr ''SSL_set_quic_early_data_context failed''), t) else (Ok (), t))"

section \<open>Properties\<close>

text \<open>Reading an encoded list from a position at which an encoding starts.\<close>

definition proto_ok :: "bytes \<Rightarrow> bool" where
  "proto_ok p \<longleftrightarrow> p \<noteq> [] \<and> length p \<le> u8_max"

lemma client_loop_encoded:
  assumes "list_all proto_ok cs"
  shows "map_option (\<lambda>(i, n). take n (drop i (pre @ encode_alpn cs))) (client_loop s (pre @ encode_alpn cs) (length pre))
    = (if s \<in> set cs then Some s else None)"
  using assms
proof (induction cs arbitrary: pre)
  case Nil
  then show ?case by (simp add: client_loop.simps)
next
  case (Cons c cs)
  let ?client = "pre @ encode_alpn (c # cs)"
  have n: "unat (word_of_nat (length c) :: byte) = length c"
    using Cons.prems by (simp add: proto_ok_def unat_word_of_byte)
  have at: "?client ! length pre = word_of_nat (length c)"
      "take (length c) (drop (length pre + 1) ?client) = c"
      "length pre + 1 + length c \<le> length ?client" "length pre < length ?client"
    by simp_all
  have shift: "?client = (pre @ word_of_nat (length c) # c) @ encode_alpn cs"
      "length pre + 1 + length c = length (pre @ word_of_nat (length c) # c)" by simp_all
  have step: "client_loop s ?client (length pre) =
      (if s = c then Some (length pre + 1, length c)
       else client_loop s ?client (length pre + 1 + length c))"
    by (subst client_loop.simps) (simp add: n nth_append)
  show ?case
  proof (cases "s = c")
    case True
    then show ?thesis using step at by simp
  next
    case False
    have "client_loop s ?client (length pre)
        = client_loop s ((pre @ word_of_nat (length c) # c) @ encode_alpn cs) (length (pre @ word_of_nat (length c) # c))"
      using step False by (simp only: shift if_False)
    then show ?thesis
      using Cons.IH [of "pre @ word_of_nat (length c) # c"] Cons.prems False by (simp only: shift) simp
  qed
qed

lemma client_loop_encoded0:
  assumes "list_all proto_ok cs"
  shows "map_option (\<lambda>(i, n). take n (drop i (encode_alpn cs))) (client_loop s (encode_alpn cs) 0)
    = (if s \<in> set cs then Some s else None)"
  using client_loop_encoded [OF assms, of "[]" s] by simp

lemma server_loop_encoded:
  assumes "list_all proto_ok ss" "list_all proto_ok cs"
  shows "map_option (\<lambda>(i, n). take n (drop i (encode_alpn cs)))
      (server_loop (pre @ encode_alpn ss) (encode_alpn cs) (length pre))
    = find (\<lambda>s. s \<in> set cs) ss"
  using assms(1)
proof (induction ss arbitrary: pre)
  case Nil
  then show ?case by (simp add: server_loop.simps)
next
  case (Cons c ss)
  let ?server = "pre @ encode_alpn (c # ss)"
  have n: "unat (word_of_nat (length c) :: byte) = length c"
    using Cons.prems by (simp add: proto_ok_def unat_word_of_byte)
  have at: "?server ! length pre = word_of_nat (length c)"
      "take (length c) (drop (length pre + 1) ?server) = c"
      "length pre + 1 + length c \<le> length ?server" "length pre < length ?server"
    by simp_all
  have shift: "?server = (pre @ word_of_nat (length c) # c) @ encode_alpn ss"
      "length pre + 1 + length c = length (pre @ word_of_nat (length c) # c)" by simp_all
  have step: "server_loop ?server (encode_alpn cs) (length pre) =
      (case client_loop c (encode_alpn cs) 0 of Some hit \<Rightarrow> Some hit
       | None \<Rightarrow> server_loop ?server (encode_alpn cs) (length pre + 1 + length c))"
    by (subst server_loop.simps) (simp add: n nth_append split: option.split)
  note hit = client_loop_encoded0 [OF assms(2), of c]
  show ?case
  proof (cases "c \<in> set cs")
    case True
    then show ?thesis using step hit by (auto split: option.splits)
  next
    case False
    then have "client_loop c (encode_alpn cs) 0 = None" using hit by simp
    then have "server_loop ?server (encode_alpn cs) (length pre)
        = server_loop ((pre @ word_of_nat (length c) # c) @ encode_alpn ss) (encode_alpn cs)
            (length (pre @ word_of_nat (length c) # c))"
      using step by (simp only: shift option.case)
    then show ?thesis
      using Cons.IH [of "pre @ word_of_nat (length c) # c"] Cons.prems False by (simp only: shift) simp
  qed
qed

text \<open>C26. The server selects the first of its protocols that the client offers, and answers with the
  client's own bytes for it; it declines exactly when there is no common protocol. Protocol names
  have 1 to 255 bytes.\<close>

theorem alpn_select_correct:
  assumes "list_all proto_ok ss" "list_all proto_ok cs"
  shows "map_option (\<lambda>(i, n). take n (drop i (encode_alpn cs)))
      (alpn_select_callback (Some (encode_alpn ss)) (encode_alpn cs)) = find (\<lambda>s. s \<in> set cs) ss"
  using server_loop_encoded [OF assms, of "[]"] by (simp add: alpn_select_callback_def)

theorem alpn_select_correct_witness:
  "map_option (\<lambda>(i, n). take n (drop i (encode_alpn [[104, 50], [104, 51]])))
      (alpn_select_callback (Some (encode_alpn [[104, 51], [104, 50]])) (encode_alpn [[104, 50], [104, 51]]))
    = Some [104, 51]"
  using alpn_select_correct [of "[[104, 51], [104, 50]]" "[[104, 50], [104, 51]]"]
  by (simp add: proto_ok_def)

text \<open>The identity a client verifies: an IP literal is never sent as server name indication, clears
  a DNS identity set before and is remembered for address verification; a DNS name is sent and
  verified; a name that is empty, a wildcard, too long or contains a NUL changes nothing.\<close>

lemma server_name_identity:
  assumes "set_server_name api parse_ip name t = (r, t')"
  shows "(r = Ok () \<longrightarrow> ts_peer_ip t' = parse_ip name \<and> ts_ssl t' =
        (let ssl = snd (SSL_set_tlsext_host_name api (ts_ssl t) (if parse_ip name = None then Some name else None))
         in if parse_ip name = None then snd (SSL_set1_host api ssl name)
            else snd (X509_VERIFY_PARAM_clear_host api ssl)))
    \<and> (ts_is_server t \<or> name = [] \<or> CHR ''*'' \<in> set name \<or> length name > 255 \<or> CHR 0x00 \<in> set name \<longrightarrow>
        r \<noteq> Ok () \<and> t' = t)"
proof (cases "ts_is_server t \<or> name = [] \<or> CHR ''*'' \<in> set name \<or> length name > 255 \<or> CHR 0x00 \<in> set name")
  case True
  then have "r \<noteq> Ok () \<and> t' = t"
    using assms by (auto simp: set_server_name_def cstring_new_def split: if_splits)
  then show ?thesis by simp
next
  case False
  then show ?thesis
    using assms
    by (auto simp: set_server_name_def cstring_new_def Let_def split: if_splits prod.splits)
qed

text \<open>An \<^verbatim>\<open>SSL\<close> that records the server name, the verified host and the verified address.\<close>

type_synonym sample_ssl = "string option \<times> string option \<times> bytes option"

definition sample_ssl_api :: "sample_ssl ssl_api" where
  "sample_ssl_api = \<lparr>
     SSL_set_tlsext_host_name = (\<lambda>(a, b, c) n. (1, (n, b, c))),
     SSL_get0_param_null = (\<lambda>_. False),
     X509_VERIFY_PARAM_clear_host = (\<lambda>(a, b, c). (1, (a, None, c))),
     SSL_set1_host = (\<lambda>(a, b, c) n. (1, (a, Some n, c))),
     X509_VERIFY_PARAM_set1_ip = (\<lambda>(a, b, c) ip. (1, (a, b, Some ip))),
     SSL_set_quic_transport_params = (\<lambda>s p. (1, s)),
     SSL_get0_alpn_selected = (\<lambda>s. None),
     SSL_SESSION_from_bytes = (\<lambda>s b. Some True),
     SSL_set_session = (\<lambda>s b. (1, s)),
     SSL_set_early_data_enabled = (\<lambda>s. s),
     SSL_in_early_data = (\<lambda>s. False),
     SSL_early_data_accepted = (\<lambda>s. False),
     SSL_set_quic_early_data_context = (\<lambda>s c. (1, s))\<rparr>"

definition sample_session :: "sample_ssl TlsSession" where
  "sample_session = \<lparr>ts_ssl = (Some ''a.example'', Some ''a.example'', None), ts_is_server = False,
     ts_peer_ip = None, ts_accept_early_data = False, ts_ticket_slot = Some slot_new\<rparr>"

text \<open>C36. A constructor of a TLS context that fails leaves no new context allocated, except that a
  certificate or key path with an interior NUL makes the server constructor return an error while
  the context it allocated stays alive.\<close>

theorem context_ownership:
  assumes "next_ctx h \<notin> set (live_ctx h)"
  shows "(new_client_with_options calls alpn verify h = (Err e, h1) \<longrightarrow> live_ctx h1 = live_ctx h)
    \<and> (new_server calls cert key alpn h = (Err e, h1) \<longrightarrow>
        live_ctx h1 = (if e = InvalidArgument ''invalid cert path'' \<or> e = InvalidArgument ''invalid key path''
                       then next_ctx h # live_ctx h else live_ctx h))"
  using assms
  by (auto simp: new_client_with_options_def new_server_def ctx_alloc_def ctx_free_def Let_def
      split: if_splits option.splits)

definition sample_calls :: ctx_calls where
  "sample_calls = \<lparr>tls_method_ok = True, ctx_new_ok = True, configure_rv = 0, set_alpn_rv = (\<lambda>_. 0),
     use_cert_rv = (\<lambda>_. 1), use_key_rv = (\<lambda>_. 1)\<rparr>"

theorem context_ownership_witness:
  "\<exists>h1. new_server sample_calls [CHR ''a'', CHR 0x00] ''key'' [] \<lparr>live_ctx = [], next_ctx = 0\<rparr>
      = (Err (InvalidArgument ''invalid cert path''), h1) \<and> live_ctx h1 = [0]"
proof -
  let ?h = "\<lparr>live_ctx = [], next_ctx = 0\<rparr>"
  obtain h1 where h1: "new_server sample_calls [CHR ''a'', CHR 0x00] ''key'' [] ?h
      = (Err (InvalidArgument ''invalid cert path''), h1)"
    by (simp add: new_server_def sample_calls_def ctx_alloc_def cstring_new_def)
  show ?thesis
    using h1 context_ownership [of ?h sample_calls "[]" True "InvalidArgument ''invalid cert path''" h1
        "[CHR ''a'', CHR 0x00]" "''key''"] by simp
qed

end
