(* ===== verification/Utf8.thy ===== *)
theory Utf8
  imports Prelude
begin

text \<open>
  \<^verbatim>\<open>String::from_utf8_lossy\<close> of the Rust standard library, which \<^verbatim>\<open>src/ngtcp2/src/conn.rs\<close> and
  \<^verbatim>\<open>src/tokio-ngtcp2/src\<close> apply to the reason phrases of a peer. A Rust string is its UTF-8 bytes. Every
  maximal prefix of a well-formed sequence that does not complete, and every other byte that cannot
  start one, becomes one U+FFFD. At the end, the version strings and constants of the library root
  (\<^verbatim>\<open>src/ngtcp2/src/lib.rs\<close>).
\<close>

definition replacement :: bytes where
  "replacement = [0xEF, 0xBF, 0xBD]"

definition cont :: "byte \<Rightarrow> bool" where
  "cont b \<longleftrightarrow> 0x80 \<le> b \<and> b \<le> 0xBF"

text \<open>The range of the second byte and the length of the sequence, by the first byte.\<close>

definition lead :: "byte \<Rightarrow> (nat \<times> byte \<times> byte) option" where
  "lead b =
    (if 0xC2 \<le> b \<and> b \<le> 0xDF then Some (2, 0x80, 0xBF)
     else if b = 0xE0 then Some (3, 0xA0, 0xBF)
     else if b = 0xED then Some (3, 0x80, 0x9F)
     else if 0xE1 \<le> b \<and> b \<le> 0xEF then Some (3, 0x80, 0xBF)
     else if b = 0xF0 then Some (4, 0x90, 0xBF)
     else if 0xF1 \<le> b \<and> b \<le> 0xF3 then Some (4, 0x80, 0xBF)
     else if b = 0xF4 then Some (4, 0x80, 0x8F)
     else None)"

text \<open>How many bytes the next character takes and whether they are well formed.\<close>

definition utf8_next :: "byte \<Rightarrow> bytes \<Rightarrow> nat \<times> bool" where
  "utf8_next b bs =
    (if b < 0x80 then (1, True)
     else case lead b of None \<Rightarrow> (1, False)
     | Some (n, lo, hi) \<Rightarrow>
       (case bs of [] \<Rightarrow> (1, False)
        | c # cs \<Rightarrow>
          if \<not> (lo \<le> c \<and> c \<le> hi) then (1, False)
          else let k = length (takeWhile cont (take (n - 2) cs))
               in (2 + k, k = n - 2)))"

lemma utf8_next_pos: "0 < fst (utf8_next b bs)"
  by (auto simp: utf8_next_def Let_def split: option.split list.split prod.split)

function from_utf8_lossy :: "bytes \<Rightarrow> bytes" where
  "from_utf8_lossy [] = []"
| "from_utf8_lossy (b # bs) =
    (let (k, ok) = utf8_next b bs
     in (if ok then take k (b # bs) else replacement) @ from_utf8_lossy (drop k (b # bs)))"
  by pat_completeness auto

termination
proof (relation "measure length")
  fix b :: byte and bs x k ok
  assume "x = utf8_next b bs" "(k, ok) = x"
  then have "0 < k" using utf8_next_pos [of b bs] by (metis fst_conv)
  then show "(drop k (b # bs), b # bs) \<in> measure length" by simp
qed simp

function utf8_valid :: "bytes \<Rightarrow> bool" where
  "utf8_valid [] = True"
| "utf8_valid (b # bs) = (let (k, ok) = utf8_next b bs in ok \<and> utf8_valid (drop k (b # bs)))"
  by pat_completeness auto

termination
proof (relation "measure length")
  fix b :: byte and bs x k ok
  assume "x = utf8_next b bs" "(k, ok) = x"
  then have "0 < k" using utf8_next_pos [of b bs] by (metis fst_conv)
  then show "(drop k (b # bs), b # bs) \<in> measure length" by simp
qed simp

text \<open>A well-formed character is recognised whatever follows it.\<close>

lemma utf8_next_append:
  assumes "utf8_next b bs = (k, True)"
  shows "utf8_next b (drop 1 (take k (b # bs)) @ rest) = (k, True)"
proof (cases "b < 0x80")
  case True
  then show ?thesis using assms by (simp add: utf8_next_def)
next
  case False
  obtain n lo hi where l: "lead b = Some (n, lo, hi)"
    using assms False by (auto simp: utf8_next_def split: option.splits)
  obtain c cs where bs: "bs = c # cs"
    using assms False l by (auto simp: utf8_next_def split: list.splits)
  have c: "lo \<le> c \<and> c \<le> hi"
    using assms False l bs by (auto simp: utf8_next_def split: if_splits)
  define j where "j = length (takeWhile cont (take (n - 2) cs))"
  have k: "k = 2 + j" "j = n - 2"
    using assms False l bs c by (auto simp: utf8_next_def Let_def j_def)
  have tw: "takeWhile cont (take (n - 2) cs) = take (n - 2) cs"
    using k(2) unfolding j_def
    by (metis takeWhile_eq_take length_take min.cobounded2 take_all_iff take_take nle_le)
  have "length (take (n - 2) cs) = n - 2" using tw k(2) j_def by metis
  then have e: "take (n - 2) (take (n - 2) cs @ rest) = take (n - 2) cs" by simp
  have "drop 1 (take k (b # bs)) @ rest = c # take (n - 2) cs @ rest" by (simp add: k bs)
  moreover have "length (takeWhile cont (take (n - 2) (take (n - 2) cs @ rest))) = n - 2"
    unfolding e using k(2) j_def by simp
  ultimately show ?thesis using False l c k by (simp add: utf8_next_def Let_def)
qed

lemma utf8_next_length:
  assumes "utf8_next b bs = (k, True)"
  shows "length (take k (b # bs)) = k"
proof -
  have t: "min (length xs) m = m" if "length (takeWhile cont (take m xs)) = m" for m xs
    using that length_takeWhile_le [of cont "take m xs"] by simp
  show ?thesis
    using assms by (auto simp: utf8_next_def Let_def t split: if_splits option.splits list.splits)
qed

lemma utf8_next_replacement: "utf8_next 0xEF (0xBF # 0xBD # rest) = (3, True)"
  by (simp add: utf8_next_def lead_def cont_def)

lemma lossy_valid: "utf8_valid (from_utf8_lossy bs)"
proof (induction bs rule: from_utf8_lossy.induct)
  case 1
  show ?case by simp
next
  case (2 b bs)
  obtain k ok where n: "utf8_next b bs = (k, ok)" by fastforce
  have IH: "utf8_valid (from_utf8_lossy (drop k (b # bs)))" using 2 n by simp
  show ?case
  proof (cases ok)
    case True
    let ?rest = "from_utf8_lossy (drop k (b # bs))"
    obtain j where k: "k = Suc j" using utf8_next_pos [of b bs] n by (cases k) auto
    have nx: "utf8_next b (drop 1 (take k (b # bs)) @ ?rest) = (k, True)"
      using utf8_next_append n True by simp
    have len: "length (take k (b # bs)) = k" using utf8_next_length n True by simp
    have "from_utf8_lossy (b # bs) = b # drop 1 (take k (b # bs)) @ ?rest"
      using n True by (simp add: k)
    moreover have "drop k (b # drop 1 (take k (b # bs)) @ ?rest) = ?rest"
      using len by (simp add: k)
    ultimately show ?thesis using IH nx by simp
  next
    case False
    then show ?thesis using IH n by (simp add: replacement_def utf8_next_replacement)
  qed
qed

lemma lossy_id: "utf8_valid bs \<Longrightarrow> from_utf8_lossy bs = bs"
proof (induction bs rule: from_utf8_lossy.induct)
  case (2 b bs)
  obtain k ok where n: "utf8_next b bs = (k, ok)" by fastforce
  then show ?case using 2 by simp
qed simp

section \<open>The library root\<close>

definition MIN_INITIAL_DATAGRAM_SIZE :: nat where "MIN_INITIAL_DATAGRAM_SIZE = 1200"

definition MIN_INITIAL_DCIDLEN :: nat where "MIN_INITIAL_DCIDLEN = 8"

definition NGTCP2_VERSION :: bytes where "NGTCP2_VERSION = map of_char ''1.25.90''"

text \<open>\<open>info\<close> is what the C function returns: a null pointer, or a record whose string may be null.\<close>

definition version_string :: "bytes option option \<Rightarrow> bytes" where
  "version_string info =
    (let unknown = map of_char ''unknown'' in
     case info of None \<Rightarrow> unknown | Some None \<Rightarrow> unknown
     | Some (Some bs) \<Rightarrow> if utf8_valid bs then bs else unknown)"

definition ngtcp2_version :: "bytes option option \<Rightarrow> bytes" where
  "ngtcp2_version info = version_string info"

lemma ascii_valid: "list_all (\<lambda>b. b < 0x80) bs \<Longrightarrow> utf8_valid bs"
  by (induction bs) (simp_all add: utf8_next_def lead_def)

lemma version_string_valid: "utf8_valid (version_string info)"
proof -
  have "utf8_valid (map of_char ''unknown'')" by (rule ascii_valid) simp
  then show ?thesis by (auto simp: version_string_def Let_def split: option.split)
qed

end
