(* ===== verification/Callbacks.thy ===== *)
theory Callbacks
  imports Config InFlight
begin

unbundle bit_operations_syntax

text \<open>
  The per-connection state that ngtcp2's callbacks update (\<^verbatim>\<open>ConnectionUserData\<close> in
  \<^verbatim>\<open>src/ngtcp2/src/conn.rs\<close>) and the callbacks themselves, one definition each. A call into ngtcp2
  yields the sequence of callback invocations it made, in order; \<open>run_callback\<close> dispatches one of
  them and \<open>run_callbacks\<close> a sequence. A callback receives the arguments the C library passes (pointers
  with lengths as optional byte strings) and, where it draws random bytes, their value. The
  in-flight buffers of all streams share one memory. \<^verbatim>\<open>user_data\<close> is never null because every
  constructor passes the address of the boxed state.
\<close>

section \<open>State\<close>

record ConnectionUserData =
  ud_events :: "ConnectionEvent list"
  ud_issued_cids :: "cid list"
  ud_retired_cids :: "cid list"
  ud_stateless_reset_secret :: "StatelessResetSecret option"
  ud_early_data_attempted :: bool
  ud_qlog_data :: bytes
  ud_new_tokens :: "bytes list"
  ud_in_flight :: "StreamId \<Rightarrow> InFlightStreamData option"
  ud_mem :: mem

definition user_data_new :: "mem \<Rightarrow> ConnectionUserData" where
  "user_data_new m =
    \<lparr>ud_events = [], ud_issued_cids = [], ud_retired_cids = [], ud_stateless_reset_secret = None,
     ud_early_data_attempted = False, ud_qlog_data = [], ud_new_tokens = [],
     ud_in_flight = (\<lambda>_. None), ud_mem = m\<rparr>"

definition acked_stream_data :: "StreamId \<Rightarrow> u64 \<Rightarrow> u64 \<Rightarrow> ConnectionUserData \<Rightarrow> ConnectionUserData" where
  "acked_stream_data stream_id offset datalen d =
    (case ud_in_flight d stream_id of
       None \<Rightarrow> d
     | Some entry \<Rightarrow>
         let (entry, m) = ack_until (sat_add64 (unat offset) (unat datalen)) entry (ud_mem d)
         in d\<lparr>ud_in_flight := (ud_in_flight d)(stream_id \<mapsto> entry), ud_mem := m\<rparr>)"

text \<open>Removing an entry drops its buffers.\<close>

definition drop_in_flight :: "InFlightStreamData \<Rightarrow> mem \<Rightarrow> mem" where
  "drop_in_flight f m = fold (\<lambda>b. vec_drop (rb_data b)) (fl_retired f) (vec_drop (fl_data f) m)"

definition closed_stream :: "StreamId \<Rightarrow> ConnectionUserData \<Rightarrow> ConnectionUserData" where
  "closed_stream stream_id d =
    (case ud_in_flight d stream_id of
       None \<Rightarrow> d
     | Some entry \<Rightarrow>
         d\<lparr>ud_in_flight := (ud_in_flight d)(stream_id := None), ud_mem := drop_in_flight entry (ud_mem d)\<rparr>)"

definition push_event :: "ConnectionEvent \<Rightarrow> ConnectionUserData \<Rightarrow> ConnectionUserData" where
  "push_event e d = d\<lparr>ud_events := ud_events d @ [e]\<rparr>"

section \<open>Callbacks\<close>

text \<open>\<open>was_accepted\<close> is \<^verbatim>\<open>SSL_early_data_accepted\<close>; \<open>rejects\<close> tells whether \<^verbatim>\<open>ngtcp2_conn_tls_early_data_rejected\<close> calls
  back (it does nothing when it was called before).\<close>

definition tls_early_data_rejected_callback :: "ConnectionUserData \<Rightarrow> ConnectionUserData" where
  "tls_early_data_rejected_callback d = push_event EarlyDataRejected d"

definition handshake_completed_callback :: "bool \<Rightarrow> bool \<Rightarrow> ConnectionUserData \<Rightarrow> ConnectionUserData" where
  "handshake_completed_callback was_accepted rejects d =
    push_event HandshakeCompleted
      (if ud_early_data_attempted d \<and> \<not> was_accepted \<and> rejects then tls_early_data_rejected_callback d else d)"

definition handshake_confirmed_callback :: "ConnectionUserData \<Rightarrow> ConnectionUserData" where
  "handshake_confirmed_callback d = push_event HandshakeConfirmed d"

definition stream_open_callback :: "StreamId \<Rightarrow> ConnectionUserData \<Rightarrow> ConnectionUserData" where
  "stream_open_callback stream_id d = push_event (StreamOpened stream_id) d"

definition stream_close_callback :: "u32 \<Rightarrow> StreamId \<Rightarrow> u64 \<Rightarrow> u64 \<Rightarrow> ConnectionUserData \<Rightarrow> ConnectionUserData" where
  "stream_close_callback flags stream_id rx_code tx_code d =
    push_event (StreamClosed stream_id
        (if flags AND 1 \<noteq> 0 then Some rx_code else None)
        (if flags AND 2 \<noteq> 0 then Some tx_code else None))
      (closed_stream stream_id d)"

definition qlog_write_callback :: "bytes option \<Rightarrow> ConnectionUserData \<Rightarrow> ConnectionUserData" where
  "qlog_write_callback data d =
    (case data of None \<Rightarrow> d | Some bs \<Rightarrow> d\<lparr>ud_qlog_data := ud_qlog_data d @ bs\<rparr>)"

definition recv_new_token_callback :: "bytes option \<Rightarrow> ConnectionUserData \<Rightarrow> ConnectionUserData" where
  "recv_new_token_callback token d =
    (case token of None \<Rightarrow> d | Some bs \<Rightarrow> d\<lparr>ud_new_tokens := ud_new_tokens d @ [bs]\<rparr>)"

definition acked_stream_data_offset_callback :: "StreamId \<Rightarrow> u64 \<Rightarrow> u64 \<Rightarrow> ConnectionUserData \<Rightarrow> ConnectionUserData" where
  "acked_stream_data_offset_callback stream_id offset datalen d = acked_stream_data stream_id offset datalen d"

definition stream_reset_callback :: "StreamId \<Rightarrow> u64 \<Rightarrow> u64 \<Rightarrow> ConnectionUserData \<Rightarrow> ConnectionUserData" where
  "stream_reset_callback stream_id final_size code d = push_event (StreamReset stream_id final_size code) d"

definition recv_stop_sending_callback :: "StreamId \<Rightarrow> u64 \<Rightarrow> ConnectionUserData \<Rightarrow> ConnectionUserData" where
  "recv_stop_sending_callback stream_id code d = push_event (StreamStopSending stream_id code) d"

definition recv_stream_data_callback :: "u32 \<Rightarrow> StreamId \<Rightarrow> bytes option \<Rightarrow> ConnectionUserData \<Rightarrow> ConnectionUserData" where
  "recv_stream_data_callback flags stream_id data d =
    (case data of None \<Rightarrow> d | Some bs \<Rightarrow> push_event (StreamData stream_id bs (flags AND 1 \<noteq> 0)) d)"

definition extend_max_stream_data_callback :: "StreamId \<Rightarrow> u64 \<Rightarrow> ConnectionUserData \<Rightarrow> ConnectionUserData" where
  "extend_max_stream_data_callback stream_id max_data d = push_event (StreamMaxData stream_id max_data) d"

definition extend_max_local_streams_bidi_callback :: "u64 \<Rightarrow> ConnectionUserData \<Rightarrow> ConnectionUserData" where
  "extend_max_local_streams_bidi_callback n d = push_event (MaxStreamsBidi n) d"

definition extend_max_local_streams_uni_callback :: "u64 \<Rightarrow> ConnectionUserData \<Rightarrow> ConnectionUserData" where
  "extend_max_local_streams_uni_callback n d = push_event (MaxStreamsUni n) d"

definition recv_datagram_callback :: "bytes option \<Rightarrow> ConnectionUserData \<Rightarrow> ConnectionUserData" where
  "recv_datagram_callback data d = (case data of None \<Rightarrow> d | Some bs \<Rightarrow> push_event (Datagram bs) d)"

definition recv_stateless_reset_callback :: "ConnectionUserData \<Rightarrow> ConnectionUserData" where
  "recv_stateless_reset_callback d = push_event StatelessResetReceived d"

definition path_validation_callback :: "ngtcp2_path option \<Rightarrow> bool \<Rightarrow> ConnectionUserData \<Rightarrow> ConnectionUserData" where
  "path_validation_callback path success d =
    (case path_info_from_raw path of None \<Rightarrow> d | Some p \<Rightarrow> push_event (PathValidated p success) d)"

definition remove_connection_id_callback :: "ngtcp2_cid option \<Rightarrow> ConnectionUserData \<Rightarrow> ConnectionUserData" where
  "remove_connection_id_callback raw d =
    (case raw of None \<Rightarrow> d
     | Some r \<Rightarrow>
       (case cid_new (raw_cid_bytes r) of None \<Rightarrow> d
        | Some c \<Rightarrow> d\<lparr>ud_retired_cids := ud_retired_cids d @ [c]\<rparr>))"

text \<open>A new connection ID: the drawn ID and token bytes are arguments (\<open>None\<close> when the draw fails). The
  results are the return code, the ID and the token written for ngtcp2.\<close>

definition get_new_connection_id_callback :: "('a stateless_api_scheme) \<Rightarrow> bytes option \<Rightarrow> bytes option
    \<Rightarrow> ConnectionUserData \<Rightarrow> (int \<times> bytes \<times> bytes) \<times> ConnectionUserData" where
  "get_new_connection_id_callback api cid_rand token_rand d =
    (case cid_rand of None \<Rightarrow> ((NGTCP2_ERR_CALLBACK_FAILURE, [], []), d)
     | Some generated \<Rightarrow>
       (case cid_new generated of
          None \<Rightarrow>
            (case token_rand of None \<Rightarrow> ((NGTCP2_ERR_CALLBACK_FAILURE, generated, []), d)
             | Some t \<Rightarrow> ((0, generated, t), d))
        | Some issued \<Rightarrow>
            (case (case ud_stateless_reset_secret d of None \<Rightarrow> None | Some s \<Rightarrow> reset_token api s issued) of
               Some derived \<Rightarrow>
                 ((0, generated, token_bytes derived), d\<lparr>ud_issued_cids := ud_issued_cids d @ [issued]\<rparr>)
             | None \<Rightarrow>
                 (case token_rand of None \<Rightarrow> ((NGTCP2_ERR_CALLBACK_FAILURE, generated, []), d)
                  | Some t \<Rightarrow> ((0, generated, t), d\<lparr>ud_issued_cids := ud_issued_cids d @ [issued]\<rparr>)))))"

text \<open>The path chosen for a server's preferred address: the address of the family of the local path,
  \<open>None\<close> to stay.\<close>

definition select_preferred_addr_callback ::
    "ngtcp2_path option \<Rightarrow> raw_preferred_addr option \<Rightarrow> (bytes \<times> nat) option" where
  "select_preferred_addr_callback path paddr =
    (case (path, paddr) of
       (Some p, Some pa) \<Rightarrow>
         (case na_addr (np_local p) of None \<Rightarrow> None
          | Some bs \<Rightarrow>
            let family = from_le (field bs 0 2) in
            if family = AF_INET \<and> pa_ipv4 pa \<noteq> None then Some (the (pa_ipv4 pa), sizeof_sockaddr_in)
            else if family = AF_INET6 \<and> pa_ipv6 pa \<noteq> None then Some (the (pa_ipv6 pa), sizeof_sockaddr_in6)
            else None)
     | _ \<Rightarrow> None)"

section \<open>Dispatch\<close>

datatype callback =
    CbHandshakeCompleted bool bool
  | CbHandshakeConfirmed
  | CbEarlyDataRejected
  | CbStreamOpen StreamId
  | CbStreamClose u32 StreamId u64 u64
  | CbStreamReset StreamId u64 u64
  | CbStopSending StreamId u64
  | CbMaxStreamData StreamId u64
  | CbMaxStreamsBidi u64
  | CbMaxStreamsUni u64
  | CbStreamData u32 StreamId "bytes option"
  | CbNewToken "bytes option"
  | CbAcked StreamId u64 u64
  | CbDatagram "bytes option"
  | CbStatelessReset
  | CbRemoveCid "ngtcp2_cid option"
  | CbPathValidation "ngtcp2_path option" bool
  | CbNewCid "bytes option" "bytes option"
  | CbQlog "bytes option"

fun run_callback :: "('a stateless_api_scheme) \<Rightarrow> callback \<Rightarrow> ConnectionUserData \<Rightarrow> ConnectionUserData" where
  "run_callback api (CbHandshakeCompleted a r) d = handshake_completed_callback a r d"
| "run_callback api CbHandshakeConfirmed d = handshake_confirmed_callback d"
| "run_callback api CbEarlyDataRejected d = tls_early_data_rejected_callback d"
| "run_callback api (CbStreamOpen s) d = stream_open_callback s d"
| "run_callback api (CbStreamClose f s rx tx) d = stream_close_callback f s rx tx d"
| "run_callback api (CbStreamReset s n c) d = stream_reset_callback s n c d"
| "run_callback api (CbStopSending s c) d = recv_stop_sending_callback s c d"
| "run_callback api (CbMaxStreamData s n) d = extend_max_stream_data_callback s n d"
| "run_callback api (CbMaxStreamsBidi n) d = extend_max_local_streams_bidi_callback n d"
| "run_callback api (CbMaxStreamsUni n) d = extend_max_local_streams_uni_callback n d"
| "run_callback api (CbStreamData f s bs) d = recv_stream_data_callback f s bs d"
| "run_callback api (CbNewToken bs) d = recv_new_token_callback bs d"
| "run_callback api (CbAcked s k n) d = acked_stream_data_offset_callback s k n d"
| "run_callback api (CbDatagram bs) d = recv_datagram_callback bs d"
| "run_callback api CbStatelessReset d = recv_stateless_reset_callback d"
| "run_callback api (CbRemoveCid r) d = remove_connection_id_callback r d"
| "run_callback api (CbPathValidation p s) d = path_validation_callback p s d"
| "run_callback api (CbNewCid c t) d = snd (get_new_connection_id_callback api c t d)"
| "run_callback api (CbQlog bs) d = qlog_write_callback bs d"

definition run_callbacks :: "('a stateless_api_scheme) \<Rightarrow> callback list \<Rightarrow> ConnectionUserData \<Rightarrow> ConnectionUserData" where
  "run_callbacks api cbs d = fold (run_callback api) cbs d"

section \<open>The buffers of all streams\<close>

text \<open>What an operation on one buffer may do to memory: it leaves regions alone that it does not own,
  and what it owns afterwards it owned before or has just allocated.\<close>

definition flight_frame :: "InFlightStreamData \<Rightarrow> mem \<Rightarrow> InFlightStreamData \<Rightarrow> mem \<Rightarrow> bool" where
  "flight_frame f m f1 m1 \<longleftrightarrow> m_next m \<le> m_next m1
     \<and> (\<forall>r < m_next m. r \<notin> set (regs f) \<longrightarrow> m_reg m1 r = m_reg m r)
     \<and> set (regs f1) \<subseteq> set (regs f) \<union> {m_next m..<m_next m1}"

lemma frame_refl: "flight_frame f m f m"
  by (simp add: flight_frame_def)

lemma ack_until_frame:
  assumes ok: "flight_ok m f" and ak: "ack_until off f m = (f1, m1)"
  shows "flight_frame f m f1 m1"
proof (cases "off \<le> fl_offset f")
  case True
  then show ?thesis using ak by (simp add: ack_until_def frame_refl)
next
  case False
  define a where "a = min (off - fl_offset f) (v_len (fl_data f) - fl_start f)"
  have f1: "f1 = acked_state a f" "m1 = acked_mem a f m"
    using ak False by (simp_all add: ack_until_form a_def Let_def)
  have "m_reg m1 r = m_reg m r" if "r \<notin> set (regs f)" for r
    unfolding f1 acked_mem_def using that
    by (intro fold_vec_drop_other) (force simp: regs_def retired_regs_def)
  moreover have "set (regs f1) \<subseteq> set (regs f)"
    by (auto simp: f1 acked_state_def Let_def regs_def retired_regs_def split: option.splits)
  ultimately show ?thesis by (auto simp: flight_frame_def f1 acked_mem_def)
qed

lemma make_room_frame:
  assumes "flight_ok m f" "make_room n f m = (f1, m1)"
  shows "flight_frame f m f1 m1"
  using assms
proof (cases rule: make_room_cases)
  case enough
  then show ?thesis by (simp add: frame_refl)
next
  case (fresh c)
  then show ?thesis
    by (auto simp: flight_frame_def regs_def vec_drop_def split: option.splits)
next
  case (move c)
  then obtain r where "v_reg (fl_data f) = Some r" using assms(1) by (auto simp: flight_ok_def)
  with move show ?thesis
    by (auto simp: flight_frame_def regs_def retired_regs_def)
qed

lemma append_inv:
  assumes inv: "flight_inv m f S H" and ap: "append_data data f m = ((p, e), f1, m1)"
  shows "flight_inv m1 f1 (S @ data)
      (H \<union> {(length S + k, r, p + k) |k r. k < length data \<and> v_reg (fl_data f1) = Some r})"
    and "p = fl_start f1 + (length S - fl_offset f1)" and "fl_offset f1 \<le> length S"
    and "\<forall>b \<in> set (fl_retired f1). rb_end b \<le> length S"
    and "flight_frame f m f1 m1"
proof -
  obtain f0 m0 where mr: "make_room (length data) f m = (f0, m0)" by fastforce
  obtain v m2 where ex: "vec_extend (fl_data f0) data m0 = (v, m2)" by fastforce
  have i: "flight_inv m0 f0 S H" and room: "v_len (fl_data f0) + length data \<le> v_cap (fl_data f0)"
    using make_room_inv [OF inv mr] by auto
  have ok: "flight_ok m0 f0" using i by (simp add: flight_inv_def)
  note x = extend_in_place [OF ok room ex]
  have eqs: "p = v_len (fl_data f0)" "m1 = m2" "f1 = f0\<lparr>fl_data := v\<rparr>"
    using ap mr ex by (auto simp: append_data_def Let_def)
  have t: "f1 = truncate_unwritten ((v_len (fl_data f0) - fl_start f0) + length data) (f0\<lparr>fl_data := v\<rparr>)"
    using ok by (simp add: eqs truncate_unwritten_def x(1) flight_ok_def)
  have vr: "v_reg (fl_data f1) = v_reg (fl_data f0)" by (simp add: eqs x(1))
  show "flight_inv m1 f1 (S @ data)
      (H \<union> {(length S + k, r, p + k) |k r. k < length data \<and> v_reg (fl_data f1) = Some r})"
    using append_truncate_inv [OF i room ex order_refl t refl] by (simp add: eqs(1,2) vr)
  show "p = fl_start f1 + (length S - fl_offset f1)" "fl_offset f1 \<le> length S"
    "\<forall>b \<in> set (fl_retired f1). rb_end b \<le> length S"
    using i ok by (auto simp: eqs flight_inv_def flight_ok_def)
  have fr: "flight_frame f m f0 m0"
    using make_room_frame mr inv by (simp add: flight_inv_def)
  have rg: "regs f1 = regs f0" by (simp add: regs_def eqs x(1))
  have cur: "r \<in> set (regs f0)" if "v_reg (fl_data f0) = Some r" for r
    using that by (simp add: regs_def)
  have keep: "m_reg m1 r = m_reg m0 r" if "r \<notin> set (regs f0)" for r
    using that x(3) [of r] cur by (auto simp: eqs)
  have "m_reg m1 r = m_reg m r" if "r < m_next m" "r \<notin> set (regs f)" for r
  proof -
    have "r \<notin> set (regs f0)" using that fr by (auto simp: flight_frame_def)
    then show ?thesis using that fr keep by (simp add: flight_frame_def)
  qed
  then show "flight_frame f m f1 m1"
    using fr x(2) unfolding flight_frame_def rg eqs(2) by simp
qed

lemma truncate_inv:
  assumes inv: "flight_inv m f (S @ data) H" and a: "a \<le> length data" and o: "fl_offset f \<le> length S"
    and re: "\<forall>b \<in> set (fl_retired f). rb_end b \<le> length S"
    and h: "H1 \<subseteq> H" "\<forall>h \<in> H1. fst h < length S + a"
  shows "flight_inv m (truncate_unwritten (length S - fl_offset f + a) f) (S @ take a data) H1"
proof -
  let ?f = "truncate_unwritten (length S - fl_offset f + a) f"
  have ok: "flight_ok m f" and off: "fl_offset f + (v_len (fl_data f) - fl_start f) = length S + length data"
    and un: "unacked m f = drop (fl_offset f) (S @ data)" and bs: "\<forall>h \<in> H. byte_ok m f (S @ data) h"
    using inv by (auto simp: flight_inv_def)
  define n where "n = fl_start f + (length S - fl_offset f + a)"
  have f': "?f = f\<lparr>fl_data := (fl_data f)\<lparr>v_len := n\<rparr>\<rparr>" and n: "n \<le> v_len (fl_data f)"
    using a o off ok by (auto simp: truncate_unwritten_def n_def flight_ok_def)
  have rb: "region_bytes m (fl_data ?f) = region_bytes m (fl_data f)" "regs ?f = regs f"
    by (simp_all add: f' region_bytes_def regs_def)
  have ok1: "flight_ok m ?f"
    using ok n rb unfolding flight_ok_def by (simp add: f' n_def)
  have "unacked m ?f = take (n - fl_start f) (unacked m f)"
    using n unfolding unacked_def vec_bytes_def rb(1) by (simp add: f' drop_take)
  then have un1: "unacked m ?f = drop (fl_offset f) (S @ take a data)"
    using o by (simp add: un n_def)
  have "byte_ok m ?f (S @ take a data) h" if "h \<in> H1" for h
  proof -
    obtain k r i where hh: "h = (k, r, i)" by (cases h) auto
    have "byte_ok m f (S @ data) (k, r, i)" "k < length S + a" using that h bs hh by auto
    then show ?thesis using a by (auto simp: hh byte_ok_def f' nth_append)
  qed
  then show ?thesis
    using ok1 un1 o a re unfolding flight_inv_def f' by (auto simp: n_def)
qed

text \<open>The invariant of the per-connection state. \<open>S s\<close> are the bytes of stream \<open>s\<close> that ngtcp2 has taken,
  \<open>H s\<close> the places where it was told to find them. Every buffer is well formed, and no two streams
  share a region.\<close>

definition user_inv :: "ConnectionUserData \<Rightarrow> (StreamId \<Rightarrow> bytes) \<Rightarrow> (StreamId \<Rightarrow> placed set) \<Rightarrow> bool" where
  "user_inv d S H \<longleftrightarrow>
     (\<forall>s. case ud_in_flight d s of None \<Rightarrow> S s = [] \<and> H s = {}
          | Some f \<Rightarrow> flight_inv (ud_mem d) f (S s) (H s))
     \<and> (\<forall>s t f g. s \<noteq> t \<longrightarrow> ud_in_flight d s = Some f \<longrightarrow> ud_in_flight d t = Some g
          \<longrightarrow> set (regs f) \<inter> set (regs g) = {})"

lemma user_inv_flight:
  "user_inv d S H \<Longrightarrow> ud_in_flight d s = Some f \<Longrightarrow> flight_inv (ud_mem d) f (S s) (H s)"
  by (auto simp: user_inv_def dest!: spec [of _ s])

lemma user_inv_none: "user_inv d S H \<Longrightarrow> ud_in_flight d s = None \<Longrightarrow> S s = [] \<and> H s = {}"
  by (auto simp: user_inv_def dest!: spec [of _ s])

lemma user_inv_disjoint:
  "user_inv d S H \<Longrightarrow> s \<noteq> t \<Longrightarrow> ud_in_flight d s = Some f \<Longrightarrow> ud_in_flight d t = Some g
    \<Longrightarrow> set (regs f) \<inter> set (regs g) = {}"
  unfolding user_inv_def by blast

lemma user_inv_cong:
  "ud_in_flight d1 = ud_in_flight d \<Longrightarrow> ud_mem d1 = ud_mem d \<Longrightarrow> user_inv d1 S H = user_inv d S H"
  unfolding user_inv_def by (simp only:)

text \<open>A well-framed step of one buffer keeps the invariants of all others.\<close>

lemma user_inv_update:
  assumes inv: "user_inv d S H" and f: "(case ud_in_flight d s of None \<Rightarrow> f = in_flight_new | Some g \<Rightarrow> f = g)"
    and fr: "flight_frame f (ud_mem d) f1 m1" and new: "flight_inv m1 f1 T K"
    and d1: "ud_in_flight d1 = (ud_in_flight d)(s \<mapsto> f1)" "ud_mem d1 = m1"
  shows "user_inv d1 (S(s := T)) (H(s := K))"
proof -
  have old: "flight_inv m1 g (S t) (H t) \<and> set (regs g) \<inter> set (regs f1) = {}"
    if "t \<noteq> s" "ud_in_flight d t = Some g" for t g
  proof -
    have g: "flight_inv (ud_mem d) g (S t) (H t)" using user_inv_flight [OF inv that(2)] .
    have own: "\<forall>r \<in> set (regs g). r < m_next (ud_mem d)"
      using g by (auto simp: flight_inv_def flight_ok_def)
    have dis: "set (regs g) \<inter> set (regs f) = {}"
    proof (cases "ud_in_flight d s")
      case None
      then show ?thesis using f by (simp add: regs_def in_flight_new_def vec_new_def retired_regs_def)
    next
      case (Some h)
      then show ?thesis using f user_inv_disjoint [OF inv that(1,2) Some] by simp
    qed
    have "\<forall>r \<in> set (regs g). m_reg m1 r = m_reg (ud_mem d) r"
      using own dis fr by (auto simp: flight_frame_def)
    then have "flight_inv m1 g (S t) (H t)"
      using other_inv [OF g] fr by (simp add: flight_frame_def)
    moreover have "set (regs g) \<inter> set (regs f1) = {}"
      using own dis fr unfolding flight_frame_def by (fastforce dest: subsetD)
    ultimately show ?thesis by simp
  qed
  have dj: "False" if "s \<noteq> t" "ud_in_flight d t = Some g" "r \<in> set (regs f1)" "r \<in> set (regs g)" for t g r
    using old [of t g] that by auto
  show ?thesis
    unfolding user_inv_def d1 using new inv old
    by (auto split: option.splits dest: user_inv_none user_inv_disjoint [OF inv] dj)
qed

lemma acked_stream_data_inv:
  assumes inv: "user_inv d S H"
  shows "user_inv (acked_stream_data s off n d) S H"
proof (cases "ud_in_flight d s")
  case None
  then show ?thesis using inv by (simp add: acked_stream_data_def)
next
  case (Some f)
  let ?k = "sat_add64 (unat off) (unat n)"
  obtain f1 m1 where a: "ack_until ?k f (ud_mem d) = (f1, m1)" by fastforce
  have i: "flight_inv (ud_mem d) f (S s) (H s)" using user_inv_flight [OF inv Some] .
  have "user_inv (acked_stream_data s off n d) (S(s := S s)) (H(s := H s))"
    using ack_until_inv [OF i a] ack_until_frame [OF _ a] i Some
    by (intro user_inv_update [OF inv]) (auto simp: acked_stream_data_def a flight_inv_def)
  then show ?thesis by simp
qed

lemma closed_stream_inv:
  assumes inv: "user_inv d S H"
  shows "user_inv (closed_stream s d) (S(s := [])) (H(s := {}))"
proof (cases "ud_in_flight d s")
  case None
  then show ?thesis using inv user_inv_none [OF inv None] by (simp add: closed_stream_def fun_upd_idem)
next
  case (Some f)
  define m1 where "m1 = drop_in_flight f (ud_mem d)"
  have keep: "m_reg m1 r = m_reg (ud_mem d) r" if "r \<notin> set (regs f)" for r
  proof -
    have "v_reg (fl_data f) \<noteq> Some r" "\<And>b. b \<in> set (fl_retired f) \<Longrightarrow> v_reg (rb_data b) \<noteq> Some r"
      using that by (force simp: regs_def retired_regs_def)+
    then show ?thesis by (simp add: m1_def drop_in_flight_def fold_vec_drop_other vec_drop_other)
  qed
  have nx: "m_next m1 = m_next (ud_mem d)" by (simp add: m1_def drop_in_flight_def)
  have old: "flight_inv m1 g (S t) (H t)" if "t \<noteq> s" "ud_in_flight d t = Some g" for t g
    using other_inv [OF user_inv_flight [OF inv that(2)], of m1] nx keep
      user_inv_disjoint [OF inv that(1,2) Some] by auto
  have eq: "closed_stream s d = d\<lparr>ud_in_flight := (ud_in_flight d)(s := None), ud_mem := m1\<rparr>"
    by (simp add: closed_stream_def Some m1_def)
  show ?thesis
    unfolding user_inv_def eq using old inv
    by (auto split: option.splits dest: user_inv_none user_inv_disjoint [OF inv])
qed

text \<open>The effect of a callback on what ngtcp2 refers to: it forgets a stream that it closes.\<close>

fun cb_sent :: "callback \<Rightarrow> (StreamId \<Rightarrow> bytes) \<Rightarrow> StreamId \<Rightarrow> bytes" where
  "cb_sent (CbStreamClose _ s _ _) S = S(s := [])"
| "cb_sent _ S = S"

fun cb_held :: "callback \<Rightarrow> (StreamId \<Rightarrow> placed set) \<Rightarrow> StreamId \<Rightarrow> placed set" where
  "cb_held (CbStreamClose _ s _ _) H = H(s := {})"
| "cb_held _ H = H"

lemmas callback_defs = handshake_completed_callback_def handshake_confirmed_callback_def
  tls_early_data_rejected_callback_def stream_open_callback_def stream_close_callback_def
  stream_reset_callback_def recv_stop_sending_callback_def extend_max_stream_data_callback_def
  extend_max_local_streams_bidi_callback_def extend_max_local_streams_uni_callback_def
  recv_stream_data_callback_def recv_new_token_callback_def acked_stream_data_offset_callback_def
  recv_datagram_callback_def recv_stateless_reset_callback_def remove_connection_id_callback_def
  path_validation_callback_def get_new_connection_id_callback_def qlog_write_callback_def

lemma user_inv_push [simp]: "user_inv (push_event e d) = user_inv d"
  by (intro ext user_inv_cong) (simp_all add: push_event_def)

lemma run_callback_same:
  assumes "\<And>fl s rx tx. cb \<noteq> CbStreamClose fl s rx tx" "\<And>s k n. cb \<noteq> CbAcked s k n"
  shows "ud_in_flight (run_callback api cb d) = ud_in_flight d \<and> ud_mem (run_callback api cb d) = ud_mem d
    \<and> cb_sent cb S = S \<and> cb_held cb H = H"
proof (cases cb)
  case (CbStreamClose fl s rx tx)
  then show ?thesis using assms(1) by blast
next
  case (CbAcked s k n)
  then show ?thesis using assms(2) by blast
qed (simp_all add: callback_defs push_event_def split: option.split)

lemma run_callback_inv:
  assumes inv: "user_inv d S H"
  shows "user_inv (run_callback api cb d) (cb_sent cb S) (cb_held cb H)"
proof (cases cb)
  case (CbStreamClose fl s rx tx)
  then show ?thesis using closed_stream_inv [OF inv, of s] by (simp add: stream_close_callback_def)
next
  case (CbAcked s k n)
  then show ?thesis using acked_stream_data_inv [OF inv] by (simp add: acked_stream_data_offset_callback_def)
qed (use inv run_callback_same [of cb api d S H] user_inv_cong [of "run_callback api cb d" d S H] in simp)+

lemma run_callbacks_inv:
  "user_inv d S H \<Longrightarrow> user_inv (run_callbacks api cbs d) (fold cb_sent cbs S) (fold cb_held cbs H)"
  by (induction cbs arbitrary: d S H) (simp_all add: run_callbacks_def run_callback_inv)

section \<open>Properties\<close>

text \<open>The events a callback stands for.\<close>

fun cb_events :: "bool \<Rightarrow> callback \<Rightarrow> ConnectionEvent list" where
  "cb_events attempted (CbHandshakeCompleted a r) =
     (if attempted \<and> \<not> a \<and> r then [EarlyDataRejected, HandshakeCompleted] else [HandshakeCompleted])"
| "cb_events _ CbHandshakeConfirmed = [HandshakeConfirmed]"
| "cb_events _ CbEarlyDataRejected = [EarlyDataRejected]"
| "cb_events _ (CbStreamOpen s) = [StreamOpened s]"
| "cb_events _ (CbStreamClose f s rx tx) =
     [StreamClosed s (if f AND 1 \<noteq> 0 then Some rx else None) (if f AND 2 \<noteq> 0 then Some tx else None)]"
| "cb_events _ (CbStreamReset s n c) = [StreamReset s n c]"
| "cb_events _ (CbStopSending s c) = [StreamStopSending s c]"
| "cb_events _ (CbMaxStreamData s n) = [StreamMaxData s n]"
| "cb_events _ (CbMaxStreamsBidi n) = [MaxStreamsBidi n]"
| "cb_events _ (CbMaxStreamsUni n) = [MaxStreamsUni n]"
| "cb_events _ (CbStreamData f s (Some bs)) = [StreamData s bs (f AND 1 \<noteq> 0)]"
| "cb_events _ (CbDatagram (Some bs)) = [Datagram bs]"
| "cb_events _ CbStatelessReset = [StatelessResetReceived]"
| "cb_events _ (CbPathValidation p ok) =
     (case path_info_from_raw p of None \<Rightarrow> [] | Some i \<Rightarrow> [PathValidated i ok])"
| "cb_events _ _ = []"

lemma run_callback_events:
  "ud_events (run_callback api cb d) = ud_events d @ cb_events (ud_early_data_attempted d) cb
    \<and> ud_early_data_attempted (run_callback api cb d) = ud_early_data_attempted d"
  by (cases "(ud_early_data_attempted d, cb)" rule: cb_events.cases)
     (auto simp: callback_defs push_event_def closed_stream_def acked_stream_data_def split: option.splits prod.splits)


text \<open>The reset token announced with a connection ID is the one the endpoint later derives from its
  secret for that ID, so a Stateless Reset sent after the connection state is gone is recognised by
  the peer; the ID is recorded for routing exactly when the callback succeeds.\<close>

lemma issued_cid_token:
  assumes "get_new_connection_id_callback api (Some bs) tk d = ((rv, c, t), d1)"
    and "length bs \<le> NGTCP2_MAX_CIDLEN"
    and "ud_stateless_reset_secret d = Some secret"
    and "reset_token api secret (ConnectionId bs) = Some token"
  shows "rv = 0 \<and> c = bs \<and> t = token_bytes token
    \<and> ud_issued_cids d1 = ud_issued_cids d @ [ConnectionId bs]"
  using assms by (auto simp: get_new_connection_id_callback_def cid_new_def)

end
