(* ===== verification/Conn.thy ===== *)
theory Conn
  imports Callbacks Tls Utf8
begin

unbundle bit_operations_syntax

text \<open>
  A QUIC connection (\<^verbatim>\<open>Connection\<close> in \<^verbatim>\<open>src/ngtcp2/src/conn.rs\<close>): a C object of ngtcp2, the state its
  callbacks update and the TLS session. The C functions are fields of the record \<open>conn_api\<close>. The C
  object is an opaque value \<open>'c\<close>, an \<^verbatim>\<open>SSL\<close> an opaque value \<open>'s\<close>, and a call that may change them returns a
  \<open>c_step\<close>: the result code, both objects after the call, the callbacks it made in order and the session
  tickets that arrived. Calls that only set a parameter or queue a frame (\<^verbatim>\<open>ngtcp2_conn_submit_new_token\<close>,
  the flow-control extensions) make no callback and return the C object. A function that writes a packet returns a \<open>c_write\<close> with the buffer, the ECN
  field, the path and the byte count (or flag) it stored. A handle in \<open>conn_heap\<close> stands for the
  allocation that \<^verbatim>\<open>ngtcp2_conn_del\<close> frees. \<^verbatim>\<open>tls_session\<close> is present from construction to drop and is
  modelled without its \<^verbatim>\<open>Option\<close>; pointer plumbing (\<^verbatim>\<open>conn_ref\<close>, \<^verbatim>\<open>user_data\<close>) has no effect on values.
\<close>

section \<open>The C functions\<close>

record ('c, 's) c_step =
  cs_rv :: int
  cs_conn :: 'c
  cs_ssl :: 's
  cs_cbs :: "callback list"
  cs_tickets :: "bytes option list"

record ('c, 's) c_write = "('c, 's) c_step" +
  cw_buf :: bytes
  cw_ecn :: byte
  cw_path :: ngtcp2_path
  cw_datalen :: int

record raw_ccerr =
  ce_type :: nat
  ce_error_code :: u64
  ce_reason :: "bytes option"

abbreviation (input) NGTCP2_CCERR_TYPE_TRANSPORT :: nat where "NGTCP2_CCERR_TYPE_TRANSPORT \<equiv> 0"
abbreviation (input) NGTCP2_CCERR_TYPE_APPLICATION :: nat where "NGTCP2_CCERR_TYPE_APPLICATION \<equiv> 1"
abbreviation (input) NGTCP2_CCERR_TYPE_IDLE_CLOSE :: nat where "NGTCP2_CCERR_TYPE_IDLE_CLOSE \<equiv> 3"
abbreviation (input) NGTCP2_ERR_INVALID_STATE :: int where "NGTCP2_ERR_INVALID_STATE \<equiv> - 204"
abbreviation (input) NGTCP2_WRITE_STREAM_FLAG_FIN :: u32 where "NGTCP2_WRITE_STREAM_FLAG_FIN \<equiv> 2"
abbreviation (input) NGTCP2_SHUT_STREAM_FLAG_FLUSH :: u32 where "NGTCP2_SHUT_STREAM_FLAG_FLUSH \<equiv> 1"

text \<open>The stream data handed to ngtcp2: the region and index of its first byte, and the bytes.\<close>

type_synonym c_vec = "(nat option \<times> nat) \<times> bytes"

record ('c, 's) conn_api = stateless_api +
  default_settings :: raw_settings
  conn_client_new :: "ngtcp2_cid \<Rightarrow> ngtcp2_cid \<Rightarrow> ngtcp2_path \<Rightarrow> u32 \<Rightarrow> raw_settings
     \<Rightarrow> raw_transport_params \<Rightarrow> int \<times> 'c \<times> callback list"
  conn_server_new :: "ngtcp2_cid \<Rightarrow> ngtcp2_cid \<Rightarrow> ngtcp2_path \<Rightarrow> u32 \<Rightarrow> raw_settings
     \<Rightarrow> raw_transport_params \<Rightarrow> int \<times> 'c \<times> callback list"
  conn_set_keep_alive_timeout :: "'c \<Rightarrow> u64 \<Rightarrow> 'c"
  conn_set_tls_native_handle :: "'c \<Rightarrow> 'c"
  conn_encode_local_transport_params :: "'c \<Rightarrow> nat \<Rightarrow> int \<times> bytes"
  conn_encode_0rtt_transport_params2 :: "'c \<Rightarrow> nat \<Rightarrow> int \<times> bytes"
  conn_decode_and_set_0rtt_transport_params :: "'c \<Rightarrow> bytes \<Rightarrow> int \<times> 'c"
  conn_read_pkt :: "'c \<Rightarrow> 's \<Rightarrow> ngtcp2_path \<Rightarrow> byte \<Rightarrow> bytes \<Rightarrow> u64 \<Rightarrow> ('c, 's) c_step"
  conn_write_pkt :: "'c \<Rightarrow> 's \<Rightarrow> bytes \<Rightarrow> u64 \<Rightarrow> ('c, 's) c_write"
  conn_writev_stream :: "'c \<Rightarrow> 's \<Rightarrow> bytes \<Rightarrow> u32 \<Rightarrow> StreamId \<Rightarrow> c_vec \<Rightarrow> u64 \<Rightarrow> ('c, 's) c_write"
  conn_writev_datagram :: "'c \<Rightarrow> 's \<Rightarrow> bytes \<Rightarrow> bytes \<Rightarrow> u64 \<Rightarrow> ('c, 's) c_write"
  conn_write_connection_close :: "'c \<Rightarrow> 's \<Rightarrow> bytes \<Rightarrow> raw_ccerr \<Rightarrow> u64 \<Rightarrow> ('c, 's) c_write"
  conn_initiate_migration :: "'c \<Rightarrow> 's \<Rightarrow> ngtcp2_path \<Rightarrow> u64 \<Rightarrow> ('c, 's) c_step"
  conn_initiate_immediate_migration :: "'c \<Rightarrow> 's \<Rightarrow> ngtcp2_path \<Rightarrow> u64 \<Rightarrow> ('c, 's) c_step"
  conn_submit_new_token :: "'c \<Rightarrow> bytes \<Rightarrow> int \<times> 'c"
  conn_open_bidi_stream :: "'c \<Rightarrow> 's \<Rightarrow> ('c, 's) c_step \<times> StreamId"
  conn_open_uni_stream :: "'c \<Rightarrow> 's \<Rightarrow> ('c, 's) c_step \<times> StreamId"
  conn_shutdown_stream :: "'c \<Rightarrow> 's \<Rightarrow> u32 \<Rightarrow> StreamId \<Rightarrow> u64 \<Rightarrow> ('c, 's) c_step"
  conn_shutdown_stream_write :: "'c \<Rightarrow> 's \<Rightarrow> u32 \<Rightarrow> StreamId \<Rightarrow> u64 \<Rightarrow> ('c, 's) c_step"
  conn_shutdown_stream_read :: "'c \<Rightarrow> 's \<Rightarrow> u32 \<Rightarrow> StreamId \<Rightarrow> u64 \<Rightarrow> ('c, 's) c_step"
  conn_extend_max_stream_offset :: "'c \<Rightarrow> 's \<Rightarrow> StreamId \<Rightarrow> u64 \<Rightarrow> ('c, 's) c_step"
  conn_extend_max_offset :: "'c \<Rightarrow> u64 \<Rightarrow> 'c"
  conn_extend_max_streams_bidi :: "'c \<Rightarrow> nat \<Rightarrow> 'c"
  conn_extend_max_streams_uni :: "'c \<Rightarrow> nat \<Rightarrow> 'c"
  conn_get_expiry :: "'c \<Rightarrow> u64"
  conn_handle_expiry :: "'c \<Rightarrow> 's \<Rightarrow> u64 \<Rightarrow> ('c, 's) c_step"
  conn_initiate_key_update :: "'c \<Rightarrow> 's \<Rightarrow> u64 \<Rightarrow> ('c, 's) c_step"
  conn_in_closing_period :: "'c \<Rightarrow> bool"
  conn_in_draining_period :: "'c \<Rightarrow> bool"
  conn_get_negotiated_version :: "'c \<Rightarrow> u32"
  conn_get_handshake_completed :: "'c \<Rightarrow> bool"
  conn_get_tls_early_data_rejected2 :: "'c \<Rightarrow> bool"
  conn_get_path2 :: "'c \<Rightarrow> ngtcp2_path option"
  conn_get_ccerr :: "'c \<Rightarrow> raw_ccerr option"
  conn_get_max_data_left2 :: "'c \<Rightarrow> u64"
  conn_get_max_stream_data_left2 :: "'c \<Rightarrow> StreamId \<Rightarrow> u64"
  conn_get_streams_bidi_left2 :: "'c \<Rightarrow> u64"
  conn_get_streams_uni_left2 :: "'c \<Rightarrow> u64"
  conn_get_cwnd_left2 :: "'c \<Rightarrow> u64"
  conn_get_conn_info2 :: "'c \<Rightarrow> raw_conn_info"
  conn_get_remote_transport_params :: "'c \<Rightarrow> raw_transport_params option"

section \<open>Connections\<close>

record ConnectionError =
  cerr_error_code :: u64
  cerr_reason :: bytes
  cerr_is_application :: bool
  cerr_has_error :: bool

record SessionTicket =
  st_session :: bytes
  st_transport_params :: bytes

record ('c, 's) Connection =
  c_handle :: nat
  c_inner :: 'c
  c_user_data :: ConnectionUserData
  c_tls :: "'s TlsSession"

record conn_heap =
  live_conn :: "nat list"
  next_conn :: nat

definition conn_alloc :: "conn_heap \<Rightarrow> nat \<times> conn_heap" where
  "conn_alloc h = (next_conn h, h\<lparr>live_conn := next_conn h # live_conn h, next_conn := Suc (next_conn h)\<rparr>)"

definition conn_del :: "nat \<Rightarrow> conn_heap \<Rightarrow> conn_heap" where
  "conn_del n h = h\<lparr>live_conn := removeAll n (live_conn h)\<rparr>"

text \<open>The effect of a C call on a connection: both C objects change, the callbacks run on the user data,
  arriving tickets go to the slot.\<close>

definition c_apply :: "('c, 's, 'z) conn_api_scheme \<Rightarrow> ('c, 's, 'y) c_step_scheme
    \<Rightarrow> ('c, 's) Connection \<Rightarrow> ('c, 's) Connection" where
  "c_apply api out c = c\<lparr>c_inner := cs_conn out,
     c_user_data := run_callbacks api (cs_cbs out) (c_user_data c),
     c_tls := (c_tls c)\<lparr>ts_ssl := cs_ssl out,
        ts_ticket_slot := fold (\<lambda>t slot. new_session_callback slot t) (cs_tickets out) (ts_ticket_slot (c_tls c))\<rparr>\<rparr>"

abbreviation (input) c_ssl :: "('c, 's) Connection \<Rightarrow> 's" where "c_ssl c \<equiv> ts_ssl (c_tls c)"

section \<open>The callback tables\<close>

text \<open>The slots of \<^verbatim>\<open>ngtcp2_callbacks\<close> that are filled; those of the crypto helper library are listed for
  completeness.\<close>

definition application_callbacks :: "string list" where
  "application_callbacks =
    [''handshake_completed'', ''handshake_confirmed'', ''tls_early_data_rejected'', ''stream_open'',
     ''stream_close2'', ''stream_reset'', ''recv_stop_sending'', ''extend_max_stream_data'',
     ''extend_max_local_streams_bidi'', ''extend_max_local_streams_uni'', ''recv_stream_data'',
     ''recv_new_token'', ''acked_stream_data_offset'', ''recv_datagram'', ''recv_stateless_reset2'',
     ''remove_connection_id'', ''path_validation'', ''select_preferred_addr'']"

definition create_client_callbacks :: "string list" where
  "create_client_callbacks =
    [''client_initial'', ''recv_crypto_data'', ''encrypt'', ''decrypt'', ''hp_mask'', ''recv_retry'',
     ''update_key'', ''delete_crypto_aead_ctx'', ''delete_crypto_cipher_ctx'', ''get_path_challenge_data'',
     ''version_negotiation''] @ application_callbacks @ [''rand'', ''get_new_connection_id'']"

definition create_server_callbacks :: "string list" where
  "create_server_callbacks =
    [''recv_client_initial'', ''recv_crypto_data'', ''encrypt'', ''decrypt'', ''hp_mask'',
     ''update_key'', ''delete_crypto_aead_ctx'', ''delete_crypto_cipher_ctx'', ''get_path_challenge_data'',
     ''version_negotiation''] @ application_callbacks @ [''rand'', ''get_new_connection_id'']"

section \<open>Construction\<close>

text \<open>\<^verbatim>\<open>timeout.as_nanos() as u64\<close> keeps the low 64 bits.\<close>

definition finish_new :: "('c, 's, 'z) conn_api_scheme \<Rightarrow> 's ssl_api \<Rightarrow> nat \<Rightarrow> 'c \<Rightarrow> ConnectionUserData
    \<Rightarrow> 's TlsSession \<Rightarrow> Settings \<Rightarrow> conn_heap \<Rightarrow> ('c, 's) Connection result \<times> conn_heap" where
  "finish_new api ssl handle conn d t settings h =
    (let conn = (case s_keep_alive_timeout settings of None \<Rightarrow> conn
                 | Some timeout \<Rightarrow> conn_set_keep_alive_timeout api conn (word_of_nat timeout));
         conn = conn_set_tls_native_handle api conn;
         (tp_len, tp_buf) = conn_encode_local_transport_params api conn 512
     in if tp_len < 0 then (Err (from_ngtcp2 (strerror api) tp_len), conn_del handle h)
        else case set_quic_transport_params ssl (take (nat tp_len) tp_buf) t of
          (Inl e, _) \<Rightarrow> (Err e, conn_del handle h)
        | (Inr _, t) \<Rightarrow>
          if ts_accept_early_data t then
            let (ctx_len, ctx_buf) = conn_encode_0rtt_transport_params2 api conn 512 in
            if ctx_len < 0 then (Err (from_ngtcp2 (strerror api) ctx_len), conn_del handle h)
            else case set_quic_early_data_context ssl (take (nat ctx_len) ctx_buf) t of
              (Inl e, _) \<Rightarrow> (Err e, conn_del handle h)
            | (Inr _, t) \<Rightarrow> (Ok \<lparr>c_handle = handle, c_inner = conn, c_user_data = d, c_tls = t\<rparr>, h)
          else (Ok \<lparr>c_handle = handle, c_inner = conn, c_user_data = d, c_tls = t\<rparr>, h))"

definition new_user_data :: "Settings \<Rightarrow> mem \<Rightarrow> ConnectionUserData" where
  "new_user_data settings m =
    (user_data_new m)\<lparr>ud_stateless_reset_secret := s_stateless_reset_secret settings\<rparr>"

definition conn_path :: "SocketAddr \<Rightarrow> SocketAddr \<Rightarrow> ngtcp2_path" where
  "conn_path local_addr remote_addr = raw_path \<lparr>path_local = local_addr, path_remote = remote_addr\<rparr>"

definition client_new :: "('c, 's, 'z) conn_api_scheme \<Rightarrow> 's ssl_api \<Rightarrow> (string \<Rightarrow> bytes option) \<Rightarrow> mem
    \<Rightarrow> cid \<Rightarrow> cid \<Rightarrow> SocketAddr \<Rightarrow> SocketAddr \<Rightarrow> QuicVersion \<Rightarrow> string \<Rightarrow> 's TlsSession \<Rightarrow> TransportParams
    \<Rightarrow> Settings \<Rightarrow> conn_heap \<Rightarrow> ('c, 's) Connection result \<times> conn_heap" where
  "client_new api ssl parse_ip m dcid scid local_addr remote_addr version server_name t params settings h =
    (if has_original_dcid params
     then (Err (InvalidArgument ''original_dcid must not be set for a client connection''), h)
     else case set_server_name ssl parse_ip server_name t of
       (Inl e, _) \<Rightarrow> (Err e, h)
     | (Inr _, t) \<Rightarrow>
       (case configure_peer_ip_verification ssl t of
          (Inl e, _) \<Rightarrow> (Err e, h)
        | (Inr _, t) \<Rightarrow>
          let (rv, conn, cbs) = conn_client_new api (raw_of dcid) (raw_of scid)
                (conn_path local_addr remote_addr) (as_u32 version)
                (settings_to_raw (default_settings api) settings) params;
              d = run_callbacks api cbs (new_user_data settings m)
          in if rv < 0 then (Err (from_ngtcp2 (strerror api) rv), h)
             else let (handle, h) = conn_alloc h in finish_new api ssl handle conn d t settings h))"

definition conn_drop :: "('c, 's) Connection \<Rightarrow> conn_heap \<Rightarrow> conn_heap" where
  "conn_drop c h = conn_del (c_handle c) h"

text \<open>The early return after \<^verbatim>\<open>client_new\<close> succeeded drops the connection.\<close>

definition client_new_with_0rtt :: "('c, 's, 'z) conn_api_scheme \<Rightarrow> 's ssl_api \<Rightarrow> (string \<Rightarrow> bytes option) \<Rightarrow> mem
    \<Rightarrow> cid \<Rightarrow> cid \<Rightarrow> SocketAddr \<Rightarrow> SocketAddr \<Rightarrow> QuicVersion \<Rightarrow> string \<Rightarrow> 's TlsSession \<Rightarrow> TransportParams
    \<Rightarrow> Settings \<Rightarrow> SessionTicket \<Rightarrow> conn_heap \<Rightarrow> ('c, 's) Connection result \<times> conn_heap" where
  "client_new_with_0rtt api ssl parse_ip m dcid scid local_addr remote_addr version server_name t params
      settings ticket h =
    (case set_session ssl (st_session ticket) t of
       (Inl e, _) \<Rightarrow> (Err e, h)
     | (Inr early_data, t) \<Rightarrow>
       (case client_new api ssl parse_ip m dcid scid local_addr remote_addr version server_name t params settings h of
          (Inl e, h) \<Rightarrow> (Err e, h)
        | (Inr c, h) \<Rightarrow>
          let (rv, inner) = conn_decode_and_set_0rtt_transport_params api (c_inner c) (st_transport_params ticket)
          in if rv \<noteq> 0
             then (Err (InvalidArgument (''invalid 0-RTT transport params: '' @ error_display (from_ngtcp2 (strerror api) rv))),
                   conn_drop c h)
             else (Ok (c\<lparr>c_inner := inner,
                         c_user_data := (c_user_data c)\<lparr>ud_early_data_attempted := early_data\<rparr>\<rparr>), h)))"

definition server_new :: "('c, 's, 'z) conn_api_scheme \<Rightarrow> 's ssl_api \<Rightarrow> mem \<Rightarrow> cid \<Rightarrow> cid \<Rightarrow> SocketAddr
    \<Rightarrow> SocketAddr \<Rightarrow> QuicVersion \<Rightarrow> 's TlsSession \<Rightarrow> TransportParams \<Rightarrow> Settings \<Rightarrow> conn_heap
    \<Rightarrow> ('c, 's) Connection result \<times> conn_heap" where
  "server_new api ssl m dcid scid local_addr remote_addr version t params settings h =
    (if \<not> has_original_dcid params
     then (Err (InvalidArgument ''original_dcid is required for a server connection''), h)
     else
       let (rv, conn, cbs) = conn_server_new api (raw_of dcid) (raw_of scid)
             (conn_path local_addr remote_addr) (as_u32 version)
             (settings_to_raw (default_settings api) settings) params;
           d = run_callbacks api cbs (new_user_data settings m)
       in if rv < 0 then (Err (from_ngtcp2 (strerror api) rv), h)
          else let (handle, h) = conn_alloc h in finish_new api ssl handle conn d t settings h)"

section \<open>Packets\<close>

definition read_pkt :: "('c, 's, 'z) conn_api_scheme \<Rightarrow> PathInfo \<Rightarrow> PacketInfo \<Rightarrow> bytes \<Rightarrow> u64
    \<Rightarrow> ('c, 's) Connection \<Rightarrow> unit result \<times> ('c, 's) Connection" where
  "read_pkt api path pkt_info data ts c =
    (let out = conn_read_pkt api (c_inner c) (c_ssl c) (raw_path path) (pi_ecn pkt_info) data ts
     in (check_ngtcp2 (strerror api) (cs_rv out), c_apply api out c))"

text \<open>The path is read only when a packet was written.\<close>

definition packet_path :: "('c, 's, 'y) c_write_scheme \<Rightarrow> PathInfo option" where
  "packet_path out = (if cs_rv out > 0 then path_info_from_raw (Some (cw_path out)) else None)"

definition write_pkt :: "('c, 's, 'z) conn_api_scheme \<Rightarrow> bytes \<Rightarrow> u64 \<Rightarrow> ('c, 's) Connection
    \<Rightarrow> (nat \<times> PacketInfo \<times> PathInfo option) result \<times> bytes \<times> ('c, 's) Connection" where
  "write_pkt api buf ts c =
    (let out = conn_write_pkt api (c_inner c) (c_ssl c) buf ts
     in (if cs_rv out < 0 then Err (from_ngtcp2 (strerror api) (cs_rv out))
         else Ok (nat (cs_rv out), \<lparr>pi_ecn = cw_ecn out\<rparr>, packet_path out), cw_buf out, c_apply api out c))"

text \<open>The part of \<^verbatim>\<open>write_stream_with_flags\<close> before the C call: the data is appended to the buffer of the
  stream, which is created when there is none, and offered from there.\<close>

definition append_in_flight :: "StreamId \<Rightarrow> bytes \<Rightarrow> ConnectionUserData \<Rightarrow> nat \<times> c_vec \<times> ConnectionUserData" where
  "append_in_flight stream_id data d =
    (let entry = (case ud_in_flight d stream_id of None \<Rightarrow> in_flight_new | Some e \<Rightarrow> e);
         ((s, e), entry, m) = append_data data entry (ud_mem d)
     in (s, ((v_reg (fl_data entry), s), take (e - s) (drop s (vec_bytes m (fl_data entry)))),
         d\<lparr>ud_in_flight := (ud_in_flight d)(stream_id \<mapsto> entry), ud_mem := m\<rparr>))"

text \<open>The part after the C call: what was not written is dropped from the buffer, if it still exists.\<close>

definition truncate_in_flight :: "StreamId \<Rightarrow> nat \<Rightarrow> nat option \<Rightarrow> ConnectionUserData \<Rightarrow> ConnectionUserData" where
  "truncate_in_flight stream_id appended_start data_written d =
    (case ud_in_flight d stream_id of
       None \<Rightarrow> d
     | Some entry \<Rightarrow>
         let written = (case data_written of None \<Rightarrow> 0 | Some n \<Rightarrow> n)
         in d\<lparr>ud_in_flight := (ud_in_flight d)(stream_id \<mapsto>
               truncate_unwritten ((appended_start - fl_start entry) + written) entry)\<rparr>)"

definition write_stream_with_flags :: "('c, 's, 'z) conn_api_scheme \<Rightarrow> bytes \<Rightarrow> StreamId \<Rightarrow> bytes \<Rightarrow> bool
    \<Rightarrow> u64 \<Rightarrow> u32 \<Rightarrow> ('c, 's) Connection
    \<Rightarrow> (nat \<times> nat option \<times> PathInfo option \<times> PacketInfo) result \<times> bytes \<times> ('c, 's) Connection" where
  "write_stream_with_flags api buf stream_id data fin ts flags c =
    (let (s, offered, d) = append_in_flight stream_id data (c_user_data c);
         c = c\<lparr>c_user_data := d\<rparr>;
         flags = (if fin then flags OR NGTCP2_WRITE_STREAM_FLAG_FIN else flags);
         out = conn_writev_stream api (c_inner c) (c_ssl c) buf flags stream_id offered ts;
         c = c_apply api out c;
         data_written = (if cw_datalen out \<ge> 0 then Some (nat (cw_datalen out)) else None);
         c = c\<lparr>c_user_data := truncate_in_flight stream_id s data_written (c_user_data c)\<rparr>;
         rv = cs_rv out
     in (if rv = NGTCP2_ERR_WRITE_MORE then Ok (0, data_written, None, \<lparr>pi_ecn = cw_ecn out\<rparr>)
         else if rv = NGTCP2_ERR_STREAM_DATA_BLOCKED then Err (StreamDataBlocked stream_id)
         else if rv = NGTCP2_ERR_STREAM_SHUT_WR then Err (StreamShutWr stream_id)
         else if rv < 0 then Err (from_ngtcp2 (strerror api) rv)
         else Ok (nat rv, data_written, packet_path out, \<lparr>pi_ecn = cw_ecn out\<rparr>), cw_buf out, c))"

definition write_stream :: "('c, 's, 'z) conn_api_scheme \<Rightarrow> bytes \<Rightarrow> StreamId \<Rightarrow> bytes \<Rightarrow> bool
    \<Rightarrow> u64 \<Rightarrow> ('c, 's) Connection
    \<Rightarrow> (nat \<times> nat option \<times> PathInfo option \<times> PacketInfo) result \<times> bytes \<times> ('c, 's) Connection" where
  "write_stream api buf stream_id data fin ts c = write_stream_with_flags api buf stream_id data fin ts 0 c"

definition remote_transport_params :: "('c, 's, 'z) conn_api_scheme \<Rightarrow> ('c, 's) Connection
    \<Rightarrow> RemoteTransportParams option" where
  "remote_transport_params api c = map_option remote_from_raw (conn_get_remote_transport_params api (c_inner c))"

definition supports_reset_stream_at :: "('c, 's, 'z) conn_api_scheme \<Rightarrow> ('c, 's) Connection \<Rightarrow> bool" where
  "supports_reset_stream_at api c =
    (case remote_transport_params api c of None \<Rightarrow> False | Some p \<Rightarrow> rp_reset_stream_at p)"

definition can_send_datagram :: "('c, 's, 'z) conn_api_scheme \<Rightarrow> ('c, 's) Connection \<Rightarrow> bool" where
  "can_send_datagram api c =
    (case remote_transport_params api c of None \<Rightarrow> False | Some p \<Rightarrow> rp_max_datagram_frame_size p > 0)"

definition write_datagram :: "('c, 's, 'z) conn_api_scheme \<Rightarrow> bytes \<Rightarrow> bytes \<Rightarrow> u64 \<Rightarrow> ('c, 's) Connection
    \<Rightarrow> (nat \<times> bool \<times> PathInfo option \<times> PacketInfo) result \<times> bytes \<times> ('c, 's) Connection" where
  "write_datagram api buf data ts c =
    (if \<not> can_send_datagram api c
     then (Err (Ngtcp2 ''ERR_INVALID_STATE: remote peer does not support DATAGRAM'' NGTCP2_ERR_INVALID_STATE), buf, c)
     else
       let out = conn_writev_datagram api (c_inner c) (c_ssl c) buf data ts
       in (if cs_rv out < 0 then Err (from_ngtcp2 (strerror api) (cs_rv out))
           else Ok (nat (cs_rv out), cw_datalen out \<noteq> 0, packet_path out, \<lparr>pi_ecn = cw_ecn out\<rparr>),
           cw_buf out, c_apply api out c))"

definition write_ccerr :: "('c, 's, 'z) conn_api_scheme \<Rightarrow> bytes \<Rightarrow> raw_ccerr \<Rightarrow> u64 \<Rightarrow> ('c, 's) Connection
    \<Rightarrow> nat result \<times> bytes \<times> ('c, 's) Connection" where
  "write_ccerr api buf ccerr ts c =
    (let out = conn_write_connection_close api (c_inner c) (c_ssl c) buf ccerr ts
     in (if cs_rv out < 0 then Err (from_ngtcp2 (strerror api) (cs_rv out)) else Ok (nat (cs_rv out)),
         cw_buf out, c_apply api out c))"

definition conn_write_close :: "('c, 's, 'z) conn_api_scheme \<Rightarrow> bytes \<Rightarrow> u64 \<Rightarrow> bytes \<Rightarrow> u64 \<Rightarrow> ('c, 's) Connection
    \<Rightarrow> nat result \<times> bytes \<times> ('c, 's) Connection" where
  "conn_write_close api buf error_code reason ts c =
    write_ccerr api buf \<lparr>ce_type = NGTCP2_CCERR_TYPE_TRANSPORT, ce_error_code = error_code, ce_reason = Some reason\<rparr> ts c"

definition write_connection_close_app :: "('c, 's, 'z) conn_api_scheme \<Rightarrow> bytes \<Rightarrow> u64 \<Rightarrow> bytes \<Rightarrow> u64
    \<Rightarrow> ('c, 's) Connection \<Rightarrow> nat result \<times> bytes \<times> ('c, 's) Connection" where
  "write_connection_close_app api buf error_code reason ts c =
    write_ccerr api buf \<lparr>ce_type = NGTCP2_CCERR_TYPE_APPLICATION, ce_error_code = error_code, ce_reason = Some reason\<rparr> ts c"

section \<open>Paths, streams, flow control and timers\<close>

text \<open>An operation that is one C call returning a code.\<close>

definition c_call :: "('c, 's, 'z) conn_api_scheme \<Rightarrow> ('c, 's) c_step \<Rightarrow> ('c, 's) Connection \<Rightarrow> unit result \<times> ('c, 's) Connection" where
  "c_call api out c = (check_ngtcp2 (strerror api) (cs_rv out), c_apply api out c)"

definition initiate_migration :: "('c, 's, 'z) conn_api_scheme \<Rightarrow> PathInfo \<Rightarrow> u64 \<Rightarrow> ('c, 's) Connection \<Rightarrow> unit result \<times> ('c, 's) Connection" where
  "initiate_migration api path ts c = c_call api (conn_initiate_migration api (c_inner c) (c_ssl c) (raw_path path) ts) c"

definition initiate_immediate_migration :: "('c, 's, 'z) conn_api_scheme \<Rightarrow> PathInfo \<Rightarrow> u64 \<Rightarrow> ('c, 's) Connection \<Rightarrow> unit result \<times> ('c, 's) Connection" where
  "initiate_immediate_migration api path ts c = c_call api (conn_initiate_immediate_migration api (c_inner c) (c_ssl c) (raw_path path) ts) c"

definition submit_new_token :: "('c, 's, 'z) conn_api_scheme \<Rightarrow> bytes \<Rightarrow> ('c, 's) Connection \<Rightarrow> unit result \<times> ('c, 's) Connection" where
  "submit_new_token api token c =
    (let (rv, inner) = conn_submit_new_token api (c_inner c) token
     in (check_ngtcp2 (strerror api) rv, c\<lparr>c_inner := inner\<rparr>))"

definition shutdown_stream :: "('c, 's, 'z) conn_api_scheme \<Rightarrow> StreamId \<Rightarrow> u64 \<Rightarrow> ('c, 's) Connection \<Rightarrow> unit result \<times> ('c, 's) Connection" where
  "shutdown_stream api stream_id error_code c = c_call api (conn_shutdown_stream api (c_inner c) (c_ssl c) 0 stream_id error_code) c"

definition shutdown_stream_write :: "('c, 's, 'z) conn_api_scheme \<Rightarrow> StreamId \<Rightarrow> u64 \<Rightarrow> ('c, 's) Connection \<Rightarrow> unit result \<times> ('c, 's) Connection" where
  "shutdown_stream_write api stream_id error_code c = c_call api (conn_shutdown_stream_write api (c_inner c) (c_ssl c) 0 stream_id error_code) c"

definition shutdown_stream_write_reliable :: "('c, 's, 'z) conn_api_scheme \<Rightarrow> StreamId \<Rightarrow> u64 \<Rightarrow> ('c, 's) Connection \<Rightarrow> unit result \<times> ('c, 's) Connection" where
  "shutdown_stream_write_reliable api stream_id error_code c = c_call api (conn_shutdown_stream_write api (c_inner c) (c_ssl c) NGTCP2_SHUT_STREAM_FLAG_FLUSH stream_id error_code) c"

definition shutdown_stream_read :: "('c, 's, 'z) conn_api_scheme \<Rightarrow> StreamId \<Rightarrow> u64 \<Rightarrow> ('c, 's) Connection \<Rightarrow> unit result \<times> ('c, 's) Connection" where
  "shutdown_stream_read api stream_id error_code c = c_call api (conn_shutdown_stream_read api (c_inner c) (c_ssl c) 0 stream_id error_code) c"

definition extend_max_stream_offset :: "('c, 's, 'z) conn_api_scheme \<Rightarrow> StreamId \<Rightarrow> u64 \<Rightarrow> ('c, 's) Connection \<Rightarrow> unit result \<times> ('c, 's) Connection" where
  "extend_max_stream_offset api stream_id datalen c = c_call api (conn_extend_max_stream_offset api (c_inner c) (c_ssl c) stream_id datalen) c"

definition handle_expiry :: "('c, 's, 'z) conn_api_scheme \<Rightarrow> u64 \<Rightarrow> ('c, 's) Connection \<Rightarrow> unit result \<times> ('c, 's) Connection" where
  "handle_expiry api ts c = c_call api (conn_handle_expiry api (c_inner c) (c_ssl c) ts) c"

definition open_bidi_stream :: "('c, 's, 'z) conn_api_scheme \<Rightarrow> ('c, 's) Connection \<Rightarrow> StreamId result \<times> ('c, 's) Connection" where
  "open_bidi_stream api c =
    (let (out, stream_id) = conn_open_bidi_stream api (c_inner c) (c_ssl c)
     in (case check_ngtcp2 (strerror api) (cs_rv out) of Inl e \<Rightarrow> Err e | Inr _ \<Rightarrow> Ok stream_id, c_apply api out c))"

definition open_uni_stream :: "('c, 's, 'z) conn_api_scheme \<Rightarrow> ('c, 's) Connection \<Rightarrow> StreamId result \<times> ('c, 's) Connection" where
  "open_uni_stream api c =
    (let (out, stream_id) = conn_open_uni_stream api (c_inner c) (c_ssl c)
     in (case check_ngtcp2 (strerror api) (cs_rv out) of Inl e \<Rightarrow> Err e | Inr _ \<Rightarrow> Ok stream_id, c_apply api out c))"

definition extend_max_offset :: "('c, 's, 'z) conn_api_scheme \<Rightarrow> u64 \<Rightarrow> ('c, 's) Connection \<Rightarrow> ('c, 's) Connection" where
  "extend_max_offset api n c = c\<lparr>c_inner := conn_extend_max_offset api (c_inner c) n\<rparr>"

definition extend_max_streams_bidi :: "('c, 's, 'z) conn_api_scheme \<Rightarrow> nat \<Rightarrow> ('c, 's) Connection \<Rightarrow> ('c, 's) Connection" where
  "extend_max_streams_bidi api n c = c\<lparr>c_inner := conn_extend_max_streams_bidi api (c_inner c) n\<rparr>"

definition extend_max_streams_uni :: "('c, 's, 'z) conn_api_scheme \<Rightarrow> nat \<Rightarrow> ('c, 's) Connection \<Rightarrow> ('c, 's) Connection" where
  "extend_max_streams_uni api n c = c\<lparr>c_inner := conn_extend_max_streams_uni api (c_inner c) n\<rparr>"

definition set_keep_alive_timeout :: "('c, 's, 'z) conn_api_scheme \<Rightarrow> u64 \<Rightarrow> ('c, 's) Connection \<Rightarrow> ('c, 's) Connection" where
  "set_keep_alive_timeout api n c = c\<lparr>c_inner := conn_set_keep_alive_timeout api (c_inner c) n\<rparr>"

section \<open>Queries\<close>

definition get_expiry :: "('c, 's, 'z) conn_api_scheme \<Rightarrow> ('c, 's) Connection \<Rightarrow> u64" where
  "get_expiry api c = conn_get_expiry api (c_inner c)"

definition is_in_closing_period :: "('c, 's, 'z) conn_api_scheme \<Rightarrow> ('c, 's) Connection \<Rightarrow> bool" where
  "is_in_closing_period api c = conn_in_closing_period api (c_inner c)"

definition is_in_draining_period :: "('c, 's, 'z) conn_api_scheme \<Rightarrow> ('c, 's) Connection \<Rightarrow> bool" where
  "is_in_draining_period api c = conn_in_draining_period api (c_inner c)"

definition is_handshake_completed :: "('c, 's, 'z) conn_api_scheme \<Rightarrow> ('c, 's) Connection \<Rightarrow> bool" where
  "is_handshake_completed api c = conn_get_handshake_completed api (c_inner c)"

definition is_early_data_rejected :: "('c, 's, 'z) conn_api_scheme \<Rightarrow> ('c, 's) Connection \<Rightarrow> bool" where
  "is_early_data_rejected api c = conn_get_tls_early_data_rejected2 api (c_inner c)"

definition get_max_data_left :: "('c, 's, 'z) conn_api_scheme \<Rightarrow> ('c, 's) Connection \<Rightarrow> u64" where
  "get_max_data_left api c = conn_get_max_data_left2 api (c_inner c)"

definition get_max_stream_data_left :: "('c, 's, 'z) conn_api_scheme \<Rightarrow> StreamId \<Rightarrow> ('c, 's) Connection \<Rightarrow> u64" where
  "get_max_stream_data_left api stream_id c = conn_get_max_stream_data_left2 api (c_inner c) stream_id"

definition get_streams_bidi_left :: "('c, 's, 'z) conn_api_scheme \<Rightarrow> ('c, 's) Connection \<Rightarrow> u64" where
  "get_streams_bidi_left api c = conn_get_streams_bidi_left2 api (c_inner c)"

definition get_streams_uni_left :: "('c, 's, 'z) conn_api_scheme \<Rightarrow> ('c, 's) Connection \<Rightarrow> u64" where
  "get_streams_uni_left api c = conn_get_streams_uni_left2 api (c_inner c)"

definition get_cwnd_left :: "('c, 's, 'z) conn_api_scheme \<Rightarrow> ('c, 's) Connection \<Rightarrow> u64" where
  "get_cwnd_left api c = conn_get_cwnd_left2 api (c_inner c)"

definition get_path :: "('c, 's, 'z) conn_api_scheme \<Rightarrow> ('c, 's) Connection \<Rightarrow> PathInfo option" where
  "get_path api c = path_info_from_raw (conn_get_path2 api (c_inner c))"

definition negotiated_version :: "('c, 's, 'z) conn_api_scheme \<Rightarrow> ('c, 's) Connection \<Rightarrow> QuicVersion option" where
  "negotiated_version api c = from_u32 (conn_get_negotiated_version api (c_inner c))"

definition selected_alpn_protocol :: "'s ssl_api \<Rightarrow> ('c, 's) Connection \<Rightarrow> bytes option" where
  "selected_alpn_protocol ssl c = tls_selected_alpn_protocol ssl (c_tls c)"

definition is_in_early_data :: "'s ssl_api \<Rightarrow> ('c, 's) Connection \<Rightarrow> bool" where
  "is_in_early_data ssl c = tls_is_in_early_data ssl (c_tls c)"

definition is_early_data_accepted :: "'s ssl_api \<Rightarrow> ('c, 's) Connection \<Rightarrow> bool" where
  "is_early_data_accepted ssl c = tls_is_early_data_accepted ssl (c_tls c)"

definition conn_stats :: "('c, 's, 'z) conn_api_scheme \<Rightarrow> ('c, 's) Connection \<Rightarrow> ConnStats" where
  "conn_stats api c = stats_from_raw (conn_get_conn_info2 api (c_inner c))"

definition has_event :: "('c, 's) Connection \<Rightarrow> bool" where
  "has_event c = (ud_events (c_user_data c) \<noteq> [])"

definition get_connection_error :: "('c, 's, 'z) conn_api_scheme \<Rightarrow> ('c, 's) Connection \<Rightarrow> ConnectionError" where
  "get_connection_error api c =
    (case conn_get_ccerr api (c_inner c) of
       None \<Rightarrow> \<lparr>cerr_error_code = 0, cerr_reason = [], cerr_is_application = False, cerr_has_error = False\<rparr>
     | Some ccerr \<Rightarrow>
       \<lparr>cerr_error_code = ce_error_code ccerr,
        cerr_reason = (case ce_reason ccerr of None \<Rightarrow> [] | Some bs \<Rightarrow> if bs = [] then [] else from_utf8_lossy bs),
        cerr_is_application = (ce_type ccerr = NGTCP2_CCERR_TYPE_APPLICATION),
        cerr_has_error = (ce_type ccerr \<noteq> NGTCP2_CCERR_TYPE_IDLE_CLOSE)\<rparr>)"

section \<open>Key update, tickets and polling\<close>

definition initiate_key_update :: "('c, 's, 'z) conn_api_scheme \<Rightarrow> u64 \<Rightarrow> ('c, 's) Connection \<Rightarrow> unit result \<times> ('c, 's) Connection" where
  "initiate_key_update api ts c =
    (if \<not> is_handshake_completed api c \<or> is_in_closing_period api c \<or> is_in_draining_period api c
     then (Err (InvalidArgument ''key update requires a connection in the post-handshake state''), c)
     else c_call api (conn_initiate_key_update api (c_inner c) (c_ssl c) ts) c)"

definition encode_0rtt_transport_params :: "('c, 's, 'z) conn_api_scheme \<Rightarrow> ('c, 's) Connection \<Rightarrow> bytes result" where
  "encode_0rtt_transport_params api c =
    (let (len, buf) = conn_encode_0rtt_transport_params2 api (c_inner c) 512
     in if len < 0 then Err (from_ngtcp2 (strerror api) len) else Ok (take (nat len) buf))"

definition take_session_ticket :: "('c, 's, 'z) conn_api_scheme \<Rightarrow> ('c, 's) Connection \<Rightarrow> (SessionTicket option) result \<times> ('c, 's) Connection" where
  "take_session_ticket api c =
    (if \<not> is_handshake_completed api c then (Ok None, c)
     else
       let (session, t) = tls_take_session_ticket (c_tls c); c = c\<lparr>c_tls := t\<rparr> in
       case session of
         None \<Rightarrow> (Ok None, c)
       | Some bs \<Rightarrow>
         (case encode_0rtt_transport_params api c of
            Inl e \<Rightarrow> (Err e, c)
          | Inr params \<Rightarrow> (Ok (Some \<lparr>st_session = bs, st_transport_params = params\<rparr>), c)))"

definition poll_event :: "('c, 's) Connection \<Rightarrow> ConnectionEvent option \<times> ('c, 's) Connection" where
  "poll_event c =
    (case ud_events (c_user_data c) of
       [] \<Rightarrow> (None, c)
     | e # es \<Rightarrow> (Some e, c\<lparr>c_user_data := (c_user_data c)\<lparr>ud_events := es\<rparr>\<rparr>))"

definition poll_issued_cids :: "('c, 's) Connection \<Rightarrow> cid list \<times> ('c, 's) Connection" where
  "poll_issued_cids c =
    (ud_issued_cids (c_user_data c), c\<lparr>c_user_data := (c_user_data c)\<lparr>ud_issued_cids := []\<rparr>\<rparr>)"

definition poll_retired_cids :: "('c, 's) Connection \<Rightarrow> cid list \<times> ('c, 's) Connection" where
  "poll_retired_cids c =
    (ud_retired_cids (c_user_data c), c\<lparr>c_user_data := (c_user_data c)\<lparr>ud_retired_cids := []\<rparr>\<rparr>)"

definition poll_qlog_data :: "('c, 's) Connection \<Rightarrow> bytes option \<times> ('c, 's) Connection" where
  "poll_qlog_data c =
    (if ud_qlog_data (c_user_data c) = [] then (None, c)
     else (Some (ud_qlog_data (c_user_data c)), c\<lparr>c_user_data := (c_user_data c)\<lparr>ud_qlog_data := []\<rparr>\<rparr>))"

definition take_new_token :: "('c, 's) Connection \<Rightarrow> bytes option \<times> ('c, 's) Connection" where
  "take_new_token c =
    (case ud_new_tokens (c_user_data c) of
       [] \<Rightarrow> (None, c)
     | t # ts \<Rightarrow> (Some t, c\<lparr>c_user_data := (c_user_data c)\<lparr>ud_new_tokens := ts\<rparr>\<rparr>))"

section \<open>Memory safety of a connection\<close>

text \<open>What the callbacks of a call do to one stream.\<close>

definition closes :: "StreamId \<Rightarrow> callback list \<Rightarrow> bool" where
  "closes s cbs \<longleftrightarrow> (\<exists>fl rx tx. CbStreamClose fl s rx tx \<in> set cbs)"

definition acks :: "StreamId \<Rightarrow> callback list \<Rightarrow> bool" where
  "acks s cbs \<longleftrightarrow> (\<exists>k n. CbAcked s k n \<in> set cbs)"

lemma closes_simps [simp]:
  "\<not> closes s []" "closes s (cb # cbs) \<longleftrightarrow> (\<exists>fl rx tx. cb = CbStreamClose fl s rx tx) \<or> closes s cbs"
  by (auto simp: closes_def)

lemma acks_simps [simp]:
  "\<not> acks s []" "acks s (cb # cbs) \<longleftrightarrow> (\<exists>k n. cb = CbAcked s k n) \<or> acks s cbs"
  by (auto simp: acks_def)

lemma cb_sent_at: "cb_sent cb S s = (if \<exists>fl rx tx. cb = CbStreamClose fl s rx tx then [] else S s)"
  by (cases cb) auto

lemma cb_held_at: "cb_held cb H s = (if \<exists>fl rx tx. cb = CbStreamClose fl s rx tx then {} else H s)"
  by (cases cb) auto

lemma fold_cb_at:
  "fold cb_sent cbs S s = (if closes s cbs then [] else S s)"
  "fold cb_held cbs H s = (if closes s cbs then {} else H s)"
  by (induction cbs arbitrary: S H) (simp_all add: cb_sent_at cb_held_at)

lemma run_callback_entry:
  "\<not> (\<exists>fl rx tx. cb = CbStreamClose fl s rx tx) \<Longrightarrow> \<not> (\<exists>k n. cb = CbAcked s k n) \<Longrightarrow>
    ud_in_flight (run_callback api cb d) s = ud_in_flight d s"
proof (cases cb)
  case (CbStreamClose fl t rx tx)
  assume "\<not> (\<exists>fl rx tx. cb = CbStreamClose fl s rx tx)"
  then have "t \<noteq> s" using CbStreamClose by blast
  then show ?thesis
    by (simp add: CbStreamClose stream_close_callback_def push_event_def closed_stream_def split: option.split)
next
  case (CbAcked t k n)
  assume "\<not> (\<exists>k n. cb = CbAcked s k n)"
  then have "t \<noteq> s" using CbAcked by blast
  then show ?thesis
    by (simp add: CbAcked acked_stream_data_offset_callback_def acked_stream_data_def split: option.split prod.split)
qed (use run_callback_same [of cb api d] in simp_all)

lemma run_callback_none: "ud_in_flight d s = None \<Longrightarrow> ud_in_flight (run_callback api cb d) s = None"
proof (cases cb)
  case (CbStreamClose fl t rx tx)
  assume "ud_in_flight d s = None"
  then show ?thesis
    by (simp add: CbStreamClose stream_close_callback_def push_event_def closed_stream_def split: option.split)
next
  case (CbAcked t k n)
  assume "ud_in_flight d s = None"
  then show ?thesis
    by (auto simp: CbAcked acked_stream_data_offset_callback_def acked_stream_data_def split: option.split prod.split)
qed (use run_callback_same [of cb api d] in simp_all)

lemma run_callback_closes: "ud_in_flight (run_callback api (CbStreamClose fl s rx tx) d) s = None"
  by (simp add: stream_close_callback_def push_event_def closed_stream_def split: option.split)

lemma run_callbacks_none: "ud_in_flight d s = None \<Longrightarrow> ud_in_flight (run_callbacks api cbs d) s = None"
  by (induction cbs arbitrary: d) (simp_all add: run_callbacks_def run_callback_none)

lemma run_callbacks_entry:
  "\<not> acks s cbs \<Longrightarrow> ud_in_flight (run_callbacks api cbs d) s = (if closes s cbs then None else ud_in_flight d s)"
proof (induction cbs arbitrary: d)
  case Nil
  show ?case by (simp add: run_callbacks_def)
next
  case (Cons cb cbs)
  have e: "run_callbacks api (cb # cbs) d = run_callbacks api cbs (run_callback api cb d)"
    by (simp add: run_callbacks_def)
  show ?case
  proof (cases "\<exists>fl rx tx. cb = CbStreamClose fl s rx tx")
    case True
    then have "ud_in_flight (run_callback api cb d) s = None" by (auto simp: run_callback_closes simp del: run_callback.simps)
    then show ?thesis using True run_callbacks_none [of "run_callback api cb d" s api cbs] by (simp add: e)
  next
    case False
    then show ?thesis using Cons run_callback_entry [of cb s api d] by (simp add: e)
  qed
qed

text \<open>The bytes offered to ngtcp2 are exactly the data to be written.\<close>

lemma append_in_flight_inv:
  assumes inv: "user_inv d S H" and ap: "append_in_flight sid data d = (p, ((r, i), bs), d1)"
  obtains f1 where "ud_in_flight d1 sid = Some f1" "i = p" "r = v_reg (fl_data f1)" "bs = data"
    "user_inv d1 (S(sid := S sid @ data))
       (H(sid := H sid \<union> {(length (S sid) + k, r', p + k) |k r'. k < length data \<and> r = Some r'}))"
    "p = fl_start f1 + (length (S sid) - fl_offset f1)" "fl_offset f1 \<le> length (S sid)"
    "\<forall>b \<in> set (fl_retired f1). rb_end b \<le> length (S sid)"
proof -
  define f where "f = (case ud_in_flight d sid of None \<Rightarrow> in_flight_new | Some e \<Rightarrow> e)"
  have i: "flight_inv (ud_mem d) f (S sid) (H sid)"
    using user_inv_flight [OF inv] user_inv_none [OF inv] flight_inv_new
    by (auto simp: f_def split: option.split)
  obtain e f1 m1 where a: "append_data data f (ud_mem d) = ((p, e), f1, m1)"
    and d1: "d1 = d\<lparr>ud_in_flight := (ud_in_flight d)(sid \<mapsto> f1), ud_mem := m1\<rparr>"
    and ri: "r = v_reg (fl_data f1)" "i = p" "bs = take (e - p) (drop p (vec_bytes m1 (fl_data f1)))"
    using ap by (auto simp: append_in_flight_def f_def Let_def split: prod.splits)
  note ai = append_inv [OF i a]
  have e: "e = v_len (fl_data f1)" using a by (auto simp: append_data_def Let_def split: prod.splits)
  have j: "flight_ok m1 f1" "unacked m1 f1 = drop (fl_offset f1) (S sid @ data)"
    "fl_offset f1 + (v_len (fl_data f1) - fl_start f1) = length (S sid) + length data"
    using ai(1) by (auto simp: flight_inv_def)
  have "drop p (vec_bytes m1 (fl_data f1)) = drop (length (S sid) - fl_offset f1) (unacked m1 f1)"
    by (simp add: unacked_def ai(2) add.commute)
  then have "drop p (vec_bytes m1 (fl_data f1)) = data" using ai(3) by (simp add: j(2))
  moreover have "e - p = length data" using e ai(2,3) j(1,3) by (auto simp: flight_ok_def)
  ultimately have "bs = data" using ri(3) by simp
  moreover have "user_inv d1 (S(sid := S sid @ data))
       (H(sid := H sid \<union> {(length (S sid) + k, r', p + k) |k r'. k < length data \<and> r = Some r'}))"
    using ai(1,5) by (intro user_inv_update [OF inv, where s = sid and f = f]) (auto simp: f_def d1 ri split: option.split)
  ultimately show ?thesis using that ai(2,3,4) ri d1 by simp
qed

lemma truncate_frame: "flight_frame f m (truncate_unwritten n f) m"
  by (auto simp: flight_frame_def truncate_unwritten_def regs_def)

text \<open>One write, with any callbacks between the append and the truncation that do not acknowledge the
  stream being written: ngtcp2 takes \<open>a\<close> bytes unless it closes the stream.\<close>

lemma held_before:
  assumes "user_inv d S H" "h \<in> H sid"
  shows "fst h < length (S sid)"
proof (cases "ud_in_flight d sid")
  case None
  then show ?thesis using assms(2) user_inv_none [OF assms(1)] by simp
next
  case (Some f)
  then have f: "fl_offset f \<le> length (S sid)" "byte_ok (ud_mem d) f (S sid) h"
    using user_inv_flight [OF assms(1) Some] assms(2) by (auto simp: flight_inv_def)
  obtain k q j where "h = (k, q, j)" by (cases h)
  then show ?thesis using f by (cases "fl_offset f \<le> k") (auto simp: byte_ok_def)
qed

lemma write_inv:
  assumes inv: "user_inv d S H" and ap: "append_in_flight sid data d = (p, ((r, i), bs), d1)"
    and d2: "d2 = run_callbacks api cbs d1" and na: "\<not> acks sid cbs"
    and a: "(case w of None \<Rightarrow> 0 | Some n \<Rightarrow> n) = a" "a \<le> length data"
    and S1: "S1 = fold cb_sent cbs S" and H1: "H1 = fold cb_held cbs H"
  shows "user_inv (truncate_in_flight sid p w d2)
    (if closes sid cbs then S1 else S1(sid := S sid @ take a data))
    (if closes sid cbs then H1
     else H1(sid := H sid \<union> {(length (S sid) + k, r', p + k) |k r'. k < a \<and> r = Some r'}))"
proof -
  define P where "P n = {(length (S sid) + k, r', p + k) |k r'. k < n \<and> r = Some r'}" for n :: nat
  obtain f1 where f1: "ud_in_flight d1 sid = Some f1" "r = v_reg (fl_data f1)"
    and inv1: "user_inv d1 (S(sid := S sid @ data)) (H(sid := H sid \<union> P (length data)))"
    and pos: "p = fl_start f1 + (length (S sid) - fl_offset f1)" "fl_offset f1 \<le> length (S sid)"
      "\<forall>b \<in> set (fl_retired f1). rb_end b \<le> length (S sid)"
    by (rule append_in_flight_inv [OF inv ap]) (auto simp: P_def)
  have inv2: "user_inv d2 (fold cb_sent cbs (S(sid := S sid @ data)))
      (fold cb_held cbs (H(sid := H sid \<union> P (length data))))"
    unfolding d2 by (rule run_callbacks_inv [OF inv1])
  have en: "ud_in_flight d2 sid = (if closes sid cbs then None else Some f1)"
    by (simp add: d2 run_callbacks_entry [OF na] f1(1))
  show ?thesis
  proof (cases "closes sid cbs")
    case True
    then have "fold cb_sent cbs (S(sid := S sid @ data)) = S1"
        "fold cb_held cbs (H(sid := H sid \<union> P (length data))) = H1"
      by (simp_all add: S1 H1 fun_eq_iff fold_cb_at)
    then show ?thesis using inv2 True en by (simp add: truncate_in_flight_def)
  next
    case False
    have eqs: "fold cb_sent cbs (S(sid := S sid @ data)) = S1(sid := S sid @ data)"
        "fold cb_held cbs (H(sid := H sid \<union> P (length data))) = H1(sid := H sid \<union> P (length data))"
      using False by (simp_all add: S1 H1 fun_eq_iff fold_cb_at)
    have i2: "flight_inv (ud_mem d2) f1 (S sid @ data) (H sid \<union> P (length data))"
      using user_inv_flight [OF inv2, of sid f1] en False by (simp add: eqs)
    let ?f2 = "truncate_unwritten (length (S sid) - fl_offset f1 + a) f1"
    have "H sid \<union> P a \<subseteq> H sid \<union> P (length data)" unfolding P_def using a(2) by (blast intro: order_less_le_trans)
    moreover have "\<forall>h \<in> H sid \<union> P a. fst h < length (S sid) + a"
      by (auto simp: P_def dest!: held_before [OF inv, where sid = sid])
    ultimately have i3: "flight_inv (ud_mem d2) ?f2 (S sid @ take a data) (H sid \<union> P a)"
      using truncate_inv [OF i2 a(2) pos(2,3)] by blast
    have "user_inv (truncate_in_flight sid p w d2)
        ((S1(sid := S sid @ data))(sid := S sid @ take a data))
        ((H1(sid := H sid \<union> P (length data)))(sid := H sid \<union> P a))"
      using en False a(1) pos(1)
      by (intro user_inv_update [OF inv2 [unfolded eqs] _ truncate_frame i3]) (auto simp: truncate_in_flight_def)
    then show ?thesis using False by (simp add: P_def)
  qed
qed

section \<open>Runs of a connection\<close>

text \<open>The operations of a connection that change its state.\<close>

datatype conn_op =
    OpRead PathInfo PacketInfo bytes u64
  | OpWrite bytes u64
  | OpStream bytes StreamId bytes bool u64 u32
  | OpDatagram bytes bytes u64
  | OpClose bytes u64 bytes u64
  | OpCloseApp bytes u64 bytes u64
  | OpExpiry u64
  | OpMigrate PathInfo u64
  | OpMigrateNow PathInfo u64
  | OpSubmitToken bytes
  | OpShutdown StreamId u64
  | OpShutdownWrite StreamId u64
  | OpShutdownReliable StreamId u64
  | OpShutdownRead StreamId u64
  | OpExtendStream StreamId u64
  | OpExtend u64
  | OpExtendBidi nat
  | OpExtendUni nat
  | OpKeepAlive u64
  | OpOpenBidi
  | OpOpenUni
  | OpKeyUpdate u64
  | OpTicket
  | OpPollEvent
  | OpPollIssued
  | OpPollRetired
  | OpPollQlog
  | OpTakeToken

fun conn_run_op :: "('c, 's, 'z) conn_api_scheme \<Rightarrow> conn_op \<Rightarrow> ('c, 's) Connection \<Rightarrow> ('c, 's) Connection" where
  "conn_run_op api (OpRead p i d t) c = snd (read_pkt api p i d t c)"
| "conn_run_op api (OpWrite b t) c = snd (snd (write_pkt api b t c))"
| "conn_run_op api (OpStream b s d f t fl) c = snd (snd (write_stream_with_flags api b s d f t fl c))"
| "conn_run_op api (OpDatagram b d t) c = snd (snd (write_datagram api b d t c))"
| "conn_run_op api (OpClose b e r t) c = snd (snd (conn_write_close api b e r t c))"
| "conn_run_op api (OpCloseApp b e r t) c = snd (snd (write_connection_close_app api b e r t c))"
| "conn_run_op api (OpExpiry t) c = snd (handle_expiry api t c)"
| "conn_run_op api (OpMigrate p t) c = snd (initiate_migration api p t c)"
| "conn_run_op api (OpMigrateNow p t) c = snd (initiate_immediate_migration api p t c)"
| "conn_run_op api (OpSubmitToken d) c = snd (submit_new_token api d c)"
| "conn_run_op api (OpShutdown s e) c = snd (shutdown_stream api s e c)"
| "conn_run_op api (OpShutdownWrite s e) c = snd (shutdown_stream_write api s e c)"
| "conn_run_op api (OpShutdownReliable s e) c = snd (shutdown_stream_write_reliable api s e c)"
| "conn_run_op api (OpShutdownRead s e) c = snd (shutdown_stream_read api s e c)"
| "conn_run_op api (OpExtendStream s n) c = snd (extend_max_stream_offset api s n c)"
| "conn_run_op api (OpExtend n) c = extend_max_offset api n c"
| "conn_run_op api (OpExtendBidi n) c = extend_max_streams_bidi api n c"
| "conn_run_op api (OpExtendUni n) c = extend_max_streams_uni api n c"
| "conn_run_op api (OpKeepAlive n) c = set_keep_alive_timeout api n c"
| "conn_run_op api (OpOpenBidi) c = snd (open_bidi_stream api c)"
| "conn_run_op api (OpOpenUni) c = snd (open_uni_stream api c)"
| "conn_run_op api (OpKeyUpdate t) c = snd (initiate_key_update api t c)"
| "conn_run_op api (OpTicket) c = snd (take_session_ticket api c)"
| "conn_run_op api (OpPollEvent) c = snd (poll_event c)"
| "conn_run_op api (OpPollIssued) c = snd (poll_issued_cids c)"
| "conn_run_op api (OpPollRetired) c = snd (poll_retired_cids c)"
| "conn_run_op api (OpPollQlog) c = snd (poll_qlog_data c)"
| "conn_run_op api (OpTakeToken) c = snd (take_new_token c)"

text \<open>The call into ngtcp2 that \<^verbatim>\<open>write_stream_with_flags\<close> makes.\<close>

definition stream_call :: "('c, 's, 'z) conn_api_scheme \<Rightarrow> bytes \<Rightarrow> StreamId \<Rightarrow> bytes \<Rightarrow> bool \<Rightarrow> u64 \<Rightarrow> u32 \<Rightarrow> ('c, 's) Connection \<Rightarrow> ('c, 's) c_write" where
  "stream_call api buf stream_id data fin ts flags c =
    conn_writev_stream api (c_inner c) (c_ssl c) buf (if fin then flags OR NGTCP2_WRITE_STREAM_FLAG_FIN else flags)
      stream_id (fst (snd (append_in_flight stream_id data (c_user_data c)))) ts"

text \<open>The callbacks an operation makes.\<close>

fun op_callbacks :: "('c, 's, 'z) conn_api_scheme \<Rightarrow> conn_op \<Rightarrow> ('c, 's) Connection \<Rightarrow> callback list" where
  "op_callbacks api (OpRead p i d t) c = cs_cbs (conn_read_pkt api (c_inner c) (c_ssl c) (raw_path p) (pi_ecn i) d t)"
| "op_callbacks api (OpWrite b t) c = cs_cbs (conn_write_pkt api (c_inner c) (c_ssl c) b t)"
| "op_callbacks api (OpStream b s d f t fl) c = cs_cbs (stream_call api b s d f t fl c)"
| "op_callbacks api (OpDatagram b d t) c = (if can_send_datagram api c then cs_cbs (conn_writev_datagram api (c_inner c) (c_ssl c) b d t) else [])"
| "op_callbacks api (OpClose b e r t) c = cs_cbs (conn_write_connection_close api (c_inner c) (c_ssl c) b \<lparr>ce_type = NGTCP2_CCERR_TYPE_TRANSPORT, ce_error_code = e, ce_reason = Some r\<rparr> t)"
| "op_callbacks api (OpCloseApp b e r t) c = cs_cbs (conn_write_connection_close api (c_inner c) (c_ssl c) b \<lparr>ce_type = NGTCP2_CCERR_TYPE_APPLICATION, ce_error_code = e, ce_reason = Some r\<rparr> t)"
| "op_callbacks api (OpExpiry t) c = cs_cbs (conn_handle_expiry api (c_inner c) (c_ssl c) t)"
| "op_callbacks api (OpMigrate p t) c = cs_cbs (conn_initiate_migration api (c_inner c) (c_ssl c) (raw_path p) t)"
| "op_callbacks api (OpMigrateNow p t) c = cs_cbs (conn_initiate_immediate_migration api (c_inner c) (c_ssl c) (raw_path p) t)"
| "op_callbacks api (OpSubmitToken d) c = []"
| "op_callbacks api (OpShutdown s e) c = cs_cbs (conn_shutdown_stream api (c_inner c) (c_ssl c) 0 s e)"
| "op_callbacks api (OpShutdownWrite s e) c = cs_cbs (conn_shutdown_stream_write api (c_inner c) (c_ssl c) 0 s e)"
| "op_callbacks api (OpShutdownReliable s e) c = cs_cbs (conn_shutdown_stream_write api (c_inner c) (c_ssl c) NGTCP2_SHUT_STREAM_FLAG_FLUSH s e)"
| "op_callbacks api (OpShutdownRead s e) c = cs_cbs (conn_shutdown_stream_read api (c_inner c) (c_ssl c) 0 s e)"
| "op_callbacks api (OpExtendStream s n) c = cs_cbs (conn_extend_max_stream_offset api (c_inner c) (c_ssl c) s n)"
| "op_callbacks api (OpExtend n) c = []"
| "op_callbacks api (OpExtendBidi n) c = []"
| "op_callbacks api (OpExtendUni n) c = []"
| "op_callbacks api (OpKeepAlive n) c = []"
| "op_callbacks api (OpOpenBidi) c = cs_cbs (fst (conn_open_bidi_stream api (c_inner c) (c_ssl c)))"
| "op_callbacks api (OpOpenUni) c = cs_cbs (fst (conn_open_uni_stream api (c_inner c) (c_ssl c)))"
| "op_callbacks api (OpKeyUpdate t) c = (if \<not> is_handshake_completed api c \<or> is_in_closing_period api c \<or> is_in_draining_period api c then [] else cs_cbs (conn_initiate_key_update api (c_inner c) (c_ssl c) t))"
| "op_callbacks api (OpTicket) c = []"
| "op_callbacks api (OpPollEvent) c = []"
| "op_callbacks api (OpPollIssued) c = []"
| "op_callbacks api (OpPollRetired) c = []"
| "op_callbacks api (OpPollQlog) c = []"
| "op_callbacks api (OpTakeToken) c = []"

fun is_stream_op :: "conn_op \<Rightarrow> bool" where
  "is_stream_op (OpStream _ _ _ _ _ _) = True"
| "is_stream_op _ = False"

lemmas conn_op_defs = read_pkt_def write_pkt_def write_datagram_def conn_write_close_def
  write_connection_close_app_def write_ccerr_def c_call_def handle_expiry_def initiate_migration_def
  initiate_immediate_migration_def submit_new_token_def shutdown_stream_def shutdown_stream_write_def
  shutdown_stream_write_reliable_def shutdown_stream_read_def extend_max_stream_offset_def
  extend_max_offset_def extend_max_streams_bidi_def extend_max_streams_uni_def set_keep_alive_timeout_def
  open_bidi_stream_def open_uni_stream_def initiate_key_update_def
  take_session_ticket_def poll_event_def poll_issued_cids_def poll_retired_cids_def poll_qlog_data_def
  take_new_token_def

lemma run_callbacks_nil [simp]: "run_callbacks api [] d = d"
  by (simp add: run_callbacks_def)

lemma c_apply_user_data [simp]:
  "c_user_data (c_apply api out c) = run_callbacks api (cs_cbs out) (c_user_data c)"
  by (simp add: c_apply_def)

text \<open>Apart from writing stream data, an operation changes the buffers only through its callbacks.\<close>

lemma conn_op_buffers:
  assumes "\<not> is_stream_op op"
  shows "ud_in_flight (c_user_data (conn_run_op api op c))
      = ud_in_flight (run_callbacks api (op_callbacks api op c) (c_user_data c))
    \<and> ud_mem (c_user_data (conn_run_op api op c))
      = ud_mem (run_callbacks api (op_callbacks api op c) (c_user_data c))"
  using assms
  by (cases op) (auto simp: conn_op_defs Let_def split: prod.split list.split option.split sum.split)

text \<open>What ngtcp2 documents of \<^verbatim>\<open>ngtcp2_conn_writev_stream\<close>: it takes at most the data it was given, and it
  reports acknowledgements of a stream only while it reads packets or handles timers.\<close>

definition write_contract :: "('c, 's, 'z) conn_api_scheme \<Rightarrow> bool" where
  "write_contract api \<longleftrightarrow> (\<forall>inner ssl buf flags sid v ts.
     cw_datalen (conn_writev_stream api inner ssl buf flags sid v ts) \<le> int (length (snd v))
     \<and> \<not> acks sid (cs_cbs (conn_writev_stream api inner ssl buf flags sid v ts)))"

text \<open>A configuration is a connection with the bytes ngtcp2 has taken of every stream and the places it
  was told to find them. A connection starts with none; a write adds what ngtcp2 took, unless it
  closed the stream in the same call.\<close>

type_synonym ('c, 's) conn_config = "('c, 's) Connection \<times> (StreamId \<Rightarrow> bytes) \<times> (StreamId \<Rightarrow> placed set)"

inductive conn_step :: "('c, 's, 'z) conn_api_scheme \<Rightarrow> ('c, 's) conn_config \<Rightarrow> ('c, 's) conn_config \<Rightarrow> bool" for api where
  step_op: "\<not> is_stream_op op \<Longrightarrow> cbs = op_callbacks api op c \<Longrightarrow>
    conn_step api (c, S, H) (conn_run_op api op c, fold cb_sent cbs S, fold cb_held cbs H)"
| step_stream: "op = OpStream buf sid data fin ts flags \<Longrightarrow> out = stream_call api buf sid data fin ts flags c \<Longrightarrow>
    append_in_flight sid data (c_user_data c) = (p, ((r, i), bs), d1) \<Longrightarrow>
    a = nat (cw_datalen out) \<Longrightarrow> cbs = cs_cbs out \<Longrightarrow>
    S1 = (if closes sid cbs then fold cb_sent cbs S else (fold cb_sent cbs S)(sid := S sid @ take a data)) \<Longrightarrow>
    H1 = (if closes sid cbs then fold cb_held cbs H
          else (fold cb_held cbs H)(sid := H sid \<union> {(length (S sid) + k, r', i + k) |k r'. k < a \<and> r = Some r'})) \<Longrightarrow>
    conn_step api (c, S, H) (conn_run_op api op c, S1, H1)"

inductive conn_reach :: "('c, 's, 'z) conn_api_scheme \<Rightarrow> 's ssl_api \<Rightarrow> ('c, 's) conn_config \<Rightarrow> bool" for api ssl where
  reach_client: "client_new api ssl parse_ip m dcid scid l r v name t params settings h = (Ok c, h1) \<Longrightarrow>
    conn_reach api ssl (c, \<lambda>_. [], \<lambda>_. {})"
| reach_0rtt: "client_new_with_0rtt api ssl parse_ip m dcid scid l r v name t params settings ticket h = (Ok c, h1) \<Longrightarrow>
    conn_reach api ssl (c, \<lambda>_. [], \<lambda>_. {})"
| reach_server: "server_new api ssl m dcid scid l r v t params settings h = (Ok c, h1) \<Longrightarrow>
    conn_reach api ssl (c, \<lambda>_. [], \<lambda>_. {})"
| reach_op: "conn_reach api ssl x \<Longrightarrow> conn_step api x y \<Longrightarrow> conn_reach api ssl y"

lemma fold_cb_empty [simp]: "fold cb_sent cbs (\<lambda>_. []) = (\<lambda>_. [])" "fold cb_held cbs (\<lambda>_. {}) = (\<lambda>_. {})"
  by (simp_all add: fun_eq_iff fold_cb_at)

lemma new_user_data_inv: "user_inv (run_callbacks api cbs (new_user_data settings m)) (\<lambda>_. []) (\<lambda>_. {})"
  using run_callbacks_inv [of "new_user_data settings m" "\<lambda>_. []" "\<lambda>_. {}" api cbs]
  by (simp add: user_inv_def new_user_data_def user_data_new_def)

lemma finish_new_user_data: "finish_new api ssl handle conn d t settings h = (Ok c, h1) \<Longrightarrow> c_user_data c = d"
  by (auto simp: finish_new_def Let_def split: prod.splits if_splits sum.splits)

lemma client_new_inv:
  "client_new api ssl parse_ip m dcid scid l r v name t params settings h = (Ok c, h1) \<Longrightarrow>
    user_inv (c_user_data c) (\<lambda>_. []) (\<lambda>_. {})"
  by (auto simp: client_new_def Let_def new_user_data_inv dest!: finish_new_user_data
      split: prod.splits if_splits sum.splits)

lemma server_new_inv:
  "server_new api ssl m dcid scid l r v t params settings h = (Ok c, h1) \<Longrightarrow>
    user_inv (c_user_data c) (\<lambda>_. []) (\<lambda>_. {})"
  by (auto simp: server_new_def Let_def new_user_data_inv dest!: finish_new_user_data
      split: prod.splits if_splits)

lemma client_new_0rtt_inv:
  assumes "client_new_with_0rtt api ssl parse_ip m dcid scid l r v name t params settings ticket h = (Ok c, h1)"
  shows "user_inv (c_user_data c) (\<lambda>_. []) (\<lambda>_. {})"
proof -
  obtain t1 c1 h2 early inner where
    "client_new api ssl parse_ip m dcid scid l r v name t1 params settings h = (Ok c1, h2)"
    and c: "c = c1\<lparr>c_inner := inner, c_user_data := (c_user_data c1)\<lparr>ud_early_data_attempted := early\<rparr>\<rparr>"
    using assms by (auto simp: client_new_with_0rtt_def Let_def split: prod.splits if_splits sum.splits)
  then show ?thesis using client_new_inv by (subst user_inv_cong [of _ "c_user_data c1"]) auto
qed

lemma stream_op_user_data:
  assumes "append_in_flight sid data (c_user_data c) = (p, v, d1)"
    and "out = stream_call api buf sid data fin ts flags c"
  shows "c_user_data (conn_run_op api (OpStream buf sid data fin ts flags) c)
    = truncate_in_flight sid p (if cw_datalen out \<ge> 0 then Some (nat (cw_datalen out)) else None)
        (run_callbacks api (cs_cbs out) d1)"
  using assms by (simp add: write_stream_with_flags_def stream_call_def Let_def)

lemma conn_step_inv:
  assumes con: "write_contract api" and st: "conn_step api (c, S, H) (c1, S1, H1)"
    and inv: "user_inv (c_user_data c) S H"
  shows "user_inv (c_user_data c1) S1 H1"
  using st
proof cases
  case (step_op op cbs)
  then show ?thesis
    using user_inv_cong [of "c_user_data c1" "run_callbacks api cbs (c_user_data c)"]
      conn_op_buffers [of op api c] run_callbacks_inv [OF inv, of api cbs] by simp
next
  case (step_stream op buf sid data fin ts flags out p r i bs d1 a cbs)
  have "bs = data" "i = p" by (rule append_in_flight_inv [OF inv step_stream(4)]; simp)+
  moreover have "cw_datalen out \<le> int (length bs)" "\<not> acks sid cbs"
    using con step_stream(3,4,6) by (auto simp: write_contract_def stream_call_def)
  ultimately have a: "a \<le> length data" "i = p" "\<not> acks sid cbs" using step_stream(5) by auto
  define w where "w = (if cw_datalen out \<ge> 0 then Some (nat (cw_datalen out)) else None)"
  have w: "(case w of None \<Rightarrow> 0 | Some n \<Rightarrow> n) = a" by (simp add: w_def step_stream(5))
  have "c_user_data c1 = truncate_in_flight sid p w (run_callbacks api cbs d1)"
    using stream_op_user_data [OF step_stream(4,3)] step_stream by (simp add: w_def)
  then show ?thesis
    by (simp only: step_stream(7,8) a(2)) (rule write_inv [OF inv step_stream(4) refl a(3) w a(1) refl refl])
qed

lemma conn_reach_inv:
  assumes "write_contract api" and "conn_reach api ssl x"
  shows "case x of (c, S, H) \<Rightarrow> user_inv (c_user_data c) S H"
  using assms(2)
proof (induction rule: conn_reach.induct)
  case (reach_op x y)
  then show ?case using conn_step_inv [OF assms(1)] by (cases x, cases y) auto
qed (auto dest: client_new_inv client_new_0rtt_inv server_new_inv)

lemma conn_reach_safe:
  assumes "write_contract api" and "conn_reach api ssl (c, S, H)" and "(k, r, i) \<in> H sid"
  shows "\<exists>f. ud_in_flight (c_user_data c) sid = Some f
    \<and> (fl_offset f \<le> k \<longrightarrow> k < length (S sid) \<and> stored (ud_mem (c_user_data c)) r i = Some (S sid ! k))"
proof -
  have inv: "user_inv (c_user_data c) S H" using conn_reach_inv [OF assms(1,2)] by simp
  then obtain f where f: "ud_in_flight (c_user_data c) sid = Some f"
    using user_inv_none assms(3) by fastforce
  then have "byte_ok (ud_mem (c_user_data c)) f (S sid) (k, r, i)"
    using user_inv_flight [OF inv f] assms(3) by (auto simp: flight_inv_def)
  then show ?thesis using f by (simp add: byte_ok_def)
qed

section \<open>Properties\<close>


text \<open>A C library that accepts everything, as the instance of the hypotheses.\<close>

definition idle_step :: "unit \<Rightarrow> unit \<Rightarrow> (unit, unit) c_step" where
  "idle_step c s = \<lparr>cs_rv = 0, cs_conn = (), cs_ssl = (), cs_cbs = [], cs_tickets = []\<rparr>"

definition sample_path :: ngtcp2_path where
  "sample_path = raw_path \<lparr>path_local = SockV4 1 2, path_remote = SockV4 3 4\<rparr>"

definition idle_write :: "int \<Rightarrow> int \<Rightarrow> bytes \<Rightarrow> (unit, unit) c_write" where
  "idle_write rv n buf = \<lparr>cs_rv = rv, cs_conn = (), cs_ssl = (), cs_cbs = [], cs_tickets = [],
     cw_buf = buf, cw_ecn = 0, cw_path = sample_path, cw_datalen = n\<rparr>"

definition zero_params :: raw_transport_params where
  "zero_params = \<lparr>tp_initial_max_stream_data_bidi_local = 0, tp_initial_max_stream_data_bidi_remote = 0,
     tp_initial_max_stream_data_uni = 0, tp_initial_max_data = 0, tp_initial_max_streams_bidi = 0,
     tp_initial_max_streams_uni = 0, tp_max_idle_timeout = 0, tp_max_udp_payload_size = 0,
     tp_active_connection_id_limit = 0, tp_ack_delay_exponent = 0, tp_max_ack_delay = 0,
     tp_max_datagram_frame_size = 0, tp_disable_active_migration = 0, tp_grease_quic_bit = 0,
     tp_reset_stream_at = 0, tp_stateless_reset_token = [], tp_stateless_reset_token_present = 0,
     tp_original_dcid = \<lparr>rc_datalen = 0, rc_data = []\<rparr>, tp_original_dcid_present = 0,
     tp_retry_scid = \<lparr>rc_datalen = 0, rc_data = []\<rparr>, tp_retry_scid_present = 0,
     tp_preferred_addr = \<lparr>pa_cid = \<lparr>rc_datalen = 0, rc_data = []\<rparr>, pa_ipv4 = None, pa_ipv6 = None,
        pa_stateless_reset_token = []\<rparr>, tp_preferred_addr_present = 0\<rparr>"

definition zero_settings :: raw_settings where
  "zero_settings = \<lparr>rs_initial_ts = 0, rs_cc_algo = 1, rs_initial_rtt = 0, rs_handshake_timeout = 0,
     rs_max_tx_udp_payload_size = 0, rs_max_window = 0, rs_max_stream_window = 0, rs_ack_thresh = 0,
     rs_no_tx_udp_payload_size_shaping = 0, rs_no_pmtud = 0, rs_preferred_versions = None,
     rs_available_versions = None, rs_qlog_write = False, rs_token = None, rs_token_type = 0\<rparr>"

definition zero_info :: raw_conn_info where
  "zero_info = \<lparr>ci_latest_rtt = 0, ci_min_rtt = 0, ci_smoothed_rtt = 0, ci_rttvar = 0, ci_cwnd = 0,
     ci_ssthresh = 0, ci_bytes_in_flight = 0, ci_pkt_sent = 0, ci_bytes_sent = 0, ci_pkt_recv = 0,
     ci_bytes_recv = 0, ci_pkt_lost = 0, ci_bytes_lost = 0, ci_ping_recv = 0, ci_pkt_discarded = 0\<rparr>"

definition sample_conn_api :: "(unit, unit) conn_api" where
  "sample_conn_api = stateless_api.extend sample_api (conn_api.fields zero_settings
     (\<lambda>d s p v st tp. (0, (), [])) (\<lambda>d s p v st tp. (0, (), []))
     (\<lambda>c n. ()) (\<lambda>c. ())
     (\<lambda>c n. (2, [1, 2, 3])) (\<lambda>c n. (2, [1, 2, 3])) (\<lambda>c b. (0, ()))
     (\<lambda>c s p e d t. idle_step c s)
     (\<lambda>c s b t. idle_write 0 0 b)
     (\<lambda>c s b f i v t. idle_write 9 (int (length (snd v))) b)
     (\<lambda>c s b d t. idle_write 9 1 b)
     (\<lambda>c s b e t. idle_write 9 0 b)
     (\<lambda>c s p t. idle_step c s) (\<lambda>c s p t. idle_step c s) (\<lambda>c b. (0, ()))
     (\<lambda>c s. (idle_step c s, 0)) (\<lambda>c s. (idle_step c s, 2))
     (\<lambda>c s f i e. idle_step c s) (\<lambda>c s f i e. idle_step c s) (\<lambda>c s f i e. idle_step c s)
     (\<lambda>c s i n. idle_step c s) (\<lambda>c n. ()) (\<lambda>c n. ()) (\<lambda>c n. ())
     (\<lambda>c. 5) (\<lambda>c s t. idle_step c s) (\<lambda>c s t. idle_step c s)
     (\<lambda>c. False) (\<lambda>c. False) (\<lambda>c. 1) (\<lambda>c. True) (\<lambda>c. False) (\<lambda>c. None) (\<lambda>c. None)
     (\<lambda>c. 0) (\<lambda>c i. 0) (\<lambda>c. 0) (\<lambda>c. 0) (\<lambda>c. 0) (\<lambda>c. zero_info) (\<lambda>c. None))"

lemmas sample_conn_api_simps = sample_conn_api_def sample_api_def stateless_api.defs conn_api.defs

lemma sample_write_contract: "write_contract sample_conn_api"
  by (simp add: write_contract_def sample_conn_api_simps idle_write_def acks_def)

definition sample_ssl :: "unit ssl_api" where
  "sample_ssl = \<lparr>SSL_set_tlsext_host_name = (\<lambda>s n. (1, s)), SSL_get0_param_null = (\<lambda>s. False),
     X509_VERIFY_PARAM_clear_host = (\<lambda>s. (1, s)), SSL_set1_host = (\<lambda>s n. (1, s)),
     X509_VERIFY_PARAM_set1_ip = (\<lambda>s b. (1, s)), SSL_set_quic_transport_params = (\<lambda>s b. (1, s)),
     SSL_get0_alpn_selected = (\<lambda>s. None), SSL_SESSION_from_bytes = (\<lambda>s b. Some True),
     SSL_set_session = (\<lambda>s b. (1, s)), SSL_set_early_data_enabled = (\<lambda>s. s),
     SSL_in_early_data = (\<lambda>s. False), SSL_early_data_accepted = (\<lambda>s. False),
     SSL_set_quic_early_data_context = (\<lambda>s b. (1, s))\<rparr>"

definition sample_tls :: "unit TlsSession" where
  "sample_tls = \<lparr>ts_ssl = (), ts_is_server = True, ts_peer_ip = None, ts_accept_early_data = False,
     ts_ticket_slot = None\<rparr>"

definition sample_conn :: "(unit, unit) Connection" where
  "sample_conn = \<lparr>c_handle = 0, c_inner = (),
     c_user_data = new_user_data (settings_new zero_settings 0) empty_mem, c_tls = sample_tls\<rparr>"

lemma sample_server_new:
  "server_new sample_conn_api sample_ssl empty_mem (ConnectionId [1]) (ConnectionId [2]) (SockV4 1 2) (SockV4 3 4) V1
     sample_tls (zero_params\<lparr>tp_original_dcid_present := 1\<rparr>) (settings_new zero_settings 0)
     \<lparr>live_conn = [], next_conn = 0\<rparr> = (Ok sample_conn, \<lparr>live_conn = [0], next_conn = 1\<rparr>)"
  by (simp add: server_new_def has_original_dcid_def sample_conn_api_simps finish_new_def conn_alloc_def
      set_quic_transport_params_def sample_ssl_def sample_tls_def sample_conn_def settings_new_def)

lemma sample_append:
  "append_in_flight 0 [1, 2, 3] (c_user_data sample_conn)
    = (0, ((Some 0, 0), [1, 2, 3]), (c_user_data sample_conn)\<lparr>
         ud_in_flight := [0 \<mapsto> \<lparr>fl_offset = 0, fl_data = \<lparr>v_reg = Some 0, v_len = 3, v_cap = 3\<rparr>, fl_start = 0, fl_retired = []\<rparr>],
         ud_mem := \<lparr>m_reg = [0 \<mapsto> [1, 2, 3]], m_next = 1\<rparr>\<rparr>)"
  by (simp add: append_in_flight_def sample_conn_def new_user_data_def user_data_new_def append_data_def make_room_def
      in_flight_new_def vec_new_def vec_with_capacity_def vec_drop_def vec_extend_def vec_store_def vec_bytes_def
      region_bytes_def empty_mem_def fun_eq_iff)


definition owned_result :: "('c, 's) Connection result \<times> conn_heap \<Rightarrow> conn_heap \<Rightarrow> bool" where
  "owned_result x h = (case x of
     (Inl e, h1) \<Rightarrow> live_conn h1 = live_conn h
   | (Inr c, h1) \<Rightarrow> live_conn h1 = c_handle c # live_conn h \<and> live_conn (conn_drop c h1) = live_conn h)"

lemma finish_new_owned:
  assumes "\<forall>n \<in> set (live_conn h). n < next_conn h" and "conn_alloc h = (handle, h1)"
  shows "owned_result (finish_new api ssl handle conn d t settings h1) h"
proof -
  have "next_conn h \<notin> set (live_conn h)" using assms(1) by blast
  then have "live_conn (conn_del handle h1) = live_conn h" "live_conn h1 = handle # live_conn h"
    using assms(2) by (auto simp: conn_alloc_def conn_del_def)
  then show ?thesis
    by (auto simp: owned_result_def finish_new_def conn_drop_def Let_def split: prod.splits sum.splits)
qed

lemma owned_error [simp]: "owned_result (Inl e, h) h"
  by (simp add: owned_result_def)

lemma client_new_owned:
  assumes "\<forall>n \<in> set (live_conn h). n < next_conn h"
  shows "owned_result (client_new api ssl parse_ip m dcid scid l r v name t params settings h) h"
  by (auto simp: client_new_def Let_def intro: finish_new_owned [OF assms] split: prod.split sum.split)

lemma server_new_owned:
  assumes "\<forall>n \<in> set (live_conn h). n < next_conn h"
  shows "owned_result (server_new api ssl m dcid scid l r v t params settings h) h"
  by (auto simp: server_new_def Let_def intro: finish_new_owned [OF assms] split: prod.split)

lemma client_new_0rtt_owned:
  assumes "\<forall>n \<in> set (live_conn h). n < next_conn h"
  shows "owned_result (client_new_with_0rtt api ssl parse_ip m dcid scid l r v name t params settings ticket h) h"
proof -
  obtain x t1 where s: "set_session ssl (st_session ticket) t = (x, t1)" by fastforce
  obtain y h1 where c: "client_new api ssl parse_ip m dcid scid l r v name t1 params settings h = (y, h1)" by fastforce
  have "owned_result (y, h1) h"
    unfolding c [symmetric] by (rule client_new_owned [OF assms])
  then show ?thesis
    by (cases x; cases y)
       (auto simp: client_new_with_0rtt_def s c owned_result_def conn_drop_def split: prod.split)
qed

text \<open>Ownership: a constructor returns either an error and leaves the set of live C connections as it
  was, or a connection whose handle is the one new live object; dropping it frees exactly that.\<close>

lemma conn_ownership:
  assumes "\<forall>n \<in> set (live_conn h). n < next_conn h"
  shows "owned_result (client_new api ssl parse_ip m dcid scid l r v name t params settings h) h
    \<and> owned_result (client_new_with_0rtt api ssl parse_ip m dcid scid l r v name t params settings ticket h) h
    \<and> owned_result (server_new api ssl m dcid scid l r v t params settings h) h"
  using assms by (intro conjI client_new_owned client_new_0rtt_owned server_new_owned)

text \<open>The data of a stream that is sent and not acknowledged.\<close>

definition pending_data :: "('c, 's) Connection \<Rightarrow> StreamId \<Rightarrow> bytes" where
  "pending_data c sid = (case ud_in_flight (c_user_data c) sid of None \<Rightarrow> []
     | Some f \<Rightarrow> unacked (ud_mem (c_user_data c)) f)"

lemma pending_data_inv:
  "user_inv (c_user_data c) S H \<Longrightarrow> pending_data c sid =
    drop (case ud_in_flight (c_user_data c) sid of None \<Rightarrow> 0 | Some f \<Rightarrow> fl_offset f) (S sid)"
  using user_inv_none [of "c_user_data c" S H sid] user_inv_flight [of "c_user_data c" S H sid]
  by (auto simp: pending_data_def flight_inv_def split: option.split)

lemma append_in_flight_offset:
  assumes "append_in_flight sid data d = (p, v, d1)" "ud_in_flight d1 sid = Some f1"
  shows "fl_offset f1 = (case ud_in_flight d sid of None \<Rightarrow> 0 | Some f \<Rightarrow> fl_offset f)"
  using assms
  by (auto simp: append_in_flight_def append_data_def make_room_def in_flight_new_def Let_def
      split: prod.splits if_splits option.splits)

text \<open>C16. A write reports exactly what it took: when \<^verbatim>\<open>write_stream\<close> returns a count, the pending data of the
  stream grows by that prefix of the data and the rest must be offered again; when it reports that
  no stream frame was written, the pending data is as before.\<close>

theorem write_stream_takes_prefix:
  assumes "write_contract api" and "conn_reach api ssl (c, S, H)"
    and "write_stream api buf sid data fin ts c = (Ok (n, w, path, pi), buf1, c1)"
    and "ud_in_flight (c_user_data c1) sid \<noteq> None"
  shows "pending_data c1 sid = pending_data c sid @ take (case w of None \<Rightarrow> 0 | Some k \<Rightarrow> k) data"
proof -
  obtain p r i bs d1 where ap: "append_in_flight sid data (c_user_data c) = (p, ((r, i), bs), d1)"
    by (metis prod.collapse)
  let ?op = "OpStream buf sid data fin ts 0" and ?out = "stream_call api buf sid data fin ts 0 c"
  let ?a = "nat (cw_datalen ?out)"
  have inv: "user_inv (c_user_data c) S H" using conn_reach_inv [OF assms(1,2)] by simp
  have c1: "c1 = conn_run_op api ?op c" using assms(3) by (simp add: write_stream_def)
  have w: "(case w of None \<Rightarrow> 0 | Some k \<Rightarrow> k) = ?a"
    using assms(3) ap
    by (auto simp: write_stream_def write_stream_with_flags_def stream_call_def Let_def split: if_splits)
  obtain S1 H1 where st: "conn_step api (c, S, H) (c1, S1, H1)" and S1: "\<not> closes sid (cs_cbs ?out) \<Longrightarrow>
      S1 sid = S sid @ take ?a data"
    using step_stream [OF refl refl ap refl refl refl refl, where api = api and buf = buf and fin = fin
      and ts = ts and flags = 0 and S = S and H = H] unfolding c1 by fastforce
  have inv1: "user_inv (c_user_data c1) S1 H1" by (rule conn_step_inv [OF assms(1) st inv])
  have "\<not> acks sid (cs_cbs ?out)" using assms(1) by (simp add: write_contract_def stream_call_def ap)
  note en = run_callbacks_entry [OF this, where api = api and d = d1]
  obtain f1 where f1: "ud_in_flight d1 sid = Some f1" "fl_offset f1 \<le> length (S sid)"
    by (rule append_in_flight_inv [OF inv ap]) simp
  have "c_user_data c1 = truncate_in_flight sid p (if cw_datalen ?out \<ge> 0 then Some ?a else None)
      (run_callbacks api (cs_cbs ?out) d1)"
    unfolding c1 by (rule stream_op_user_data [OF ap refl])
  then obtain f2 where f2: "ud_in_flight (c_user_data c1) sid = Some f2" "fl_offset f2 = fl_offset f1"
    and "\<not> closes sid (cs_cbs ?out)"
    using en f1(1) assms(4)
    by (auto simp: truncate_in_flight_def truncate_unwritten_def Let_def split: if_splits option.splits)
  then have "pending_data c1 sid = drop (fl_offset f1) (S sid @ take ?a data)"
    using pending_data_inv [OF inv1, of sid] S1 by simp
  then show ?thesis
    using pending_data_inv [OF inv, of sid] append_in_flight_offset [OF ap f1(1)] f1(2) w by simp
qed

theorem write_stream_takes_prefix_witness:
  "pending_data (snd (snd (write_stream sample_conn_api [] 0 [1, 2, 3] False 0 sample_conn))) 0 = [1, 2, 3]"
proof -
  obtain res buf c1 where w: "write_stream sample_conn_api [] 0 [1, 2, 3] False 0 sample_conn = (res, buf, c1)"
    by (metis prod.collapse)
  have "\<exists>path pi. res = Ok (9, Some 3, path, pi)" "ud_in_flight (c_user_data c1) 0 \<noteq> None" "pending_data sample_conn 0 = []"
    using w sample_append
    by (auto simp: write_stream_def write_stream_with_flags_def sample_conn_api_simps idle_write_def Let_def
        truncate_in_flight_def pending_data_def sample_conn_def new_user_data_def user_data_new_def)
  then show ?thesis
    using write_stream_takes_prefix [OF sample_write_contract reach_server [OF sample_server_new], of "[]" 0 "[1, 2, 3]" False 0]
    by (auto simp: w)
qed

text \<open>The reason of a closed connection is well-formed text whatever bytes the peer sent, and it is
  the peer's text unchanged when that was well formed.\<close>

lemma connection_error_reason:
  "utf8_valid (cerr_reason (get_connection_error api c))
   \<and> (\<forall>e bs. conn_get_ccerr api (c_inner c) = Some e \<and> ce_reason e = Some bs \<and> utf8_valid bs
        \<longrightarrow> cerr_reason (get_connection_error api c) = bs)"
  by (auto simp: get_connection_error_def lossy_valid lossy_id split: option.split)

text \<open>Every callback the crate can dispatch is registered for clients and for servers.\<close>

fun slot_of :: "callback \<Rightarrow> string option" where
  "slot_of (CbHandshakeCompleted _ _) = Some ''handshake_completed''"
| "slot_of CbHandshakeConfirmed = Some ''handshake_confirmed''"
| "slot_of CbEarlyDataRejected = Some ''tls_early_data_rejected''"
| "slot_of (CbStreamOpen _) = Some ''stream_open''"
| "slot_of (CbStreamClose _ _ _ _) = Some ''stream_close2''"
| "slot_of (CbStreamReset _ _ _) = Some ''stream_reset''"
| "slot_of (CbStopSending _ _) = Some ''recv_stop_sending''"
| "slot_of (CbMaxStreamData _ _) = Some ''extend_max_stream_data''"
| "slot_of (CbMaxStreamsBidi _) = Some ''extend_max_local_streams_bidi''"
| "slot_of (CbMaxStreamsUni _) = Some ''extend_max_local_streams_uni''"
| "slot_of (CbStreamData _ _ _) = Some ''recv_stream_data''"
| "slot_of (CbNewToken _) = Some ''recv_new_token''"
| "slot_of (CbAcked _ _ _) = Some ''acked_stream_data_offset''"
| "slot_of (CbDatagram _) = Some ''recv_datagram''"
| "slot_of CbStatelessReset = Some ''recv_stateless_reset2''"
| "slot_of (CbRemoveCid _) = Some ''remove_connection_id''"
| "slot_of (CbPathValidation _ _) = Some ''path_validation''"
| "slot_of (CbNewCid _ _) = Some ''get_new_connection_id''"
| "slot_of (CbQlog _) = None"

lemma callback_registered:
  "slot_of cb = Some s \<Longrightarrow> s \<in> set create_client_callbacks \<and> s \<in> set create_server_callbacks"
  by (cases cb) (auto simp: create_client_callbacks_def create_server_callbacks_def application_callbacks_def)

end
