(* ===== verification/Streams.thy ===== *)
theory Streams
  imports Conn Packet
begin

text \<open>
  Stream data waiting to be sent and its assembly into packets (\<^verbatim>\<open>src/tokio-ngtcp2/src/streams.rs\<close>).
  The table of entries is a map, the ordered set of stream IDs a list in the order of \<^verbatim>\<open>i64\<close>. The loops
  of \<^verbatim>\<open>write_packets\<close> and \<^verbatim>\<open>write_control_packets\<close> end only when ngtcp2 stops producing packets, so they
  are partial functions whose value is \<open>None\<close> when they do not return. Results carry the send buffer and
  the connection as they are afterwards, on errors too.
\<close>

section \<open>Outgoing packets\<close>

record OutgoingPacket =
  op_data :: bytes
  op_local :: SocketAddr
  op_remote :: SocketAddr
  op_ecn :: byte

definition from_written :: "bytes \<Rightarrow> PathInfo option \<Rightarrow> byte \<Rightarrow> OutgoingPacket result" where
  "from_written data path ecn =
    (case path of
       None \<Rightarrow> Err (InternalErr ''ngtcp2 did not report the path of the written packet'')
     | Some p \<Rightarrow> Ok \<lparr>op_data = data, op_local = path_local p, op_remote = path_remote p, op_ecn = ecn\<rparr>)"

text \<open>\<open>None\<close> is a panic of \<^verbatim>\<open>split_packets\<close>.\<close>

definition close_packets :: "bytes \<Rightarrow> SocketAddr \<Rightarrow> SocketAddr \<Rightarrow> byte \<Rightarrow> OutgoingPacket list option" where
  "close_packets data l r ecn =
    map_option (map (\<lambda>p. \<lparr>op_data = p, op_local = l, op_remote = r, op_ecn = ecn\<rparr>)) (split_packets data)"

section \<open>Pending streams\<close>

record PendingStreams =
  ps_entries :: "StreamId \<Rightarrow> (bytes \<times> bool) option"
  ps_order :: "StreamId list"

definition pending_new :: PendingStreams where
  "pending_new = \<lparr>ps_entries = (\<lambda>_. None), ps_order = []\<rparr>"

text \<open>Insertion into a \<^verbatim>\<open>BTreeSet<i64>\<close>.\<close>

definition order_insert :: "StreamId \<Rightarrow> StreamId list \<Rightarrow> StreamId list" where
  "order_insert s ids = (if s \<in> set ids then ids else insort_key sint s ids)"

definition pending_push :: "StreamId \<Rightarrow> bytes \<Rightarrow> bool \<Rightarrow> PendingStreams \<Rightarrow> PendingStreams" where
  "pending_push s data fin p =
    (let (bs, f) = (case ps_entries p s of None \<Rightarrow> ([], False) | Some e \<Rightarrow> e)
     in p\<lparr>ps_entries := (ps_entries p)(s \<mapsto> (bs @ data, f \<or> fin)), ps_order := order_insert s (ps_order p)\<rparr>)"

definition pending_remove :: "StreamId \<Rightarrow> PendingStreams \<Rightarrow> PendingStreams" where
  "pending_remove s p = p\<lparr>ps_entries := (ps_entries p)(s := None), ps_order := removeAll s (ps_order p)\<rparr>"

definition pending_is_empty :: "PendingStreams \<Rightarrow> bool" where
  "pending_is_empty p = (ps_order p = [])"

definition ordered_ids :: "PendingStreams \<Rightarrow> StreamId list" where
  "ordered_ids p = ps_order p"

definition prune :: "StreamId \<Rightarrow> PendingStreams \<Rightarrow> PendingStreams" where
  "prune s p =
    (case ps_entries p s of None \<Rightarrow> p
     | Some (data, fin) \<Rightarrow> if data = [] \<and> \<not> fin then pending_remove s p else p)"

section \<open>Writing packets\<close>

abbreviation (input) WRITE_STREAM_FLAG_MORE :: u32 where "WRITE_STREAM_FLAG_MORE \<equiv> 1"

partial_function (option) control_loop :: "('c, 's, 'z) conn_api_scheme \<Rightarrow> u64 \<Rightarrow> OutgoingPacket list \<Rightarrow> bytes
    \<Rightarrow> ('c, 's) Connection \<Rightarrow> (OutgoingPacket list result \<times> bytes \<times> ('c, 's) Connection) option" where
  "control_loop api ts packets buf c =
    (case write_pkt api buf ts c of
       (Inl e, buf1, c1) \<Rightarrow> Some (Err e, buf1, c1)
     | (Inr (written, info, path), buf1, c1) \<Rightarrow>
       if written = 0 then Some (Ok packets, buf1, c1)
       else case from_written (take written buf1) path (pi_ecn info) of
         Inl e \<Rightarrow> Some (Err e, buf1, c1)
       | Inr p \<Rightarrow> control_loop api ts (packets @ [p]) buf1 c1)"

definition write_control_packets :: "('c, 's, 'z) conn_api_scheme \<Rightarrow> bytes \<Rightarrow> u64 \<Rightarrow> ('c, 's) Connection
    \<Rightarrow> (OutgoingPacket list result \<times> bytes \<times> ('c, 's) Connection) option" where
  "write_control_packets api buf ts c = control_loop api ts [] buf c"

text \<open>The variables of the loop of \<^verbatim>\<open>write_packets\<close>.\<close>

record ('c, 's) pass =
  w_conn :: "('c, 's) Connection"
  w_pending :: PendingStreams
  w_buf :: bytes
  w_packets :: "OutgoingPacket list"
  w_wrote_any :: bool
  w_wrote_packet :: bool
  w_blocked :: bool

text \<open>What a successful write does to the entry of the stream.\<close>

definition drain_entry :: "StreamId \<Rightarrow> nat \<Rightarrow> bool \<Rightarrow> PendingStreams \<Rightarrow> PendingStreams" where
  "drain_entry s consumed clear_fin p =
    (case ps_entries p s of None \<Rightarrow> p
     | Some (data, fin) \<Rightarrow>
       p\<lparr>ps_entries := (ps_entries p)(s \<mapsto> (drop (min consumed (length data)) data, fin \<and> \<not> clear_fin))\<rparr>)"

text \<open>The \<^verbatim>\<open>for\<close> loop over the stream IDs of one pass. The flag asks ngtcp2 to leave room for more unless
  the stream is the last one.\<close>

fun write_ids :: "('c, 's, 'z) conn_api_scheme \<Rightarrow> u64 \<Rightarrow> StreamId list \<Rightarrow> ('c, 's) pass
    \<Rightarrow> unit result \<times> ('c, 's) pass" where
  "write_ids api ts [] w = (Ok (), w)"
| "write_ids api ts (s # ids) w =
    (let flags = (if ids = [] then 0 else WRITE_STREAM_FLAG_MORE) in
     case ps_entries (w_pending w) s of
       None \<Rightarrow> write_ids api ts ids w
     | Some (data, fin) \<Rightarrow>
       if data = [] \<and> \<not> fin then write_ids api ts ids (w\<lparr>w_pending := pending_remove s (w_pending w)\<rparr>)
       else
         (let (res, buf, c) = write_stream_with_flags api (w_buf w) s data fin ts flags (w_conn w);
              w = w\<lparr>w_conn := c, w_buf := buf\<rparr>
          in case res of
            Inr (written, data_written, path, info) \<Rightarrow>
              (let consumed = (case data_written of None \<Rightarrow> 0 | Some n \<Rightarrow> n);
                   fin_accepted = (data_written = Some (length data));
                   w = w\<lparr>w_pending := prune s (drain_entry s consumed (fin \<and> fin_accepted) (w_pending w))\<rparr>;
                   w = (if consumed > 0 \<or> (fin \<and> fin_accepted) then w\<lparr>w_wrote_any := True\<rparr> else w)
               in if written > 0 then
                    (case from_written (take written buf) path (pi_ecn info) of
                       Inl e \<Rightarrow> (Err e, w)
                     | Inr p \<Rightarrow> write_ids api ts ids (w\<lparr>w_packets := w_packets w @ [p], w_wrote_packet := True\<rparr>))
                  else write_ids api ts ids w)
          | Inl (StreamDataBlocked _) \<Rightarrow> (Ok (), w\<lparr>w_blocked := True\<rparr>)
          | Inl (StreamShutWr _) \<Rightarrow> write_ids api ts ids (w\<lparr>w_pending := pending_remove s (w_pending w)\<rparr>)
          | Inl e \<Rightarrow> (Err e, w)))"

partial_function (option) write_loop :: "('c, 's, 'z) conn_api_scheme \<Rightarrow> u64 \<Rightarrow> OutgoingPacket list
    \<Rightarrow> PendingStreams \<Rightarrow> bytes \<Rightarrow> ('c, 's) Connection
    \<Rightarrow> (OutgoingPacket list result \<times> PendingStreams \<times> bytes \<times> ('c, 's) Connection) option" where
  "write_loop api ts packets pending buf c =
    (case write_ids api ts (ordered_ids pending)
            \<lparr>w_conn = c, w_pending = pending, w_buf = buf, w_packets = packets, w_wrote_any = False,
             w_wrote_packet = False, w_blocked = False\<rparr> of
       (Inl e, w) \<Rightarrow> Some (Err e, w_pending w, w_buf w, w_conn w)
     | (Inr _, w) \<Rightarrow>
       Option.bind (write_control_packets api (w_buf w) ts (w_conn w)) (\<lambda>(r, buf1, c1).
         case r of
           Inl e \<Rightarrow> Some (Err e, w_pending w, buf1, c1)
         | Inr control \<Rightarrow>
           if (\<not> w_wrote_any w \<and> \<not> w_wrote_packet w) \<or> w_blocked w \<or> pending_is_empty (w_pending w)
           then Some (Ok (w_packets w @ control), w_pending w, buf1, c1)
           else write_loop api ts (w_packets w @ control) (w_pending w) buf1 c1))"

definition write_packets :: "('c, 's, 'z) conn_api_scheme \<Rightarrow> PendingStreams \<Rightarrow> bytes \<Rightarrow> u64 \<Rightarrow> ('c, 's) Connection
    \<Rightarrow> (OutgoingPacket list result \<times> PendingStreams \<times> bytes \<times> ('c, 's) Connection) option" where
  "write_packets api pending buf ts c = write_loop api ts [] pending buf c"

section \<open>Invariant of the table\<close>

definition pending_ok :: "PendingStreams \<Rightarrow> bool" where
  "pending_ok p \<longleftrightarrow> set (ps_order p) = dom (ps_entries p) \<and> distinct (ps_order p) \<and> sorted (map sint (ps_order p))"

definition pdata :: "PendingStreams \<Rightarrow> StreamId \<Rightarrow> bytes" where
  "pdata p s = (case ps_entries p s of None \<Rightarrow> [] | Some (data, _) \<Rightarrow> data)"

definition pfin :: "PendingStreams \<Rightarrow> StreamId \<Rightarrow> bool" where
  "pfin p s = (case ps_entries p s of None \<Rightarrow> False | Some (_, fin) \<Rightarrow> fin)"

lemma pending_ok_new: "pending_ok pending_new"
  by (simp add: pending_ok_def pending_new_def)

lemma pending_ok_push: "pending_ok p \<Longrightarrow> pending_ok (pending_push s data fin p)"
  by (auto simp: pending_ok_def pending_push_def order_insert_def set_insort_key sorted_insort_key
      distinct_insort Let_def split: option.splits prod.splits)

lemma sorted_removeAll: "sorted (map f xs) \<Longrightarrow> sorted (map f (removeAll x xs))"
  by (induction xs) auto

lemma pending_ok_remove: "pending_ok p \<Longrightarrow> pending_ok (pending_remove s p)"
  by (auto simp: pending_ok_def pending_remove_def distinct_removeAll sorted_removeAll)

lemma pending_ok_prune: "pending_ok p \<Longrightarrow> pending_ok (prune s p)"
  by (auto simp: prune_def pending_ok_remove split: option.split)

lemma pending_ok_drain: "pending_ok p \<Longrightarrow> pending_ok (drain_entry s n b p)"
  by (auto simp: pending_ok_def drain_entry_def split: option.split)

lemmas pending_ok_intros = pending_ok_push pending_ok_remove pending_ok_prune pending_ok_drain

lemma pdata_simps [simp]:
  "pdata (pending_push s data fin p) t = (if t = s then pdata p s @ data else pdata p t)"
  "pdata (pending_remove s p) t = (if t = s then [] else pdata p t)"
  "pdata (prune s p) t = pdata p t"
  "pdata (drain_entry s n b p) t = (if t = s then drop (min n (length (pdata p s))) (pdata p s) else pdata p t)"
  by (auto simp: pdata_def pending_push_def pending_remove_def prune_def drain_entry_def Let_def
      split: option.splits prod.splits)

lemma pfin_simps [simp]:
  "pfin (pending_remove s p) t = (t \<noteq> s \<and> pfin p t)"
  "pfin (prune s p) t = pfin p t"
  "pfin (drain_entry s n b p) t = (pfin p t \<and> \<not> (t = s \<and> b))"
  by (auto simp: pfin_def pending_remove_def prune_def drain_entry_def split: option.splits)

section \<open>No byte is lost\<close>

text \<open>What ngtcp2 documents of a write that fails: no stream data was taken. A stream is kept when ngtcp2
  neither closes it nor refuses to write to it.\<close>

definition error_contract :: "('c, 's, 'z) conn_api_scheme \<Rightarrow> bool" where
  "error_contract api \<longleftrightarrow> (\<forall>inner ssl buf flags s v ts.
     (let out = conn_writev_stream api inner ssl buf flags s v ts
      in cs_rv out < 0 \<and> cs_rv out \<noteq> NGTCP2_ERR_WRITE_MORE \<longrightarrow> cw_datalen out < 0))"

definition keeps_stream :: "('c, 's, 'z) conn_api_scheme \<Rightarrow> StreamId \<Rightarrow> bool" where
  "keeps_stream api sid \<longleftrightarrow>
     (\<forall>inner ssl buf flags s v ts. \<not> closes sid (cs_cbs (conn_writev_stream api inner ssl buf flags s v ts)))
     \<and> (\<forall>inner ssl buf flags v ts. cs_rv (conn_writev_stream api inner ssl buf flags sid v ts) \<noteq> NGTCP2_ERR_STREAM_SHUT_WR)
     \<and> (\<forall>inner ssl buf ts. \<not> closes sid (cs_cbs (conn_write_pkt api inner ssl buf ts)))"

lemma stream_write_reach:
  assumes con: "write_contract api" and reach: "conn_reach api ssl (c, S, H)" and keep: "keeps_stream api sid"
    and w: "write_stream_with_flags api buf s data fin ts flags c = (res, buf1, c1)"
    and a: "a = nat (cw_datalen (stream_call api buf s data fin ts flags c))"
  obtains S1 H1 where "conn_reach api ssl (c1, S1, H1)"
    "S1 sid = (if s = sid then S sid @ take a data else S sid)" "a \<le> length data"
proof -
  obtain p r i bs d1 where ap: "append_in_flight s data (c_user_data c) = (p, ((r, i), bs), d1)"
    by (metis prod.collapse)
  let ?out = "stream_call api buf s data fin ts flags c"
  have c1: "c1 = conn_run_op api (OpStream buf s data fin ts flags) c" using w by simp
  have nc: "\<not> closes sid (cs_cbs ?out)" using keep by (simp add: keeps_stream_def stream_call_def ap)
  let ?S1 = "if closes s (cs_cbs ?out) then fold cb_sent (cs_cbs ?out) S
     else (fold cb_sent (cs_cbs ?out) S)(s := S s @ take a data)"
  obtain H1 where st: "conn_step api (c, S, H) (c1, ?S1, H1)"
    using step_stream [OF refl refl ap refl refl refl refl, where api = api and buf = buf and fin = fin
      and ts = ts and flags = flags and S = S and H = H] unfolding c1 a by blast
  have S1: "?S1 sid = (if s = sid then S sid @ take a data else S sid)"
    using nc by (auto simp: fold_cb_at)
  have "user_inv (c_user_data c) S H" using conn_reach_inv [OF con reach] by simp
  then have "bs = data" by (rule append_in_flight_inv [OF _ ap]) simp
  moreover have "cw_datalen ?out \<le> int (length bs)" using con by (simp add: write_contract_def stream_call_def ap)
  ultimately have "a \<le> length data" using a by simp
  with that [OF reach_op [OF reach st] S1] show ?thesis by blast
qed

lemma stream_write_result:
  assumes "error_contract api" "keeps_stream api sid"
    and "write_stream_with_flags api buf s data fin ts flags c = (res, buf1, c1)"
    and "a = nat (cw_datalen (stream_call api buf s data fin ts flags c))"
  shows "(case res of
     Inr (n, w, _, _) \<Rightarrow> (case w of None \<Rightarrow> 0 | Some k \<Rightarrow> k) = a
   | Inl e \<Rightarrow> a = 0 \<and> (\<forall>t. e = StreamShutWr t \<longrightarrow> s \<noteq> sid))"
proof -
  let ?out = "stream_call api buf s data fin ts flags c"
  obtain p r i bs d1 where ap: "append_in_flight s data (c_user_data c) = (p, ((r, i), bs), d1)"
    by (metis prod.collapse)
  have e: "cs_rv ?out < 0 \<Longrightarrow> cs_rv ?out \<noteq> NGTCP2_ERR_WRITE_MORE \<Longrightarrow> cw_datalen ?out < 0"
    using assms(1) by (auto simp: error_contract_def stream_call_def Let_def ap)
  have k: "s = sid \<Longrightarrow> cs_rv ?out \<noteq> NGTCP2_ERR_STREAM_SHUT_WR"
    using assms(2) ap by (auto simp: keeps_stream_def stream_call_def)
  show ?thesis
    using assms(3,4) e k ap
    by (auto simp: write_stream_with_flags_def stream_call_def from_ngtcp2_def Let_def split: if_splits)
qed

text \<open>A control packet is a step of the connection as well.\<close>

lemma write_pkt_reach:
  assumes reach: "conn_reach api ssl (c, S, H)" and keep: "keeps_stream api sid"
    and w: "write_pkt api buf ts c = (res, buf1, c1)"
  obtains S1 H1 where "conn_reach api ssl (c1, S1, H1)" "S1 sid = S sid"
proof -
  have "c1 = conn_run_op api (OpWrite buf ts) c" using w by simp
  then have "conn_step api (c, S, H) (c1, fold cb_sent (op_callbacks api (OpWrite buf ts) c) S,
      fold cb_held (op_callbacks api (OpWrite buf ts) c) H)"
    using step_op [of "OpWrite buf ts" _ api c S H] by simp
  moreover have "fold cb_sent (op_callbacks api (OpWrite buf ts) c) S sid = S sid"
    using keep by (simp add: fold_cb_at keeps_stream_def)
  ultimately show ?thesis using that reach_op [OF reach] by blast
qed

text \<open>The promise kept by every step of a write: what ngtcp2 took followed by what is still pending is
  \<open>T\<close>, and a requested end of stream is pending or everything was taken.\<close>

definition kept :: "('c, 's, 'z) conn_api_scheme \<Rightarrow> 's ssl_api \<Rightarrow> StreamId \<Rightarrow> bytes \<Rightarrow> bool
    \<Rightarrow> ('c, 's) Connection \<Rightarrow> PendingStreams \<Rightarrow> bool" where
  "kept api ssl sid T F c p \<longleftrightarrow>
     (\<exists>S H. conn_reach api ssl (c, S, H) \<and> S sid @ pdata p sid = T) \<and> (F \<longrightarrow> pfin p sid \<or> pdata p sid = [])"

lemma kept_write:
  assumes con: "write_contract api" "error_contract api" "keeps_stream api sid"
    and k: "kept api ssl sid T F c p" and e: "ps_entries p s = Some (data, fin)"
    and w: "write_stream_with_flags api buf s data fin ts flags c = (res, buf1, c1)"
  shows "(case res of
     Inr (n, dw, _, _) \<Rightarrow> kept api ssl sid T F c1
       (prune s (drain_entry s (case dw of None \<Rightarrow> 0 | Some m \<Rightarrow> m) (fin \<and> dw = Some (length data)) p))
   | Inl err \<Rightarrow> kept api ssl sid T F c1 p \<and> (\<forall>t. err = StreamShutWr t \<longrightarrow> s \<noteq> sid))"
proof -
  obtain S H where r: "conn_reach api ssl (c, S, H)" and T: "S sid @ pdata p sid = T"
    and F: "F \<longrightarrow> pfin p sid \<or> pdata p sid = []" using k by (auto simp: kept_def)
  define a where "a = nat (cw_datalen (stream_call api buf s data fin ts flags c))"
  obtain S1 H1 where r1: "conn_reach api ssl (c1, S1, H1)"
    and S1: "S1 sid = (if s = sid then S sid @ take a data else S sid)" and a: "a \<le> length data"
    by (rule stream_write_reach [OF con(1) r con(3) w a_def])
  have d: "pdata p s = data" using e by (simp add: pdata_def)
  note res = stream_write_result [OF con(2,3) w a_def]
  show ?thesis
  proof (cases res)
    case (Inl err)
    then have "S1 sid @ pdata p sid = T" using res S1 T by auto
    then show ?thesis using Inl res r1 F by (auto simp: kept_def)
  next
    case (Inr x)
    obtain n dw path info where x: "x = (n, dw, path, info)" by (cases x) auto
    have dw: "(case dw of None \<Rightarrow> 0 | Some m \<Rightarrow> m) = a" using res Inr x by simp
    have "dw = Some (length data) \<Longrightarrow> a = length data" using dw by auto
    then show ?thesis using Inr x dw r1 S1 T F d a by (auto simp: kept_def)
  qed
qed

lemma kept_remove: "kept api ssl sid T F c p \<Longrightarrow> s \<noteq> sid \<or> pdata p s = [] \<and> \<not> pfin p s
    \<Longrightarrow> kept api ssl sid T F c (pending_remove s p)"
  by (auto simp: kept_def)

text \<open>The pass after ngtcp2 took data of a stream, and after a packet was completed.\<close>

definition took :: "bytes \<Rightarrow> ('c, 's) Connection \<Rightarrow> StreamId \<Rightarrow> nat \<Rightarrow> bool \<Rightarrow> ('c, 's) pass \<Rightarrow> ('c, 's) pass" where
  "took buf c s k f w =
    (let w = w\<lparr>w_conn := c, w_buf := buf, w_pending := prune s (drain_entry s k f (w_pending w))\<rparr>
     in if k > 0 \<or> f then w\<lparr>w_wrote_any := True\<rparr> else w)"

definition packed :: "OutgoingPacket \<Rightarrow> ('c, 's) pass \<Rightarrow> ('c, 's) pass" where
  "packed pk w = w\<lparr>w_packets := w_packets w @ [pk], w_wrote_packet := True\<rparr>"

lemma took_simps [simp]: "w_conn (took buf c s k f w) = c"
    "w_pending (took buf c s k f w) = prune s (drain_entry s k f (w_pending w))"
    "w_wrote_packet (took buf c s k f w) = w_wrote_packet w"
    "w_wrote_any (took buf c s k f w) \<longleftrightarrow> 0 < k \<or> f \<or> w_wrote_any w"
    "w_conn (packed pk w) = w_conn w" "w_pending (packed pk w) = w_pending w"
  by (simp_all add: took_def packed_def Let_def)

lemma write_ids_taken:
  assumes e: "ps_entries (w_pending w) s = Some (data, fin)" and ne: "\<not> (data = [] \<and> \<not> fin)"
    and w: "write_stream_with_flags api (w_buf w) s data fin ts (if ids = [] then 0 else WRITE_STREAM_FLAG_MORE) (w_conn w)
      = (Inr (n, dw, path, info), buf, c)"
  shows "write_ids api ts (s # ids) w =
    (let w1 = took buf c s (case dw of None \<Rightarrow> 0 | Some k \<Rightarrow> k) (fin \<and> dw = Some (length data)) w
     in if n > 0 then
          case from_written (take n buf) path (pi_ecn info) of Inl e \<Rightarrow> (Err e, w1)
          | Inr pk \<Rightarrow> write_ids api ts ids (packed pk w1)
        else write_ids api ts ids w1)"
proof -
  have pw: "w_pending (w\<lparr>w_conn := c, w_buf := buf\<rparr>) = w_pending w" by simp
  show ?thesis
    unfolding write_ids.simps(2) Let_def e option.case prod.case if_not_P [OF ne] w sum.case took_def packed_def pw
    by (rule refl)
qed

text \<open>What a pass keeps: it is enough to look at an entry that is empty, at a write that fails and at one
  that succeeds.\<close>

lemma write_ids_rule:
  assumes "I w" and "write_ids api ts ids w = (r, w1)"
    and empty: "\<And>w s. I w \<Longrightarrow> ps_entries (w_pending w) s = Some ([], False) \<Longrightarrow>
      I (w\<lparr>w_pending := pending_remove s (w_pending w)\<rparr>)"
    and fail: "\<And>w s data fin fl e buf c. I w \<Longrightarrow> ps_entries (w_pending w) s = Some (data, fin) \<Longrightarrow>
      write_stream_with_flags api (w_buf w) s data fin ts fl (w_conn w) = (Inl e, buf, c) \<Longrightarrow>
      (\<forall>b. I (w\<lparr>w_conn := c, w_buf := buf, w_blocked := b\<rparr>))
      \<and> (\<forall>t. e = StreamShutWr t \<longrightarrow> I (w\<lparr>w_conn := c, w_buf := buf, w_pending := pending_remove s (w_pending w)\<rparr>))"
    and taken: "\<And>w s data fin fl n dw path info buf c. I w \<Longrightarrow> ps_entries (w_pending w) s = Some (data, fin) \<Longrightarrow>
      write_stream_with_flags api (w_buf w) s data fin ts fl (w_conn w) = (Inr (n, dw, path, info), buf, c) \<Longrightarrow>
      (let w1 = took buf c s (case dw of None \<Rightarrow> 0 | Some k \<Rightarrow> k) (fin \<and> dw = Some (length data)) w
       in I w1 \<and> (\<forall>pk. 0 < n \<longrightarrow> I (packed pk w1)))"
  shows "I w1"
  using assms(1,2)
proof (induction ids arbitrary: w)
  case (Cons s ids)
  show ?case
  proof (cases "ps_entries (w_pending w) s")
    case None
    then show ?thesis using Cons by simp
  next
    case (Some e)
    obtain data fin where e: "ps_entries (w_pending w) s = Some (data, fin)" using Some by (cases e) auto
    let ?fl = "if ids = [] then 0 else WRITE_STREAM_FLAG_MORE"
    obtain res buf c where w: "write_stream_with_flags api (w_buf w) s data fin ts ?fl (w_conn w) = (res, buf, c)"
      by (metis prod.collapse)
    have same: "w\<lparr>w_conn := c, w_buf := buf, w_blocked := w_blocked w\<rparr> = w\<lparr>w_conn := c, w_buf := buf\<rparr>" by simp
    show ?thesis
    proof (cases "data = [] \<and> \<not> fin")
      case True
      then show ?thesis using Cons.IH [OF empty [OF Cons.prems(1)]] Cons.prems(2) e by simp
    next
      case False
      show ?thesis
      proof (cases res)
        case (Inl err)
        have f: "\<And>b. I (w\<lparr>w_conn := c, w_buf := buf, w_blocked := b\<rparr>)"
          "\<And>t. err = StreamShutWr t \<Longrightarrow> I (w\<lparr>w_conn := c, w_buf := buf, w_pending := pending_remove s (w_pending w)\<rparr>)"
          using fail [OF Cons.prems(1) e w [unfolded Inl]] by blast+
        show ?thesis
          using Cons.prems(2) Cons.IH [OF f(2)] f(1) [of True] f(1) [of "w_blocked w"] Inl e False w same
          by (cases err) auto
      next
        case (Inr x)
        obtain n dw path info where x: "x = (n, dw, path, info)" by (cases x)
        let ?k = "case dw of None \<Rightarrow> 0 | Some k \<Rightarrow> k" and ?f = "fin \<and> dw = Some (length data)"
        have i: "I (took buf c s ?k ?f w)" "\<And>pk. 0 < n \<Longrightarrow> I (packed pk (took buf c s ?k ?f w))"
          using taken [OF Cons.prems(1) e w [unfolded Inr x]] by (simp_all add: Let_def)
        show ?thesis
          using Cons.prems(2) Cons.IH [OF i(1)] Cons.IH [OF i(2)] i(1)
          by (auto simp: write_ids_taken [OF e False w [unfolded Inr x]] Let_def simp del: write_ids.simps split: if_splits sum.splits)
      qed
    qed
  qed
qed simp

lemma kept_ids:
  assumes con: "write_contract api" "error_contract api" "keeps_stream api sid"
    and "kept api ssl sid T F (w_conn w) (w_pending w)" and "write_ids api ts ids w = (r, w1)"
  shows "kept api ssl sid T F (w_conn w1) (w_pending w1)"
  using assms(4,5)
proof (rule write_ids_rule)
  fix w :: "('a, 'b) pass" and s assume "kept api ssl sid T F (w_conn w) (w_pending w)" "ps_entries (w_pending w) s = Some ([], False)"
  then show "kept api ssl sid T F (w_conn (w\<lparr>w_pending := pending_remove s (w_pending w)\<rparr>))
      (w_pending (w\<lparr>w_pending := pending_remove s (w_pending w)\<rparr>))"
    by (simp add: kept_remove pdata_def pfin_def)
next
  fix w :: "('a, 'b) pass" and s data fin fl e buf c
  assume "kept api ssl sid T F (w_conn w) (w_pending w)" "ps_entries (w_pending w) s = Some (data, fin)"
    "write_stream_with_flags api (w_buf w) s data fin ts fl (w_conn w) = (Inl e, buf, c)"
  from kept_write [OF con this]
  show "(\<forall>b. kept api ssl sid T F (w_conn (w\<lparr>w_conn := c, w_buf := buf, w_blocked := b\<rparr>))
        (w_pending (w\<lparr>w_conn := c, w_buf := buf, w_blocked := b\<rparr>)))
    \<and> (\<forall>t. e = StreamShutWr t \<longrightarrow> kept api ssl sid T F
        (w_conn (w\<lparr>w_conn := c, w_buf := buf, w_pending := pending_remove s (w_pending w)\<rparr>))
        (w_pending (w\<lparr>w_conn := c, w_buf := buf, w_pending := pending_remove s (w_pending w)\<rparr>)))"
    by (simp add: kept_remove)
qed (use kept_write [OF con] in \<open>force simp: Let_def\<close>)

lemma kept_write_pkt:
  assumes "keeps_stream api sid" "kept api ssl sid T F c p" "write_pkt api buf ts c = (res, buf1, c1)"
  shows "kept api ssl sid T F c1 p"
proof -
  obtain S H where "conn_reach api ssl (c, S, H)" "S sid @ pdata p sid = T"
    using assms(2) by (auto simp: kept_def)
  moreover obtain S1 H1 where "conn_reach api ssl (c1, S1, H1)" "S1 sid = S sid"
    by (rule write_pkt_reach [OF calculation(1) assms(1,3)])
  ultimately show ?thesis using assms(2) unfolding kept_def by metis
qed

lemmas control_induct = control_loop.raw_induct [rotated, consumes 1, case_names step]
lemmas write_induct = write_loop.raw_induct [rotated, consumes 1, case_names step]

lemma kept_control:
  assumes "control_loop api ts packets buf c = Some y" "keeps_stream api sid" "kept api ssl sid T F c p"
  shows "kept api ssl sid T F (snd (snd y)) p"
  using assms
proof (induction rule: control_induct)
  case (step loop api ts packets buf c y)
  obtain res buf1 c1 where w: "write_pkt api buf ts c = (res, buf1, c1)" by (metis prod.collapse)
  have k: "kept api ssl sid T F c1 p" using kept_write_pkt [OF step(3,4) w] .
  show ?case
    using step(1) [OF _ step(3) k] step(2) k w by (auto split: sum.splits prod.splits if_splits)
qed

lemma kept_loop:
  assumes "write_loop api ts packets p buf c = Some y"
    and "write_contract api" "error_contract api" "keeps_stream api sid" "kept api ssl sid T F c p"
  shows "kept api ssl sid T F (snd (snd (snd y))) (fst (snd y))"
  using assms
proof (induction rule: write_induct)
  case (step loop api ts packets p buf c y)
  let ?w = "\<lparr>w_conn = c, w_pending = p, w_buf = buf, w_packets = packets, w_wrote_any = False,
             w_wrote_packet = False, w_blocked = False\<rparr>"
  obtain r w where w: "write_ids api ts (ordered_ids p) ?w = (r, w)" by (metis prod.collapse)
  have k: "kept api ssl sid T F (w_conn w) (w_pending w)"
    using kept_ids [OF step(3-5) _ w] step(6) by simp
  show ?case
  proof (cases r)
    case (Inl e)
    then show ?thesis using step(2) w k by auto
  next
    case (Inr u)
    obtain r2 buf1 c1 where c: "write_control_packets api (w_buf w) ts (w_conn w) = Some (r2, buf1, c1)"
      using step(2) w Inr by (auto simp: bind_eq_Some_conv)
    have k1: "kept api ssl sid T F c1 (w_pending w)"
      using kept_control [OF c [unfolded write_control_packets_def] step(5) k] by simp
    show ?thesis
      using step(1) [OF _ step(3-5) k1] step(2) w Inr c k1 by (auto split: sum.splits if_splits)
  qed
qed

section \<open>Termination\<close>

text \<open>What bounds a sender: every packet ngtcp2 produces uses up part of a budget (congestion window,
  amplification limit, control data to send) that only received packets and timers refill.\<close>

definition send_budget :: "('c, 's, 'z) conn_api_scheme \<Rightarrow> ('c \<Rightarrow> nat) \<Rightarrow> bool" where
  "send_budget api budget \<longleftrightarrow>
     (\<forall>inner ssl buf ts. let out = conn_write_pkt api inner ssl buf ts
        in budget (cs_conn out) \<le> budget inner \<and> (cs_rv out > 0 \<longrightarrow> budget (cs_conn out) < budget inner))
     \<and> (\<forall>inner ssl buf flags s v ts. let out = conn_writev_stream api inner ssl buf flags s v ts
        in budget (cs_conn out) \<le> budget inner \<and> (cs_rv out > 0 \<longrightarrow> budget (cs_conn out) < budget inner))"

definition psize :: "PendingStreams \<Rightarrow> nat" where
  "psize p = (\<Sum>s \<in> set (ps_order p). length (pdata p s) + of_bool (pfin p s))"

lemma order_simps [simp]:
  "ps_order (pending_remove s p) = removeAll s (ps_order p)"
  "ps_order (drain_entry s n b p) = ps_order p"
  by (auto simp: pending_remove_def drain_entry_def split: option.split)

lemma psize_remove: "psize (pending_remove s p) \<le> psize p"
  unfolding psize_def by (rule order_trans [OF sum_mono sum_mono2]) auto

lemma psize_prune: "psize (prune s p) \<le> psize p"
  by (auto simp: prune_def psize_remove split: option.split)

lemma psize_drain:
  "psize (drain_entry s n b p) \<le> psize p"
  "s \<in> set (ps_order p) \<Longrightarrow> 0 < min n (length (pdata p s)) \<or> b \<and> pfin p s \<Longrightarrow> psize (drain_entry s n b p) < psize p"
  unfolding psize_def
  by (auto intro!: sum_mono sum_strict_mono_ex1)

definition reachable :: "('c, 's, 'z) conn_api_scheme \<Rightarrow> 's ssl_api \<Rightarrow> ('c, 's) Connection \<Rightarrow> bool" where
  "reachable api ssl c \<longleftrightarrow> (\<exists>S H. conn_reach api ssl (c, S, H))"

lemma reachable_op: "reachable api ssl c \<Longrightarrow> reachable api ssl (conn_run_op api op c)"
proof (cases "is_stream_op op")
  case False
  assume "reachable api ssl c"
  then show ?thesis using step_op [OF False refl] reach_op unfolding reachable_def by blast
next
  case True
  assume "reachable api ssl c"
  then obtain S H where r: "conn_reach api ssl (c, S, H)" by (auto simp: reachable_def)
  obtain buf sid data fin ts flags where o: "op = OpStream buf sid data fin ts flags" using True by (cases op) auto
  obtain p r' i bs d1 where ap: "append_in_flight sid data (c_user_data c) = (p, ((r', i), bs), d1)"
    by (metis prod.collapse)
  show ?thesis
    unfolding reachable_def using reach_op [OF r step_stream [OF o refl ap refl refl refl refl]] by blast
qed

lemma write_pkt_op: "snd (snd (write_pkt api buf ts c)) = conn_run_op api (OpWrite buf ts) c"
  by simp

lemma stream_write_bound:
  assumes "write_contract api" "reachable api ssl c"
    and "write_stream_with_flags api buf s data fin ts flags c = (Inr (n, dw, path, info), buf1, c1)"
  shows "(case dw of None \<Rightarrow> 0 | Some m \<Rightarrow> m) \<le> length data"
proof -
  obtain S H where r: "conn_reach api ssl (c, S, H)" using assms(2) by (auto simp: reachable_def)
  obtain p r' i bs d1 where ap: "append_in_flight s data (c_user_data c) = (p, ((r', i), bs), d1)"
    by (metis prod.collapse)
  have "user_inv (c_user_data c) S H" using conn_reach_inv [OF assms(1) r] by simp
  then have "bs = data" by (rule append_in_flight_inv [OF _ ap]) simp
  moreover have "cw_datalen (stream_call api buf s data fin ts flags c) \<le> int (length bs)"
    using assms(1) by (simp add: write_contract_def stream_call_def ap)
  ultimately show ?thesis
    using assms(3) ap
    by (auto simp: write_stream_with_flags_def stream_call_def Let_def split: if_splits)
qed

lemma stream_write_budget:
  assumes "send_budget api budget"
    and "write_stream_with_flags api buf s data fin ts flags c = (res, buf1, c1)"
  shows "budget (c_inner c1) \<le> budget (c_inner c)
    \<and> (\<forall>n dw path info. res = Inr (n, dw, path, info) \<and> n > 0 \<longrightarrow> budget (c_inner c1) < budget (c_inner c))"
proof -
  obtain p r' i bs d1 where ap: "append_in_flight s data (c_user_data c) = (p, ((r', i), bs), d1)"
    by (metis prod.collapse)
  let ?out = "stream_call api buf s data fin ts flags c"
  have "budget (cs_conn ?out) \<le> budget (c_inner c)" "cs_rv ?out > 0 \<longrightarrow> budget (cs_conn ?out) < budget (c_inner c)"
    using assms(1) unfolding send_budget_def stream_call_def Let_def by blast+
  then show ?thesis
    using assms(2) ap
    by (auto simp: write_stream_with_flags_def stream_call_def c_apply_def Let_def split: if_splits)
qed

definition work :: "('c \<Rightarrow> nat) \<Rightarrow> ('c, 's) Connection \<Rightarrow> PendingStreams \<Rightarrow> nat" where
  "work budget c p = budget (c_inner c) + psize p"

text \<open>A pass keeps the table well formed, and if it made progress there is less work left.\<close>

definition pass_ok :: "('c, 's, 'z) conn_api_scheme \<Rightarrow> 's ssl_api \<Rightarrow> ('c \<Rightarrow> nat) \<Rightarrow> nat \<Rightarrow> ('c, 's) pass \<Rightarrow> bool" where
  "pass_ok api ssl budget n w \<longleftrightarrow> reachable api ssl (w_conn w) \<and> pending_ok (w_pending w)
     \<and> work budget (w_conn w) (w_pending w) \<le> n
     \<and> (w_wrote_any w \<or> w_wrote_packet w \<longrightarrow> work budget (w_conn w) (w_pending w) < n)"

lemma pass_ok_less:
  "pass_ok api ssl budget n w \<Longrightarrow> reachable api ssl c \<Longrightarrow> pending_ok p \<Longrightarrow>
    work budget c p \<le> work budget (w_conn w) (w_pending w) \<Longrightarrow>
    pass_ok api ssl budget n (w\<lparr>w_conn := c, w_buf := buf, w_pending := p\<rparr>)"
  by (auto simp: pass_ok_def)

lemma pass_ok_progress:
  "pass_ok api ssl budget n w \<Longrightarrow> reachable api ssl (w_conn w1) \<Longrightarrow> pending_ok (w_pending w1) \<Longrightarrow>
    work budget (w_conn w1) (w_pending w1) < work budget (w_conn w) (w_pending w) \<Longrightarrow> pass_ok api ssl budget n w1"
  by (auto simp: pass_ok_def)

lemma pass_taken:
  assumes con: "write_contract api" "send_budget api budget"
    and p: "pass_ok api ssl budget n w" and e: "ps_entries (w_pending w) s = Some (data, fin)"
    and w: "write_stream_with_flags api (w_buf w) s data fin ts fl (w_conn w) = (Inr (m, dw, path, info), buf, c)"
    and k: "k = (case dw of None \<Rightarrow> 0 | Some m \<Rightarrow> m)" and f: "f \<longleftrightarrow> fin \<and> dw = Some (length data)"
  shows "pass_ok api ssl budget n (took buf c s k f w)" and "0 < m \<Longrightarrow> pass_ok api ssl budget n (packed pk (took buf c s k f w))"
proof -
  let ?p = "w_pending w" and ?p1 = "prune s (drain_entry s k f (w_pending w))"
  have ok: "pending_ok ?p" and re: "reachable api ssl (w_conn w)" using p by (auto simp: pass_ok_def)
  have rc: "reachable api ssl c" using reachable_op [OF re, of "OpStream (w_buf w) s data fin ts fl"] w by simp
  note bud = stream_write_budget [OF con(2) w]
  have "k \<le> length data" using stream_write_bound [OF con(1) re w] by (simp add: k)
  moreover have "s \<in> set (ps_order ?p)" "pdata ?p s = data" "pfin ?p s = fin"
    using ok e by (auto simp: pending_ok_def pdata_def pfin_def)
  ultimately have le: "psize ?p1 \<le> psize ?p" "0 < k \<or> f \<Longrightarrow> psize ?p1 < psize ?p"
    using psize_prune [of s "drain_entry s k f ?p"] psize_drain [where s = s and n = k and b = f and p = ?p]
    by (auto simp: f)
  have ok1: "pending_ok ?p1" using ok by (intro pending_ok_intros)
  show "pass_ok api ssl budget n (took buf c s k f w)"
    using p le bud rc ok1 by (cases "0 < k \<or> f") (auto simp: pass_ok_def work_def)
  show "0 < m \<Longrightarrow> pass_ok api ssl budget n (packed pk (took buf c s k f w))"
    using bud le(1) rc ok1 by (intro pass_ok_progress [OF p]) (auto simp: work_def)
qed

lemma pass_ids:
  assumes con: "write_contract api" "send_budget api budget"
    and "pass_ok api ssl budget n w" and "write_ids api ts ids w = (r, w1)"
  shows "pass_ok api ssl budget n w1"
  using assms(3,4)
proof (rule write_ids_rule)
  fix w :: "('a, 'b) pass" and s assume p: "pass_ok api ssl budget n w"
  then show "pass_ok api ssl budget n (w\<lparr>w_pending := pending_remove s (w_pending w)\<rparr>)"
    using psize_remove [of s "w_pending w"] pending_ok_remove by (auto simp: pass_ok_def work_def)
next
  fix w :: "('a, 'b) pass" and s data fin fl e buf c
  assume p: "pass_ok api ssl budget n w"
    and w: "write_stream_with_flags api (w_buf w) s data fin ts fl (w_conn w) = (Inl e, buf, c)"
  have ok: "pending_ok (w_pending w)" and re: "reachable api ssl (w_conn w)" using p by (auto simp: pass_ok_def)
  have rc: "reachable api ssl c" using reachable_op [OF re, of "OpStream (w_buf w) s data fin ts fl"] w by simp
  show "(\<forall>b. pass_ok api ssl budget n (w\<lparr>w_conn := c, w_buf := buf, w_blocked := b\<rparr>))
    \<and> (\<forall>t. e = StreamShutWr t \<longrightarrow> pass_ok api ssl budget n (w\<lparr>w_conn := c, w_buf := buf, w_pending := pending_remove s (w_pending w)\<rparr>))"
    using stream_write_budget [OF con(2) w] psize_remove [of s "w_pending w"] pending_ok_remove [OF ok] p rc
    by (auto simp: pass_ok_def work_def)
qed (use pass_taken [OF con] in \<open>simp add: Let_def\<close>)

lemma control_loop_returns:
  assumes "send_budget api budget" "reachable api ssl c"
  shows "\<exists>r buf1 c1. control_loop api ts packets buf c = Some (r, buf1, c1)
    \<and> reachable api ssl c1 \<and> budget (c_inner c1) \<le> budget (c_inner c)"
  using assms(2)
proof (induction "budget (c_inner c)" arbitrary: c buf packets rule: less_induct)
  case less
  obtain res buf1 c1 where w: "write_pkt api buf ts c = (res, buf1, c1)" by (metis prod.collapse)
  have r1: "reachable api ssl c1" using reachable_op [OF less(2), of "OpWrite buf ts"] w by simp
  have b: "budget (c_inner c1) \<le> budget (c_inner c)"
    "\<And>n info path. res = Inr (n, info, path) \<Longrightarrow> n > 0 \<Longrightarrow> budget (c_inner c1) < budget (c_inner c)"
    using assms(1) w by (auto simp: send_budget_def write_pkt_def c_apply_def Let_def split: if_splits)
  show ?case
  proof (cases "\<exists>n info path p. res = Inr (n, info, path) \<and> n > 0
      \<and> from_written (take n buf1) path (pi_ecn info) = Inr p")
    case True
    then obtain n info path p where x: "res = Inr (n, info, path)" "n > 0"
      "from_written (take n buf1) path (pi_ecn info) = Inr p" by blast
    then show ?thesis
      using less(1) [OF b(2) [OF x(1,2)] r1, of "packets @ [p]" buf1] b(1)
      by (subst control_loop.simps) (auto simp: w)
  next
    case False
    then show ?thesis
      using r1 b(1) by (subst control_loop.simps) (auto simp: w split: sum.split prod.split)
  qed
qed

lemma write_loop_returns:
  assumes con: "write_contract api" "send_budget api budget" and "reachable api ssl c" "pending_ok p"
  shows "\<exists>y. write_loop api ts packets p buf c = Some y"
  using assms(3,4)
proof (induction "work budget c p" arbitrary: c p buf packets rule: less_induct)
  case less
  let ?w = "\<lparr>w_conn = c, w_pending = p, w_buf = buf, w_packets = packets, w_wrote_any = False,
             w_wrote_packet = False, w_blocked = False\<rparr>"
  obtain r w where w: "write_ids api ts (ordered_ids p) ?w = (r, w)" by (metis prod.collapse)
  have ok: "pass_ok api ssl budget (work budget c p) w"
    by (rule pass_ids [OF con _ w]) (use less(2,3) in \<open>simp add: pass_ok_def\<close>)
  have rw: "reachable api ssl (w_conn w)" using ok by (simp add: pass_ok_def)
  obtain r2 buf1 c1 where c: "control_loop api ts [] (w_buf w) (w_conn w) = Some (r2, buf1, c1)"
    and r1: "reachable api ssl c1" and b: "budget (c_inner c1) \<le> budget (c_inner (w_conn w))"
    using control_loop_returns [OF con(2) rw] by blast
  show ?case
  proof (cases "w_wrote_any w \<or> w_wrote_packet w")
    case True
    then have "work budget c1 (w_pending w) < work budget c p" using ok b by (auto simp: pass_ok_def work_def)
    then have "\<exists>y. write_loop api ts pk (w_pending w) buf1 c1 = Some y" for pk
      using less(1) r1 ok unfolding pass_ok_def by blast
    then show ?thesis
      by (subst write_loop.simps) (auto simp: w c write_control_packets_def split: sum.split)
  next
    case False
    then show ?thesis
      by (subst write_loop.simps) (auto simp: w c write_control_packets_def split: sum.split)
  qed
qed

section \<open>Properties\<close>

text \<open>C2. Sending neither loses, repeats nor reorders stream data: when \<^verbatim>\<open>write_packets\<close> returns, with or
  without an error, the bytes of a stream that ngtcp2 has taken followed by the bytes still pending
  are the same sequence as before the call, and a requested end of stream is still pending or all
  data was taken. ngtcp2 is assumed to behave as documented and to keep the stream open.\<close>

theorem write_packets_lossless:
  assumes "write_contract api" and "error_contract api" and "keeps_stream api sid"
    and "conn_reach api ssl (c, S, H)"
    and "write_packets api p buf ts c = Some (r, p1, buf1, c1)"
  shows "\<exists>S1 H1. conn_reach api ssl (c1, S1, H1) \<and> S1 sid @ pdata p1 sid = S sid @ pdata p sid
    \<and> (pfin p sid \<longrightarrow> pfin p1 sid \<or> pdata p1 sid = [])"
proof -
  have "kept api ssl sid (S sid @ pdata p sid) (pfin p sid) c p" using assms(4) by (auto simp: kept_def)
  then have "kept api ssl sid (S sid @ pdata p sid) (pfin p sid) c1 p1"
    using kept_loop [OF assms(5) [unfolded write_packets_def] assms(1-3)] by simp
  then show ?thesis unfolding kept_def by blast
qed

text \<open>A C library that takes everything offered and completes no packet itself.\<close>

definition quiet_api :: "(unit, unit) conn_api" where
  "quiet_api = sample_conn_api\<lparr>conn_writev_stream := (\<lambda>c s b f i v t. idle_write NGTCP2_ERR_WRITE_MORE (int (length (snd v))) b)\<rparr>"

lemmas quiet_api_simps = quiet_api_def sample_conn_api_simps idle_write_def

lemma quiet_contracts:
  "write_contract quiet_api" "error_contract quiet_api" "keeps_stream quiet_api sid" "send_budget quiet_api (\<lambda>_. 0)"
  by (auto simp: write_contract_def error_contract_def keeps_stream_def send_budget_def quiet_api_simps
      closes_def acks_def)

lemma quiet_reach: "conn_reach quiet_api sample_ssl (sample_conn, \<lambda>_. [], \<lambda>_. {})"
proof -
  have "server_new quiet_api sample_ssl empty_mem (ConnectionId [1]) (ConnectionId [2]) (SockV4 1 2) (SockV4 3 4) V1
      sample_tls (zero_params\<lparr>tp_original_dcid_present := 1\<rparr>) (settings_new zero_settings 0)
      \<lparr>live_conn = [], next_conn = 0\<rparr> = (Ok sample_conn, \<lparr>live_conn = [0], next_conn = 1\<rparr>)"
    by (simp add: server_new_def has_original_dcid_def quiet_api_simps finish_new_def conn_alloc_def
        set_quic_transport_params_def sample_ssl_def sample_tls_def sample_conn_def settings_new_def)
  then show ?thesis by (rule reach_server)
qed

definition sample_pending :: PendingStreams where
  "sample_pending = pending_push 4 [9] True (pending_push 0 [1, 2, 3] False pending_new)"

lemma sample_pending_ok: "pending_ok sample_pending"
  by (simp add: sample_pending_def pending_ok_push pending_ok_new)

theorem write_packets_lossless_witness:
  "\<exists>r p1 buf1 c1 S1 H1. write_packets quiet_api sample_pending [] 0 sample_conn = Some (r, p1, buf1, c1)
     \<and> conn_reach quiet_api sample_ssl (c1, S1, H1) \<and> S1 0 @ pdata p1 0 = [1, 2, 3]"
proof -
  obtain y where "write_loop quiet_api 0 [] sample_pending [] sample_conn = Some y"
    using write_loop_returns [OF quiet_contracts(1,4) _ sample_pending_ok] quiet_reach
    by (metis reachable_def)
  then obtain r p1 buf1 c1 where w: "write_packets quiet_api sample_pending [] 0 sample_conn = Some (r, p1, buf1, c1)"
    by (metis prod.collapse write_packets_def)
  have "pdata sample_pending 0 = [1, 2, 3]" by (simp add: sample_pending_def) (simp add: pending_new_def pdata_def)
  then show ?thesis using write_packets_lossless [OF quiet_contracts(1-3) quiet_reach w, of 0] w by auto
qed

text \<open>C13. Sending ends: if every packet uses up some of a finite budget, \<^verbatim>\<open>write_packets\<close> returns on every
  reachable connection and every well-formed table of pending data.\<close>

theorem write_packets_returns:
  assumes "write_contract api" and "send_budget api budget" and "conn_reach api ssl (c, S, H)" and "pending_ok p"
  shows "\<exists>r p1 buf1 c1. write_packets api p buf ts c = Some (r, p1, buf1, c1)"
  using write_loop_returns [OF assms(1,2) _ assms(4), of ssl c ts "[]" buf] assms(3)
  by (auto simp: write_packets_def reachable_def)

theorem write_packets_returns_witness:
  "\<exists>r p1 buf1 c1. write_packets quiet_api sample_pending [] 0 sample_conn = Some (r, p1, buf1, c1)"
  by (rule write_packets_returns [OF quiet_contracts(1,4) quiet_reach sample_pending_ok])



end
