(* ===== verification/Limiter.thy ===== *)
theory Limiter
  imports Prelude
begin

text \<open>
  The rate limiter for Stateless Resets (\<^verbatim>\<open>StatelessResetLimiter\<close> in \<^verbatim>\<open>src/tokio-ngtcp2/src/server.rs\<close>): a
  bucket of 100 tokens, refilled at 33 tokens per second. All values are \<^verbatim>\<open>u64\<close>; they are natural
  numbers here with the saturating operations written out.
\<close>

definition STATELESS_RESET_BURST :: nat where "STATELESS_RESET_BURST = 100"
definition STATELESS_RESET_RATE :: nat where "STATELESS_RESET_RATE = 33"
definition NANOS_PER_SEC :: nat where "NANOS_PER_SEC = 1000000000"

definition sat_mul64 :: "nat \<Rightarrow> nat \<Rightarrow> nat" where
  "sat_mul64 a b = min (a * b) u64_max"

record StatelessResetLimiter =
  lim_bucket :: nat
  lim_last_refill_ts :: nat

definition limiter_new :: StatelessResetLimiter where
  "limiter_new = \<lparr>lim_bucket = STATELESS_RESET_BURST, lim_last_refill_ts = 0\<rparr>"

text \<open>\<^verbatim>\<open>saturating_sub\<close> is the subtraction of natural numbers, \<^verbatim>\<open>saturating_div\<close> plain division.\<close>

definition refill :: "nat \<Rightarrow> StatelessResetLimiter \<Rightarrow> StatelessResetLimiter" where
  "refill ts l =
    (let elapsed = ts - lim_last_refill_ts l;
         n = sat_mul64 elapsed STATELESS_RESET_RATE div NANOS_PER_SEC
     in if n = 0 then l
        else
          let consumed = sat_mul64 n NANOS_PER_SEC div STATELESS_RESET_RATE
          in l\<lparr>lim_bucket := min (sat_add64 (lim_bucket l) n) STATELESS_RESET_BURST,
               lim_last_refill_ts := sat_add64 (lim_last_refill_ts l) consumed\<rparr>)"

definition try_acquire :: "nat \<Rightarrow> StatelessResetLimiter \<Rightarrow> bool \<times> StatelessResetLimiter" where
  "try_acquire ts l =
    (let l = refill ts l
     in if lim_bucket l = 0 then (False, l) else (True, l\<lparr>lim_bucket := lim_bucket l - 1\<rparr>))"

section \<open>Limiters and their credit\<close>

text \<open>What a client of a rate limiter relies on: up to a time \<open>T\<close> the limiter has a credit; a request
  before \<open>T\<close> never raises it, and a granted one takes one unit.\<close>

locale rate_limiter =
  fixes acquire :: "nat \<Rightarrow> 's \<Rightarrow> bool \<times> 's"
    and inv :: "'s \<Rightarrow> bool"
    and credit :: "nat \<Rightarrow> 's \<Rightarrow> nat"
    and horizon :: nat
  assumes acquire_inv: "inv s \<Longrightarrow> inv (snd (acquire ts s))"
    and acquire_credit: "inv s \<Longrightarrow> ts \<le> T \<Longrightarrow> T \<le> horizon \<Longrightarrow>
      credit T (snd (acquire ts s)) + (if fst (acquire ts s) then 1 else 0) \<le> credit T s"
begin

fun granted :: "nat list \<Rightarrow> 's \<Rightarrow> nat" where
  "granted [] s = 0"
| "granted (ts # tss) s = (if fst (acquire ts s) then 1 else 0) + granted tss (snd (acquire ts s))"

lemma granted_le: "inv s \<Longrightarrow> \<forall>ts \<in> set tss. ts \<le> T \<Longrightarrow> T \<le> horizon \<Longrightarrow> granted tss s \<le> credit T s"
proof (induction tss arbitrary: s)
  case (Cons ts tss)
  then show ?case using acquire_inv [of s ts] acquire_credit [of s ts T] by fastforce
qed simp

end

text \<open>The number of granted requests of a sequence, for the model.\<close>

fun resets_granted :: "nat list \<Rightarrow> StatelessResetLimiter \<Rightarrow> nat" where
  "resets_granted [] l = 0"
| "resets_granted (ts # tss) l =
    (let (g, l) = try_acquire ts l in (if g then 1 else 0) + resets_granted tss l)"

section \<open>The interpretation\<close>

text \<open>A refill of \<open>n\<close> tokens advances the clock by at least \<open>n\<close> times 30303030 ns: the product with 10^9 is
  divided by 33 and rounded down. The credit therefore counts in that unit.\<close>

definition reset_credit :: "nat \<Rightarrow> StatelessResetLimiter \<Rightarrow> nat" where
  "reset_credit T l = lim_bucket l + (T - lim_last_refill_ts l) div 30303030"

definition limiter_ok :: "StatelessResetLimiter \<Rightarrow> bool" where
  "limiter_ok l \<longleftrightarrow> lim_bucket l \<le> STATELESS_RESET_BURST"

lemma div_shift: "(n :: nat) \<le> k div p \<Longrightarrow> 0 < p \<Longrightarrow> n * p \<le> d \<Longrightarrow> d \<le> k \<Longrightarrow> (k - d) div p + n \<le> k div p"
proof -
  assume a: "n \<le> k div p" "0 < p" "n * p \<le> d" "d \<le> k"
  have "(k - d) div p + n = (k - d + n * p) div p" using a(2) by simp
  also have "\<dots> \<le> k div p" using a by (intro div_le_mono) linarith
  finally show ?thesis .
qed

lemma refill_amount:
  assumes "n = sat_mul64 e STATELESS_RESET_RATE div NANOS_PER_SEC"
    and "c = sat_mul64 n NANOS_PER_SEC div STATELESS_RESET_RATE"
  shows "n * 30303030 \<le> c" "c \<le> e"
proof -
  have e: "n * 1000000000 \<le> min (e * 33) u64_max"
    unfolding assms(1) sat_mul64_def STATELESS_RESET_RATE_def NANOS_PER_SEC_def
    by (rule div_times_less_eq_dividend)
  then have "min (n * 1000000000) u64_max = n * 1000000000" by (intro min_absorb1) linarith
  then have c: "c = n * 1000000000 div 33"
    by (simp only: assms(2) sat_mul64_def NANOS_PER_SEC_def STATELESS_RESET_RATE_def)
  show "n * 30303030 \<le> c" unfolding c by linarith
  show "c \<le> e" using e unfolding c by linarith
qed

lemma refill_credit:
  assumes "ts \<le> T" "T \<le> u64_max"
  shows "reset_credit T (refill ts l) \<le> reset_credit T l"
proof -
  define n where "n = sat_mul64 (ts - lim_last_refill_ts l) STATELESS_RESET_RATE div NANOS_PER_SEC"
  define c where "c = sat_mul64 n NANOS_PER_SEC div STATELESS_RESET_RATE"
  let ?last = "lim_last_refill_ts l"
  have c: "n * 30303030 \<le> c" "c \<le> ts - ?last" using refill_amount [OF n_def c_def] by auto
  show ?thesis
  proof (cases "n = 0")
    case True
    have "refill ts l = (if n = 0 then l else l\<lparr>lim_bucket := min (sat_add64 (lim_bucket l) n) STATELESS_RESET_BURST,
        lim_last_refill_ts := sat_add64 ?last c\<rparr>)"
      unfolding refill_def Let_def n_def c_def by (rule refl)
    then have "refill ts l = l" using True by (simp only: if_P)
    then show ?thesis by (simp only: order_refl)
  next
    case False
    then have "0 < c" using c(1) by linarith
    then have lt: "?last + c \<le> ts" using c(2) by linarith
    then have s: "sat_add64 ?last c = ?last + c"
      unfolding sat_add64_def using assms by (intro min_absorb1) linarith
    have r: "refill ts l = l\<lparr>lim_bucket := min (sat_add64 (lim_bucket l) n) STATELESS_RESET_BURST,
        lim_last_refill_ts := ?last + c\<rparr>"
      unfolding refill_def Let_def n_def [symmetric] c_def [symmetric] s using False by (simp only: if_False)
    have k: "n * 30303030 \<le> T - ?last" "c \<le> T - ?last" using c lt assms(1) by linarith+
    have "(T - ?last - c) div 30303030 + n \<le> (T - ?last) div 30303030"
      by (rule div_shift [OF _ _ c(1) k(2)])
         (simp_all only: less_eq_div_iff_mult_less_eq k(1) zero_less_numeral)
    moreover have "sat_add64 (lim_bucket l) n \<le> lim_bucket l + n" unfolding sat_add64_def by (rule min.cobounded1)
    moreover have "T - (?last + c) = T - ?last - c" by simp
    ultimately have "min (sat_add64 (lim_bucket l) n) STATELESS_RESET_BURST + (T - (?last + c)) div 30303030
        \<le> lim_bucket l + (T - ?last) div 30303030" by linarith
    then show ?thesis unfolding reset_credit_def r by (simp del: div_less div_le_mono)
  qed
qed

lemma refill_ok: "limiter_ok l \<Longrightarrow> limiter_ok (refill ts l)"
  unfolding limiter_ok_def refill_def Let_def by (simp split: if_split)

lemma try_acquire_credit:
  assumes "ts \<le> T" "T \<le> u64_max"
  shows "reset_credit T (snd (try_acquire ts l)) + (if fst (try_acquire ts l) then 1 else 0) \<le> reset_credit T l"
proof -
  have "reset_credit T (refill ts l) \<le> reset_credit T l" by (rule refill_credit [OF assms])
  then show ?thesis by (auto simp: try_acquire_def Let_def reset_credit_def)
qed

interpretation rl: rate_limiter try_acquire limiter_ok reset_credit u64_max
proof unfold_locales
  fix l ts
  assume "limiter_ok l"
  then have "limiter_ok (refill ts l)" by (rule refill_ok)
  then show "limiter_ok (snd (try_acquire ts l))" by (auto simp: try_acquire_def Let_def limiter_ok_def)
qed (rule try_acquire_credit)

lemma resets_granted_eq: "resets_granted tss l = rl.granted tss l"
  by (induction tss arbitrary: l) (simp_all add: case_prod_beta Let_def)

section \<open>Properties\<close>

text \<open>C19. The limiter bounds what an attacker can trigger: of any requests up to time \<open>T\<close> (in ns since the
  start) at most 100 plus one per 30303030 ns are granted, whatever the order and spacing of the
  requests.\<close>

theorem limiter_bounds_resets:
  assumes "\<forall>ts \<in> set tss. ts \<le> T" and "T \<le> u64_max"
  shows "resets_granted tss limiter_new \<le> 100 + T div 30303030"
proof -
  have "limiter_ok limiter_new" by (simp add: limiter_ok_def limiter_new_def)
  from rl.granted_le [OF this assms] show ?thesis
    by (simp only: resets_granted_eq) (simp add: reset_credit_def limiter_new_def STATELESS_RESET_BURST_def)
qed

theorem limiter_bounds_resets_witness:
  "resets_granted [5, 7] limiter_new \<le> 100"
  using limiter_bounds_resets [of "[5, 7]" 7] by simp

text \<open>The limiter does not starve legitimate resets: a request is granted whenever a token is left or
  at least 30303031 ns have passed since the last refill.\<close>

lemma limiter_grants:
  assumes "0 < lim_bucket l \<or> lim_last_refill_ts l + 30303031 \<le> ts"
  shows "fst (try_acquire ts l)"
proof -
  define n where "n = sat_mul64 (ts - lim_last_refill_ts l) STATELESS_RESET_RATE div NANOS_PER_SEC"
  have r: "lim_bucket (refill ts l) = (if n = 0 then lim_bucket l else min (sat_add64 (lim_bucket l) n) STATELESS_RESET_BURST)"
    unfolding refill_def Let_def n_def [symmetric] by simp
  have "0 < n" if "lim_last_refill_ts l + 30303031 \<le> ts"
  proof -
    have "1000000000 \<le> (ts - lim_last_refill_ts l) * 33" using that by linarith
    then have "1000000000 \<le> min ((ts - lim_last_refill_ts l) * 33) u64_max" by simp
    then have "1 \<le> min ((ts - lim_last_refill_ts l) * 33) u64_max div 1000000000"
      by (simp only: less_eq_div_iff_mult_less_eq)
    then show ?thesis by (simp only: n_def sat_mul64_def STATELESS_RESET_RATE_def NANOS_PER_SEC_def)
  qed
  then have "0 < lim_bucket (refill ts l)"
    using assms(1) by (auto simp: r sat_add64_def STATELESS_RESET_BURST_def)
  then show ?thesis by (simp add: try_acquire_def Let_def)
qed

end
