(* ===== verification/Routes.thy ===== *)
theory Routes
  imports Types "HOL-Library.AList"
begin

unbundle bit_operations_syntax

text \<open>
  Routing of received packets to connections (\<^verbatim>\<open>resolve_dcid\<close> and \<^verbatim>\<open>SharedRoutes\<close> in
  \<^verbatim>\<open>src/tokio-ngtcp2/src/server.rs\<close>) and the bounded memory of connection IDs that were handed over, which
  \<^verbatim>\<open>Server\<close> and \<^verbatim>\<open>SharedRoutes\<close> both have. A hash map is an association list without repeated keys, whose
  order stands for the unspecified iteration order; the ordered set of lengths is a sorted list. A
  channel to an accepted connection is an entry of a store of bounded queues.
\<close>

section \<open>Resolving a connection\<close>

type_synonym ('k, 'v) hmap = "('k \<times> 'v) list"

definition retain_other :: "'v \<Rightarrow> ('k, 'v) hmap \<Rightarrow> ('k, 'v) hmap" where
  "retain_other v m = filter (\<lambda>(_, w). w \<noteq> v) m"

text \<open>Insertion into a \<^verbatim>\<open>BTreeSet<usize>\<close>.\<close>

definition length_insert :: "nat \<Rightarrow> nat list \<Rightarrow> nat list" where
  "length_insert n ns = (if n \<in> set ns then ns else insort n ns)"

fun resolve_short :: "(cid, cid) hmap \<Rightarrow> nat list \<Rightarrow> bytes \<Rightarrow> cid option" where
  "resolve_short m [] data = None"
| "resolve_short m (n # ns) data =
    (if length data < 1 + n then resolve_short m ns data
     else case Option.bind (cid_new (take n (drop 1 data))) (map_of m) of
       Some key \<Rightarrow> Some key
     | None \<Rightarrow> resolve_short m ns data)"

definition resolve_dcid :: "(cid, cid) hmap \<Rightarrow> nat list \<Rightarrow> bytes \<Rightarrow> cid option" where
  "resolve_dcid cid_map short_cid_lengths data =
    (case data of [] \<Rightarrow> None
     | first # _ \<Rightarrow>
       if first AND 0x80 \<noteq> 0 then
         if length data < 6 then None
         else
           let dcid_len = unat (data ! 5) in
           if length data < 6 + dcid_len then None
           else Option.bind (cid_new (take dcid_len (drop 6 data))) (map_of cid_map)
       else resolve_short cid_map (rev short_cid_lengths) data)"

section \<open>The memory of handed-over connection IDs\<close>

definition MAX_TAKEN_CIDS :: nat where "MAX_TAKEN_CIDS = 8192"

type_synonym taken = "cid set \<times> cid list"

function evict :: "taken \<Rightarrow> taken" where
  "evict (s, order) =
    (if length order > MAX_TAKEN_CIDS then evict (s - {hd order}, tl order) else (s, order))"
  by pat_completeness auto

termination
  by (relation "measure (\<lambda>(s, order). length order)") auto

declare evict.simps [simp del]

definition remember_cid :: "cid \<Rightarrow> taken \<Rightarrow> taken" where
  "remember_cid c t =
    (let (s, order) = t in evict (if c \<in> s then (s, order) else (insert c s, order @ [c])))"

section \<open>Routes of accepted connections\<close>

definition MAX_QUEUED_DATAGRAMS :: nat where "MAX_QUEUED_DATAGRAMS = 512"

record InboundDatagram =
  in_data :: bytes
  in_from :: SocketAddr
  in_local_addr :: SocketAddr
  in_ecn :: byte

record channel =
  ch_queue :: "InboundDatagram list"
  ch_rx_open :: bool

record SharedRoutes =
  sr_cid_map :: "(cid, cid) hmap"
  sr_addr_map :: "(SocketAddr, cid) hmap"
  sr_short_cid_lengths :: "nat list"
  sr_senders :: "(cid, nat) hmap"
  sr_taken :: taken
  sr_channels :: "nat \<Rightarrow> channel"

definition routes_new :: "(nat \<Rightarrow> channel) \<Rightarrow> SharedRoutes" where
  "routes_new chans = \<lparr>sr_cid_map = [], sr_addr_map = [], sr_short_cid_lengths = [], sr_senders = [],
     sr_taken = ({}, []), sr_channels = chans\<rparr>"

definition routes_resolve :: "SharedRoutes \<Rightarrow> bytes \<Rightarrow> SocketAddr \<Rightarrow> cid option" where
  "routes_resolve r data from =
    (case resolve_dcid (sr_cid_map r) (sr_short_cid_lengths r) data of
       Some key \<Rightarrow> Some key
     | None \<Rightarrow> map_of (sr_addr_map r) from)"

definition routes_register_issued_cids :: "cid \<Rightarrow> cid list \<Rightarrow> SharedRoutes \<Rightarrow> SharedRoutes" where
  "routes_register_issued_cids key cids r =
    fold (\<lambda>c r. r\<lparr>sr_short_cid_lengths := length_insert (cid_len c) (sr_short_cid_lengths r),
                   sr_cid_map := AList.update c key (sr_cid_map r)\<rparr>) cids r"

definition routes_register :: "cid \<Rightarrow> nat \<Rightarrow> cid list \<Rightarrow> SocketAddr list \<Rightarrow> SharedRoutes \<Rightarrow> SharedRoutes" where
  "routes_register key sender cids addrs r =
    (let r = fold (\<lambda>c r. r\<lparr>sr_short_cid_lengths := length_insert (cid_len c) (sr_short_cid_lengths r),
                             sr_cid_map := AList.update c key (sr_cid_map r)\<rparr>) cids r;
         r = fold (\<lambda>a r. r\<lparr>sr_addr_map := AList.update a key (sr_addr_map r)\<rparr>) addrs r
     in r\<lparr>sr_senders := AList.update key sender (sr_senders r)\<rparr>)"

definition routes_remember_taken_cid :: "cid \<Rightarrow> SharedRoutes \<Rightarrow> SharedRoutes" where
  "routes_remember_taken_cid c r = r\<lparr>sr_taken := remember_cid c (sr_taken r)\<rparr>"

definition routes_retire_cids :: "cid \<Rightarrow> cid list \<Rightarrow> SharedRoutes \<Rightarrow> SharedRoutes" where
  "routes_retire_cids key cids r =
    fold (\<lambda>c r. routes_remember_taken_cid c
            (if map_of (sr_cid_map r) c = Some key then r\<lparr>sr_cid_map := AList.delete c (sr_cid_map r)\<rparr> else r)) cids r"

text \<open>\<^verbatim>\<open>try_send\<close>: a full queue drops the datagram, a closed one is reported.\<close>

definition routes_deliver :: "cid \<Rightarrow> InboundDatagram \<Rightarrow> SharedRoutes \<Rightarrow> bool \<times> SharedRoutes" where
  "routes_deliver key datagram r =
    (case map_of (sr_senders r) key of
       None \<Rightarrow> (False, r)
     | Some i \<Rightarrow>
       let ch = sr_channels r i in
       if \<not> ch_rx_open ch then (False, r)
       else if length (ch_queue ch) \<ge> MAX_QUEUED_DATAGRAMS then (True, r)
       else (True, r\<lparr>sr_channels := (sr_channels r)(i := ch\<lparr>ch_queue := ch_queue ch @ [datagram]\<rparr>)\<rparr>))"

definition routes_remove :: "cid \<Rightarrow> SharedRoutes \<Rightarrow> SharedRoutes" where
  "routes_remove key r = r\<lparr>sr_cid_map := retain_other key (sr_cid_map r),
     sr_addr_map := retain_other key (sr_addr_map r), sr_senders := AList.delete key (sr_senders r)\<rparr>"

definition routes_is_taken_cid :: "cid \<Rightarrow> SharedRoutes \<Rightarrow> bool" where
  "routes_is_taken_cid c r = (c \<in> fst (sr_taken r))"

section \<open>Laws of the memory\<close>

definition taken_ok :: "taken \<Rightarrow> bool" where
  "taken_ok t \<longleftrightarrow> fst t = set (snd t) \<and> distinct (snd t) \<and> length (snd t) \<le> MAX_TAKEN_CIDS"

lemma evict_ok:
  "fst t = set (snd t) \<Longrightarrow> distinct (snd t) \<Longrightarrow> taken_ok (evict t)"
proof (induction t rule: evict.induct)
  case (1 s order)
  show ?case
  proof (cases "length order > MAX_TAKEN_CIDS")
    case True
    then obtain x xs where o: "order = x # xs" by (cases order) auto
    then have "taken_ok (evict (s - {x}, xs))" using 1 True by auto
    then show ?thesis using True by (subst evict.simps) (simp add: o)
  next
    case False
    then show ?thesis using 1 by (subst evict.simps) (simp add: taken_ok_def)
  qed
qed

lemma remember_ok: "taken_ok t \<Longrightarrow> taken_ok (remember_cid c t)"
  by (cases t) (auto simp: remember_cid_def taken_ok_def intro!: evict_ok [unfolded taken_ok_def])

lemma evict_small: "length order \<le> MAX_TAKEN_CIDS \<Longrightarrow> evict (s, order) = (s, order)"
  by (subst evict.simps) simp

lemma evict_one:
  "length order = Suc MAX_TAKEN_CIDS \<Longrightarrow> evict (s, order) = (s - {hd order}, tl order)"
  by (subst evict.simps) (simp add: evict_small)

text \<open>A remembered ID stays as long as fewer than 8192 IDs are remembered after it.\<close>

definition remembered :: "nat \<Rightarrow> cid \<Rightarrow> taken \<Rightarrow> bool" where
  "remembered k c t \<longleftrightarrow> taken_ok t \<and> (\<exists>xs ys. snd t = xs @ c # ys \<and> length ys \<le> k)"

lemma remembered_taken: "remembered k c t \<Longrightarrow> c \<in> fst t"
  unfolding remembered_def taken_ok_def by (elim conjE exE) simp

lemma remember_step:
  assumes r: "remembered k c t" and k: "Suc k < MAX_TAKEN_CIDS"
  shows "remembered (Suc k) c (remember_cid d t)"
proof -
  obtain s order xs ys where t: "t = (s, order)" and o: "order = xs @ c # ys" "length ys \<le> k"
    and ok: "taken_ok t" using r by (cases t) (auto simp: remembered_def)
  show ?thesis
  proof (cases "d \<in> s")
    case True
    then have "remember_cid d t = t" using ok t by (auto simp: remember_cid_def taken_ok_def evict_small)
    then show ?thesis using r le_SucI unfolding remembered_def by metis
  next
    case False
    show ?thesis
    proof (cases "length order < MAX_TAKEN_CIDS")
      case True
      then have "snd (remember_cid d t) = xs @ c # (ys @ [d])"
        using False t o by (simp add: remember_cid_def evict_small)
      then show ?thesis using remember_ok [OF ok] o(2) unfolding remembered_def by fastforce
    next
      case full: False
      then have l: "length order = MAX_TAKEN_CIDS" using ok t by (simp add: taken_ok_def)
      then obtain x xs' where x: "xs = x # xs'" using o k by (cases xs) auto
      have "snd (remember_cid d t) = tl (order @ [d])"
        using False t l by (simp add: remember_cid_def evict_one)
      then have "snd (remember_cid d t) = xs' @ c # (ys @ [d])" by (simp add: o x)
      then show ?thesis using remember_ok [OF ok] o(2) unfolding remembered_def by fastforce
    qed
  qed
qed

text \<open>The interface of a component that remembers handed-over IDs, and what its clients rely on.\<close>

locale taken_memory =
  fixes mem_taken :: "'s \<Rightarrow> taken"
    and mem_remember :: "cid \<Rightarrow> 's \<Rightarrow> 's"
  assumes taken_remember: "mem_taken (mem_remember c s) = remember_cid c (mem_taken s)"
begin

lemma run_ok: "taken_ok (mem_taken s) \<Longrightarrow> taken_ok (mem_taken (fold mem_remember cs s))"
  by (induction cs arbitrary: s) (simp_all add: taken_remember remember_ok)

lemma run_bound: "taken_ok (mem_taken s) \<Longrightarrow> card (fst (mem_taken (fold mem_remember cs s))) \<le> MAX_TAKEN_CIDS"
  using run_ok [of s cs] by (metis taken_ok_def distinct_card)

lemma run_remembered:
  "remembered k c (mem_taken s) \<Longrightarrow> k + length cs < MAX_TAKEN_CIDS \<Longrightarrow>
    remembered (k + length cs) c (mem_taken (fold mem_remember cs s))"
proof (induction cs arbitrary: s k)
  case (Cons d cs)
  then show ?case using remember_step [of k c "mem_taken s" d] Cons.IH [of "Suc k" "mem_remember d s"]
    by (simp add: taken_remember)
qed simp

lemma run_recent:
  assumes "taken_ok (mem_taken s)" "c \<notin> fst (mem_taken s)" "length cs < MAX_TAKEN_CIDS"
  shows "c \<in> fst (mem_taken (fold mem_remember cs (mem_remember c s)))"
proof -
  obtain t order where t: "mem_taken s = (t, order)" by (cases "mem_taken s")
  have "snd (remember_cid c (t, order)) = (if length order < MAX_TAKEN_CIDS then order else tl order) @ [c]"
  proof (cases "length order < MAX_TAKEN_CIDS")
    case True
    then show ?thesis using assms(2) t by (simp add: remember_cid_def evict_small)
  next
    case False
    then have "length order = MAX_TAKEN_CIDS" using assms(1) t by (simp add: taken_ok_def)
    moreover from this have "order \<noteq> []" by (auto simp: MAX_TAKEN_CIDS_def)
    ultimately show ?thesis using assms(2) t by (simp add: remember_cid_def evict_one)
  qed
  then have "\<exists>xs ys. snd (mem_taken (mem_remember c s)) = xs @ c # ys \<and> length ys \<le> 0"
    by (auto simp: taken_remember t)
  then have "remembered 0 c (mem_taken (mem_remember c s))"
    using remember_ok [OF assms(1)] by (simp add: remembered_def taken_remember)
  then have "remembered (0 + length cs) c (mem_taken (fold mem_remember cs (mem_remember c s)))"
    by (rule run_remembered) (use assms(3) in simp)
  then show ?thesis by (rule remembered_taken)
qed

end

interpretation routes_mem: taken_memory sr_taken routes_remember_taken_cid
  by unfold_locales (simp add: routes_remember_taken_cid_def)

section \<open>Laws of the routes\<close>

lemma map_of_retain: "distinct (map fst m) \<Longrightarrow> map_of (retain_other v m) k =
    (case map_of m k of None \<Rightarrow> None | Some w \<Rightarrow> if w = v then None else Some w)"
  by (induction m) (auto simp: retain_other_def dom_map_of_conv_image_fst [symmetric] split: option.splits if_splits)

lemma distinct_retain: "distinct (map fst m) \<Longrightarrow> distinct (map fst (retain_other v m))"
  by (induction m) (auto simp: retain_other_def)

lemma bind_retain:
  "distinct (map fst m) \<Longrightarrow> Option.bind a (map_of (retain_other v m)) =
    (case Option.bind a (map_of m) of None \<Rightarrow> None | Some w \<Rightarrow> if w = v then None else Some w)"
  by (cases a) (simp_all add: map_of_retain)

lemma resolve_short_retain:
  assumes d: "distinct (map fst m)"
  shows "resolve_short (retain_other v m) ns data \<noteq> Some v"
    and "resolve_short m ns data = Some k \<Longrightarrow> k \<noteq> v \<Longrightarrow> resolve_short (retain_other v m) ns data = Some k"
    and "resolve_short m ns data = None \<Longrightarrow> resolve_short (retain_other v m) ns data = None"
proof (induction ns)
  case (Cons n ns)
  { case 1 then show ?case using Cons(1) by (simp add: bind_retain [OF d] split: option.split) }
  { case 2 then show ?case using Cons(2) by (auto simp: bind_retain [OF d] split: option.splits if_splits) }
  { case 3 then show ?case using Cons(3) by (auto simp: bind_retain [OF d] split: option.splits if_splits) }
qed simp_all

lemma resolve_dcid_retain:
  assumes d: "distinct (map fst m)"
  shows "resolve_dcid (retain_other v m) ns data \<noteq> Some v"
    and "resolve_dcid m ns data = Some k \<Longrightarrow> k \<noteq> v \<Longrightarrow> resolve_dcid (retain_other v m) ns data = Some k"
    and "resolve_dcid m ns data = None \<Longrightarrow> resolve_dcid (retain_other v m) ns data = None"
  using resolve_short_retain [OF d]
  by (auto simp: resolve_dcid_def Let_def bind_retain [OF d] split: list.splits option.splits if_splits)

definition routes_ok :: "SharedRoutes \<Rightarrow> bool" where
  "routes_ok r \<longleftrightarrow> distinct (map fst (sr_cid_map r)) \<and> distinct (map fst (sr_addr_map r))
     \<and> distinct (map fst (sr_senders r)) \<and> taken_ok (sr_taken r)"

lemma fold_routes_ok:
  "routes_ok r \<Longrightarrow> (\<And>x r. routes_ok r \<Longrightarrow> routes_ok (g x r)) \<Longrightarrow> routes_ok (fold g xs r)"
  by (induction xs arbitrary: r) auto

lemma routes_ok_ops:
  "routes_ok (routes_new chans)"
  "routes_ok r \<Longrightarrow> routes_ok (routes_register_issued_cids key cids r)"
  "routes_ok r \<Longrightarrow> routes_ok (routes_register key i cids addrs r)"
  "routes_ok r \<Longrightarrow> routes_ok (routes_retire_cids key cids r)"
  "routes_ok r \<Longrightarrow> routes_ok (snd (routes_deliver key dg r))"
  "routes_ok r \<Longrightarrow> routes_ok (routes_remove key r)"
proof -
  have c: "routes_ok r \<Longrightarrow> routes_ok (fold (\<lambda>c r. r\<lparr>sr_short_cid_lengths := length_insert (cid_len c) (sr_short_cid_lengths r),
      sr_cid_map := AList.update c key (sr_cid_map r)\<rparr>) cids r)" for r
    by (rule fold_routes_ok) (auto simp: routes_ok_def distinct_update)
  show "routes_ok (routes_new chans)" by (simp add: routes_ok_def routes_new_def taken_ok_def)
  assume ok: "routes_ok r"
  show "routes_ok (routes_register_issued_cids key cids r)"
    unfolding routes_register_issued_cids_def by (rule c [OF ok])
  have "routes_ok (fold (\<lambda>a r. r\<lparr>sr_addr_map := AList.update a key (sr_addr_map r)\<rparr>) addrs r)" if "routes_ok r" for r
    using that by (rule fold_routes_ok) (auto simp: routes_ok_def distinct_update)
  then show "routes_ok (routes_register key i cids addrs r)"
    using c [OF ok] by (simp add: routes_register_def Let_def routes_ok_def distinct_update)
  show "routes_ok (routes_retire_cids key cids r)"
    unfolding routes_retire_cids_def using ok
    by (rule fold_routes_ok) (auto simp: routes_ok_def routes_remember_taken_cid_def remember_ok distinct_delete)
  show "routes_ok (snd (routes_deliver key dg r))"
    using ok by (auto simp: routes_deliver_def routes_ok_def Let_def split: option.split)
  show "routes_ok (routes_remove key r)"
    using ok by (auto simp: routes_remove_def routes_ok_def distinct_retain distinct_delete)
qed

lemma register_issued_lookup:
  "map_of (sr_cid_map (routes_register_issued_cids key cids r)) c
     = (if c \<in> set cids then Some key else map_of (sr_cid_map r) c)"
  by (induction cids arbitrary: r) (auto simp: routes_register_issued_cids_def update_conv')

lemma length_insert_set [simp]: "set (length_insert n ns) = insert n (set ns)"
  by (auto simp: length_insert_def set_insort_key)

lemma register_issued_lengths:
  "set (sr_short_cid_lengths (routes_register_issued_cids key cids r))
     = cid_len ` set cids \<union> set (sr_short_cid_lengths r)"
  by (induction cids arbitrary: r) (auto simp: routes_register_issued_cids_def)

lemma resolve_short_hit:
  assumes "n \<in> set ns" "n < length data" "Option.bind (cid_new (take n (drop 1 data))) (map_of m) = Some key"
    and "\<forall>k \<in> set ns. k < length data \<longrightarrow>
      Option.bind (cid_new (take k (drop 1 data))) (map_of m) \<in> {None, Some key}"
  shows "resolve_short m ns data = Some key"
  using assms by (induction ns) (auto split: option.split)

section \<open>Properties\<close>

text \<open>C20. Connection IDs that a connection has issued lead back to it: after they are registered, a long
  header packet whose destination is one of them resolves to the connection, and so does a short
  header packet that starts with one, unless another registered ID of some other length also
  matches its first bytes.\<close>

theorem issued_cids_route:
  assumes "c \<in> set cids" and "cid_ok c"
    and "r1 = routes_register_issued_cids key cids r"
  shows "(first AND 0x80 \<noteq> 0 \<and> length ver = 4 \<longrightarrow>
      routes_resolve r1 (first # ver @ word_of_nat (cid_len c) # cid_bytes c @ rest) from = Some key)
    \<and> (first AND 0x80 = 0 \<and> (\<forall>d k. map_of (sr_cid_map r1) d = Some k \<and> take (cid_len d) (cid_bytes c @ rest) = cid_bytes d
          \<longrightarrow> k = key)
        \<longrightarrow> routes_resolve r1 (first # cid_bytes c @ rest) from = Some key)"
proof (intro conjI impI)
  have m: "map_of (sr_cid_map r1) c = Some key" using assms by (simp add: register_issued_lookup)
  have n: "cid_len c \<le> 20" using assms(2) by (simp add: cid_ok_def)
  have new: "cid_new (cid_bytes c) = Some c" using n by (cases c) (simp add: cid_new_def cid_len_def)
  {
    assume a: "first AND 0x80 \<noteq> 0 \<and> length ver = 4"
    have u: "unat (word_of_nat (cid_len c) :: byte) = cid_len c" using n by (simp add: unat_word_of_byte)
    let ?d = "first # ver @ word_of_nat (cid_len c) # cid_bytes c @ rest"
    have at: "?d ! 5 = word_of_nat (cid_len c)" "drop 6 ?d = cid_bytes c @ rest" "6 + cid_len c \<le> length ?d"
      using a by (auto simp: nth_append cid_len_def nth_Cons')
    then have "resolve_dcid (sr_cid_map r1) ns ?d = Some key" for ns
      using a u new m by (simp add: resolve_dcid_def Let_def cid_len_def)
    then show "routes_resolve r1 ?d from = Some key" by (simp add: routes_resolve_def)
  }
  {
    assume a: "first AND 0x80 = 0 \<and> (\<forall>d k. map_of (sr_cid_map r1) d = Some k
      \<and> take (cid_len d) (cid_bytes c @ rest) = cid_bytes d \<longrightarrow> k = key)"
    let ?d = "first # cid_bytes c @ rest"
    have l: "cid_len c \<in> set (rev (sr_short_cid_lengths r1))"
      using assms(1,3) by (simp add: register_issued_lengths)
    have others: "Option.bind (cid_new (take k (drop 1 ?d))) (map_of (sr_cid_map r1)) \<in> {None, Some key}"
      if "k < length ?d" for k
    proof -
      define p where "p = take k (cid_bytes c @ rest)"
      have "take (cid_len (ConnectionId p)) (cid_bytes c @ rest) = cid_bytes (ConnectionId p)"
        using that by (simp add: p_def cid_len_def min_def)
      then have "map_of (sr_cid_map r1) (ConnectionId p) \<in> {None, Some key}" using a by (metis insertCI option.exhaust)
      moreover have "take k (drop 1 ?d) = p" by (simp add: p_def)
      ultimately show ?thesis by (simp only: cid_new_def) simp
    qed
    have "resolve_short (sr_cid_map r1) (rev (sr_short_cid_lengths r1)) ?d = Some key"
      by (rule resolve_short_hit [OF l]) (use m new others in \<open>auto simp: cid_len_def\<close>)
    then show "routes_resolve r1 ?d from = Some key"
      using a by (simp add: routes_resolve_def resolve_dcid_def)
  }
qed

theorem issued_cids_route_witness:
  "routes_resolve (routes_register_issued_cids (ConnectionId [5]) [ConnectionId [1, 2]] (routes_new (\<lambda>_. undefined)))
     (0xc0 # [0, 0, 0, 1] @ word_of_nat (cid_len (ConnectionId [1, 2])) # cid_bytes (ConnectionId [1, 2]) @ [9])
     (SockV4 1 2) = Some (ConnectionId [5])"
  by (rule issued_cids_route [THEN conjunct1, rule_format]) (simp_all add: cid_ok_def cid_len_def)

text \<open>Removing a connection from the shared routes is complete and exact: afterwards no packet from
  any address resolves to it and nothing can be delivered to it, while every packet that resolved to
  another connection still does, and deliveries to others are as before.\<close>

lemma routes_remove_exact:
  assumes "routes_ok r"
  shows "routes_resolve (routes_remove key r) data from \<noteq> Some key
    \<and> \<not> fst (routes_deliver key dg (routes_remove key r))
    \<and> (\<forall>k. k \<noteq> key \<and> routes_resolve r data from = Some k
          \<longrightarrow> routes_resolve (routes_remove key r) data from = Some k)
    \<and> (\<forall>k. k \<noteq> key \<longrightarrow> fst (routes_deliver k dg (routes_remove key r)) = fst (routes_deliver k dg r))"
proof -
  have d: "distinct (map fst (sr_cid_map r))" "distinct (map fst (sr_addr_map r))" using assms by (auto simp: routes_ok_def)
  have a: "resolve_dcid (retain_other key (sr_cid_map r)) (sr_short_cid_lengths r) data \<noteq> Some key"
    using resolve_dcid_retain(1) [OF d(1)] .
  have b: "resolve_dcid (retain_other key (sr_cid_map r)) (sr_short_cid_lengths r) data = Some k"
    if "resolve_dcid (sr_cid_map r) (sr_short_cid_lengths r) data = Some k" "k \<noteq> key" for k
    using resolve_dcid_retain(2) [OF d(1) that] .
  have c: "resolve_dcid (retain_other key (sr_cid_map r)) (sr_short_cid_lengths r) data = None"
    if "resolve_dcid (sr_cid_map r) (sr_short_cid_lengths r) data = None"
    using resolve_dcid_retain(3) [OF d(1) that] .
  show ?thesis
    using a b c
    by (auto simp: routes_resolve_def routes_remove_def routes_deliver_def map_of_retain [OF d(2)] delete_conv' Let_def
        split: option.splits)
qed

text \<open>C22. The memory of handed-over IDs is bounded and keeps the recent ones: it never holds more than
  8192 IDs, and an ID that is newly remembered is still known after any 8191 further ones, so that no
  Stateless Reset is sent for it.\<close>

theorem taken_cids_bounded_recent:
  assumes "routes_ok r" and "c \<notin> fst (sr_taken r)" and "length cs < MAX_TAKEN_CIDS"
  shows "card (fst (sr_taken (fold routes_remember_taken_cid (c # cs) r))) \<le> 8192
    \<and> routes_is_taken_cid c (fold routes_remember_taken_cid (c # cs) r)"
  using routes_mem.run_bound [of r "c # cs"] routes_mem.run_recent [of r c cs] assms
  by (simp add: routes_ok_def routes_is_taken_cid_def MAX_TAKEN_CIDS_def)

theorem taken_cids_bounded_recent_witness:
  "routes_is_taken_cid (ConnectionId [1])
     (fold routes_remember_taken_cid [ConnectionId [1], ConnectionId [2]] (routes_new (\<lambda>_. undefined)))"
  using taken_cids_bounded_recent [OF routes_ok_ops(1), of "ConnectionId [1]" _ "[ConnectionId [2]]"]
  by (simp add: routes_new_def MAX_TAKEN_CIDS_def)

end
