(* ===== verification/Endpoint.thy ===== *)
theory Endpoint
  imports Streams
begin

text \<open>
  What the asynchronous client and server share (\<^verbatim>\<open>src/tokio-ngtcp2/src/lib.rs\<close>, \<^verbatim>\<open>qlog.rs\<close>): the DATAGRAM
  configuration, the events of the application with the conversion from the events of the binding
  crate, the qlog writer, and the interface of an endpoint that announces the end of its connection
  once. The file system is seen through \<open>qlog_fs\<close>: whether the directory and the file can be created, and
  whether a write succeeds.
\<close>

section \<open>DATAGRAM configuration\<close>

record DatagramConfig =
  dg_max_datagram_frame_size :: u64
  dg_max_tx_datagram_size :: nat

definition datagram_disabled :: DatagramConfig where
  "datagram_disabled = \<lparr>dg_max_datagram_frame_size = 0, dg_max_tx_datagram_size = 0\<rparr>"

definition datagram_is_enabled :: "DatagramConfig \<Rightarrow> bool" where
  "datagram_is_enabled d \<longleftrightarrow> dg_max_datagram_frame_size d > 0 \<and> dg_max_tx_datagram_size d > 0"

definition datagram_default :: DatagramConfig where
  "datagram_default = \<lparr>dg_max_datagram_frame_size = 65535, dg_max_tx_datagram_size = 1200\<rparr>"

section \<open>Events of the application\<close>

datatype TokioEvent =
    EvHandshakeCompleted
  | EvHandshakeConfirmed
  | EvEarlyDataRejected
  | EvStreamOpened StreamId
  | EvStreamData StreamId bytes bool
  | EvStreamClosed StreamId "u64 option" "u64 option"
  | EvStreamReset StreamId u64 u64
  | EvStreamStopSending StreamId u64
  | EvStreamMaxData StreamId u64
  | EvMaxStreamsBidi u64
  | EvMaxStreamsUni u64
  | EvDatagram bytes
  | EvStatelessResetReceived
  | EvPathValidated PathInfo bool
  | EvConnectionClosed u64 bytes ConnectionErrorKind

fun event_from :: "ConnectionEvent \<Rightarrow> TokioEvent" where
  "event_from HandshakeCompleted = EvHandshakeCompleted"
| "event_from HandshakeConfirmed = EvHandshakeConfirmed"
| "event_from EarlyDataRejected = EvEarlyDataRejected"
| "event_from (StreamOpened s) = EvStreamOpened s"
| "event_from (StreamData s data fin) = EvStreamData s data fin"
| "event_from (StreamClosed s rx tx) = EvStreamClosed s rx tx"
| "event_from (StreamReset s n e) = EvStreamReset s n e"
| "event_from (StreamStopSending s e) = EvStreamStopSending s e"
| "event_from (StreamMaxData s n) = EvStreamMaxData s n"
| "event_from (MaxStreamsBidi n) = EvMaxStreamsBidi n"
| "event_from (MaxStreamsUni n) = EvMaxStreamsUni n"
| "event_from (Datagram data) = EvDatagram data"
| "event_from StatelessResetReceived = EvStatelessResetReceived"
| "event_from (PathValidated path ok) = EvPathValidated path ok"

fun is_close :: "TokioEvent \<Rightarrow> bool" where
  "is_close (EvConnectionClosed _ _ _) = True"
| "is_close _ = False"

lemma event_from_not_close [simp]: "\<not> is_close (event_from e)"
  by (cases e) auto

lemma event_from_inj: "event_from a = event_from b \<longleftrightarrow> a = b"
  by (cases a; cases b) auto

text \<open>The event that announces the end, from the error the connection reports.\<close>

definition closed_kind :: "ConnectionError \<Rightarrow> ConnectionErrorKind" where
  "closed_kind err =
    (if cerr_has_error err then if cerr_is_application err then ApplicationClose else TransportClose
     else Terminal)"

definition closed_event :: "ConnectionError \<Rightarrow> TokioEvent" where
  "closed_event err = EvConnectionClosed (cerr_error_code err) (cerr_reason err) (closed_kind err)"

lemma closed_event_is_close [simp]: "is_close (closed_event err)"
  by (simp add: closed_event_def)

section \<open>qlog\<close>

record qlog_fs =
  fs_create_dir :: "string \<Rightarrow> bool"
  fs_create_file :: "string \<Rightarrow> bool"
  fs_write :: "bytes \<Rightarrow> bool"

text \<open>The file of a writer is its content.\<close>

record QlogWriter =
  ql_file :: "bytes option"

definition qlog_disabled :: QlogWriter where
  "qlog_disabled = \<lparr>ql_file = None\<rparr>"

definition qlog_new :: "qlog_fs \<Rightarrow> string \<Rightarrow> string \<Rightarrow> QlogWriter" where
  "qlog_new fs dir name =
    (if \<not> fs_create_dir fs dir then qlog_disabled
     else if fs_create_file fs (dir @ ''/'' @ name @ ''.sqlog'') then \<lparr>ql_file = Some []\<rparr>
     else qlog_disabled)"

text \<open>The loop of \<^verbatim>\<open>write\<close> over the pieces that the connection yields.\<close>

function qlog_loop :: "qlog_fs \<Rightarrow> bytes \<Rightarrow> ('c, 's) Connection \<Rightarrow> bytes option \<times> ('c, 's) Connection" where
  "qlog_loop fs content c =
    (case poll_qlog_data c of
       (None, c1) \<Rightarrow> (Some content, c1)
     | (Some data, c1) \<Rightarrow> if fs_write fs data then qlog_loop fs (content @ data) c1 else (None, c1))"
  by pat_completeness auto

termination
  by (relation "measure (\<lambda>(fs, content, c). length (ud_qlog_data (c_user_data c)))")
     (auto simp: poll_qlog_data_def split: if_splits)

declare qlog_loop.simps [simp del]

definition qlog_write :: "qlog_fs \<Rightarrow> QlogWriter \<Rightarrow> ('c, 's) Connection \<Rightarrow> QlogWriter \<times> ('c, 's) Connection" where
  "qlog_write fs q c =
    (case ql_file q of None \<Rightarrow> (q, c)
     | Some content \<Rightarrow> (let (f, c1) = qlog_loop fs content c in (\<lparr>ql_file = f\<rparr>, c1)))"

definition file_name :: "string \<Rightarrow> cid \<Rightarrow> string" where
  "file_name prefix c = prefix @ concat (map hex_byte (cid_bytes c))"

text \<open>The writer appends what the connection has logged and leaves the connection otherwise as it is.\<close>

lemma qlog_loop_eq:
  "qlog_loop fs content c =
    (let data = ud_qlog_data (c_user_data c) in
     if data = [] then (Some content, c)
     else (if fs_write fs data then Some (content @ data) else None,
           c\<lparr>c_user_data := (c_user_data c)\<lparr>ud_qlog_data := []\<rparr>\<rparr>))"
  by (subst qlog_loop.simps, subst qlog_loop.simps) (simp add: poll_qlog_data_def)

lemma qlog_write_conn: "snd (qlog_write fs q c) \<in> {c, conn_run_op api OpPollQlog c}"
  by (auto simp: qlog_write_def qlog_loop_eq poll_qlog_data_def Let_def split: option.split)

lemma file_name_inj: "file_name p a = file_name p b \<longleftrightarrow> a = b"
  by (cases a; cases b) (auto simp: file_name_def dest: concat_hex_inj)

section \<open>The world of an operation\<close>

text \<open>What an operation reads of the world: the clock (one reading per operation), random bytes (the first
  argument numbers the draw), the TLS library, the file system and ngtcp2's translation of error codes.\<close>

record 's io =
  io_ssl :: "'s ssl_api"
  io_new_ssl :: "'s option"
  io_rnd :: "nat \<Rightarrow> nat \<Rightarrow> bytes option"
  io_now :: u64
  io_fs :: qlog_fs
  io_infer_error :: "int \<Rightarrow> u64"

text \<open>What a call that waits has returned, if it has.\<close>

datatype 'a poll = Ready 'a | Pending

text \<open>The events that a call hands to the application.\<close>

fun handed :: "TokioEvent result poll \<Rightarrow> TokioEvent list" where
  "handed (Ready (Inr ev)) = [ev]"
| "handed _ = []"

section \<open>Queues of events\<close>

abbreviation (input) queued :: "('c, 's) Connection \<Rightarrow> ConnectionEvent list" where
  "queued c \<equiv> ud_events (c_user_data c)"

definition pop_event :: "TokioEvent list \<Rightarrow> TokioEvent option \<times> TokioEvent list" where
  "pop_event evs = (case evs of [] \<Rightarrow> (None, []) | e # es \<Rightarrow> (Some e, es))"

text \<open>What the events of a connection do to the address of the peer.\<close>

fun validated_addr :: "ConnectionEvent \<Rightarrow> SocketAddr \<Rightarrow> SocketAddr" where
  "validated_addr (PathValidated path True) addr = path_remote path"
| "validated_addr _ addr = addr"

section \<open>Properties that every operation of a connection keeps\<close>

text \<open>The endpoints drive a connection through its operations only, so that what each operation keeps is
  kept by everything the endpoints do.\<close>

definition op_closed :: "('c, 's, 'z) conn_api_scheme \<Rightarrow> (('c, 's) Connection \<Rightarrow> bool) \<Rightarrow> bool" where
  "op_closed api P \<longleftrightarrow> (\<forall>op c. P c \<longrightarrow> P (conn_run_op api op c))"

lemma op_closedD: "op_closed api P \<Longrightarrow> P c \<Longrightarrow> P (conn_run_op api op c)"
  by (simp add: op_closed_def)

lemma op_closed_reachable: "op_closed api (reachable api ssl)"
  by (simp add: op_closed_def reachable_op)

lemma c_apply_handle [simp]: "c_handle (c_apply api out c) = c_handle c"
  by (simp add: c_apply_def)

lemma write_stream_handle: "c_handle (snd (snd (write_stream_with_flags api buf s data fin ts flags c))) = c_handle c"
  by (simp add: write_stream_with_flags_def Let_def case_prod_beta)

lemma op_closed_handle: "op_closed api (\<lambda>c. c_handle c = h)"
proof -
  have "c_handle (conn_run_op api op c) = c_handle c" for op c
    by (cases op) (auto simp: conn_op_defs write_stream_handle Let_def case_prod_beta split: list.split option.split sum.split)
  then show ?thesis by (simp add: op_closed_def)
qed

lemma op_closed_write_ids:
  assumes "op_closed api P"
  shows "P (w_conn w) \<Longrightarrow> P (w_conn (snd (write_ids api ts ids w)))"
proof (induction ids arbitrary: w)
  case (Cons s ids)
  show ?case
  proof (cases "ps_entries (w_pending w) s")
    case None
    then show ?thesis using Cons by simp
  next
    case (Some e)
    obtain data fin where e: "e = (data, fin)" by (cases e)
    show ?thesis
    proof (cases "data = [] \<and> \<not> fin")
      case True
      then show ?thesis using Cons Some e by simp
    next
      case False
      let ?flags = "if ids = [] then 0 else WRITE_STREAM_FLAG_MORE"
      obtain res buf1 c1 where ws: "write_stream_with_flags api (w_buf w) s data fin ts ?flags (w_conn w) = (res, buf1, c1)"
        by (metis prod.collapse)
      have k: "P c1"
        using op_closedD [OF assms Cons(2), of "OpStream (w_buf w) s data fin ts ?flags"] ws by simp
      have ih: "P (w_conn (snd (write_ids api ts ids w1)))" if "w_conn w1 = c1" for w1
        using Cons(1) [of w1] k that by simp
      have "P (w_conn (snd (write_ids api ts (s # ids) w)))"
        unfolding write_ids.simps Let_def ws Some e option.case prod.case using False k ih
        by (cases res rule: sum.exhaust)
           (auto simp del: write_ids.simps split: prod.split sum.split Error.split)
      then show ?thesis .
    qed
  qed
qed simp

lemma op_closed_control:
  assumes "control_loop api ts packets buf c = Some y" "op_closed api P" "P c"
  shows "P (snd (snd y))"
  using assms
proof (induction rule: control_induct)
  case (step loop api ts packets buf c y)
  obtain res buf1 c1 where w: "write_pkt api buf ts c = (res, buf1, c1)" by (metis prod.collapse)
  have k: "P c1" using op_closedD [OF step(3,4), of "OpWrite buf ts"] w by simp
  show ?case
    using step(1) [OF _ step(3) k] step(2) k w by (auto split: sum.splits prod.splits if_splits)
qed

lemma op_closed_write_packets:
  assumes "write_packets api p buf ts c = Some (r, p1, buf1, c1)" "op_closed api P" "P c"
  shows "P c1"
proof -
  have "P (snd (snd (snd y)))" if "write_loop api ts packets p buf c = Some y" "op_closed api P" "P c" for packets y
    using that
  proof (induction rule: write_induct)
    case (step loop api ts packets p buf c y)
    let ?w = "\<lparr>w_conn = c, w_pending = p, w_buf = buf, w_packets = packets, w_wrote_any = False,
               w_wrote_packet = False, w_blocked = False\<rparr>"
    obtain r w where w: "write_ids api ts (ordered_ids p) ?w = (r, w)" by (metis prod.collapse)
    have k: "P (w_conn w)" using op_closed_write_ids [OF step(3), of ?w ts "ordered_ids p"] step(4) w by simp
    show ?case
    proof (cases r)
      case (Inl e)
      then show ?thesis using step(2) w k by auto
    next
      case (Inr u)
      obtain r2 buf1 c1 where c: "write_control_packets api (w_buf w) ts (w_conn w) = Some (r2, buf1, c1)"
        using step(2) w Inr by (auto simp: bind_eq_Some_conv)
      have k1: "P c1"
        using op_closed_control [OF c [unfolded write_control_packets_def] step(3) k] by simp
      show ?thesis
        using step(1) [OF _ step(3) k1] step(2) w Inr c k1 by (auto split: sum.splits if_splits)
    qed
  qed
  then show ?thesis using assms by (fastforce simp: write_packets_def)
qed

lemma op_closed_qlog: "op_closed api P \<Longrightarrow> P c \<Longrightarrow> P (snd (qlog_write fs q c))"
  using qlog_write_conn [of fs q c api] op_closedD [of api P c OpPollQlog] by fastforce

section \<open>Announcing the end of a connection\<close>

text \<open>An endpoint has a flag that it has ended, a queue of events, an operation that announces the end and
  one that takes the first event. Every other operation only appends events that are not the
  announcement, and never clears the flag.\<close>

locale closing_endpoint =
  fixes ep_closed :: "'e \<Rightarrow> bool"
    and ep_events :: "'e \<Rightarrow> TokioEvent list"
    and ep_push_closed :: "'e \<Rightarrow> 'e"
    and ep_poll :: "'e \<Rightarrow> TokioEvent option \<times> 'e"
  assumes push_closed_again: "ep_closed e \<Longrightarrow> ep_push_closed e = e"
    and push_closed_flag: "ep_closed (ep_push_closed e)"
    and push_closed_events: "\<not> ep_closed e \<Longrightarrow>
      \<exists>x. is_close x \<and> ep_events (ep_push_closed e) = ep_events e @ [x]"
    and poll_none: "ep_events e = [] \<Longrightarrow> ep_poll e = (None, e)"
    and poll_first: "ep_events e = x # xs \<Longrightarrow>
      fst (ep_poll e) = Some x \<and> ep_events (snd (ep_poll e)) = xs \<and> ep_closed (snd (ep_poll e)) = ep_closed e"
begin

definition quiet :: "'e \<Rightarrow> 'e \<Rightarrow> bool" where
  "quiet e e1 \<longleftrightarrow> (\<exists>new. ep_events e1 = ep_events e @ new \<and> list_all (\<lambda>x. \<not> is_close x) new)
     \<and> (ep_closed e \<longrightarrow> ep_closed e1)"

lemma quiet_refl: "quiet e e"
  by (simp add: quiet_def)

lemma quiet_trans: "quiet e e1 \<Longrightarrow> quiet e1 e2 \<Longrightarrow> quiet e e2"
  by (auto simp: quiet_def)

text \<open>A run, with the events it has handed to the application.\<close>

inductive run :: "'e \<Rightarrow> TokioEvent list \<Rightarrow> 'e \<Rightarrow> bool" for e0 where
  run_start: "run e0 [] e0"
| run_push: "run e0 del e \<Longrightarrow> run e0 del (ep_push_closed e)"
| run_poll: "run e0 del e \<Longrightarrow> ep_poll e = (x, e1) \<Longrightarrow> run e0 (del @ (case x of None \<Rightarrow> [] | Some y \<Rightarrow> [y])) e1"
| run_quiet: "run e0 del e \<Longrightarrow> quiet e e1 \<Longrightarrow> run e0 del e1"

lemma run_append: "run e1 del2 e2 \<Longrightarrow> run e0 del1 e1 \<Longrightarrow> run e0 (del1 @ del2) e2"
proof (induction rule: run.induct)
  case (run_poll del e x e1)
  then show ?case using run.run_poll [of e0 "del1 @ del" e x e1] by simp
qed (auto intro: run_push run_quiet)

lemma run_once:
  assumes "run e0 del e" and "list_all (\<lambda>x. \<not> is_close x) (ep_events e0)"
  shows "length (filter is_close (del @ ep_events e)) + (if ep_closed e0 then 1 else 0) \<le> (if ep_closed e then 1 else 0)"
  using assms(1)
proof (induction rule: run.induct)
  case run_start
  then show ?case using assms(2) by (auto simp: filter_empty_conv list_all_iff)
next
  case (run_push del e)
  show ?case
  proof (cases "ep_closed e")
    case True
    then show ?thesis using run_push by (simp add: push_closed_again)
  next
    case False
    then obtain x where "is_close x" "ep_events (ep_push_closed e) = ep_events e @ [x]"
      using push_closed_events by blast
    then show ?thesis using run_push False by (simp add: push_closed_flag split: if_splits)
  qed
next
  case (run_poll del e x e1)
  then show ?case
    using poll_none [of e] poll_first [of e] by (cases "ep_events e") (auto split: if_splits)
next
  case (run_quiet del e e1)
  then obtain new where n: "ep_events e1 = ep_events e @ new" "list_all (\<lambda>x. \<not> is_close x) new"
    and c: "ep_closed e \<longrightarrow> ep_closed e1" by (auto simp: quiet_def)
  have "filter is_close new = []" using n(2) by (auto simp: filter_empty_conv list_all_iff)
  then show ?case using run_quiet n(1) c by (auto split: if_splits)
qed

end

section \<open>A connection that has nothing to send\<close>

lemma c_apply_idle [simp]: "c_apply sample_conn_api (idle_write rv n buf) c = c" "c_apply sample_conn_api (idle_step x y) c = c"
  for c :: "(unit, unit) Connection"
  by (simp_all add: c_apply_def idle_write_def idle_step_def)

lemma write_nothing: "write_packets sample_conn_api pending_new buf ts c = Some (Ok [], pending_new, buf, c)"
  for c :: "(unit, unit) Connection"
proof -
  have p: "write_pkt sample_conn_api buf ts c = (Ok (0, \<lparr>pi_ecn = 0\<rparr>, None), buf, c)"
    using c_apply_idle(1) [of 0 0 buf c]
    by (simp add: write_pkt_def sample_conn_api_simps packet_path_def idle_write_def)
  have "write_control_packets sample_conn_api buf ts c = Some (Ok [], buf, c)"
    by (simp add: write_control_packets_def control_loop.simps p)
  then show ?thesis by (simp add: write_packets_def write_loop.simps pending_new_def ordered_ids_def)
qed

end
