(* ===== verification/ServerConn.thy ===== *)
theory ServerConn
  imports Endpoint Routes
begin

text \<open>
  A connection of the server and the handle the application gets for it (\<^verbatim>\<open>ServerConnection\<close> and
  \<^verbatim>\<open>AcceptedConnection\<close> in \<^verbatim>\<open>src/tokio-ngtcp2/src/server.rs\<close>). Operations that send return the packets they
  hand to the sockets. The shared routes, behind a mutex in the code, are passed in and returned.
  \<open>None\<close> is a loop that does not end or a panic. The receive buffers and the shared \<^verbatim>\<open>TlsContext\<close>, which
  only keeps memory alive, have no model.
\<close>

section \<open>Connections of the server\<close>

record ('c, 's) ServerConnection =
  sc_conn :: "('c, 's) Connection"
  sc_remote_addr :: SocketAddr
  sc_pending :: PendingStreams
  sc_events :: "TokioEvent list"
  sc_address_validated :: bool
  sc_new_token_secret :: "RetrySecret option"
  sc_new_token_submitted :: bool
  sc_early_data_received :: bool
  sc_closed :: bool
  sc_send_buf :: bytes
  sc_datagram :: DatagramConfig
  sc_qlog :: QlogWriter

definition server_submit_new_token :: "('c, 's, 'z) conn_api_scheme \<Rightarrow> 's io
    \<Rightarrow> ('c, 's) ServerConnection \<Rightarrow> ('c, 's) ServerConnection" where
  "server_submit_new_token api io sc =
    (if sc_new_token_submitted sc \<or> \<not> sc_address_validated sc then sc
     else case sc_new_token_secret sc of None \<Rightarrow> sc
       | Some secret \<Rightarrow>
         (case generate_new_token api secret (sc_remote_addr sc) (io_now io) of
            Inl e \<Rightarrow> sc
          | Inr token \<Rightarrow>
            (let (r, c) = submit_new_token api (avt_bytes token) (sc_conn sc);
                 sc = sc\<lparr>sc_conn := c\<rparr>
             in case r of Inl e \<Rightarrow> sc | Inr _ \<Rightarrow> sc\<lparr>sc_new_token_submitted := True\<rparr>)))"

text \<open>The body of the loop of \<^verbatim>\<open>drain_events\<close> for one event.\<close>

definition take_event :: "('c, 's, 'z) conn_api_scheme \<Rightarrow> 's io \<Rightarrow> ConnectionEvent
    \<Rightarrow> ('c, 's) ServerConnection \<Rightarrow> ('c, 's) ServerConnection" where
  "take_event api io ev sc =
    (let sc = (if ev = HandshakeCompleted then server_submit_new_token api io sc else sc);
         sc = (if is_in_early_data (io_ssl io) (sc_conn sc)
                 \<and> (case ev of StreamData _ _ _ \<Rightarrow> True | Datagram _ \<Rightarrow> True | _ \<Rightarrow> False)
               then sc\<lparr>sc_early_data_received := True\<rparr> else sc);
         sc = (case ev of PathValidated path success \<Rightarrow> if success then sc\<lparr>sc_remote_addr := path_remote path\<rparr> else sc
               | _ \<Rightarrow> sc)
     in sc\<lparr>sc_events := sc_events sc @ [event_from ev]\<rparr>)"

lemma submit_token_queue [simp]: "queued (sc_conn (server_submit_new_token api io sc)) = queued (sc_conn sc)"
  by (simp add: server_submit_new_token_def submit_new_token_def Let_def case_prod_beta split: option.split sum.split)

lemma take_event_queue [simp]: "queued (sc_conn (take_event api io ev sc)) = queued (sc_conn sc)"
  by (simp add: take_event_def Let_def split: ConnectionEvent.split)

function drain_events :: "('c, 's, 'z) conn_api_scheme \<Rightarrow> 's io
    \<Rightarrow> ('c, 's) ServerConnection \<Rightarrow> ('c, 's) ServerConnection" where
  "drain_events api io sc =
    (case poll_event (sc_conn sc) of
       (None, c) \<Rightarrow> sc
     | (Some ev, c) \<Rightarrow> drain_events api io (take_event api io ev (sc\<lparr>sc_conn := c\<rparr>)))"
  by pat_completeness auto

termination
  by (relation "measure (\<lambda>(api, io, sc). length (queued (sc_conn sc)))")
     (auto simp: poll_event_def split: list.splits)

declare drain_events.simps [simp del]

definition read_packet :: "('c, 's, 'z) conn_api_scheme \<Rightarrow> 's io \<Rightarrow> SocketAddr \<Rightarrow> SocketAddr \<Rightarrow> bytes \<Rightarrow> u64 \<Rightarrow> byte
    \<Rightarrow> ('c, 's) ServerConnection \<Rightarrow> unit result \<times> ('c, 's) ServerConnection" where
  "read_packet api io local_addr from data ts ecn sc =
    (let (result, c) = read_pkt api \<lparr>path_local = local_addr, path_remote = from\<rparr> \<lparr>pi_ecn = ecn\<rparr> data ts (sc_conn sc)
     in (result, drain_events api io (sc\<lparr>sc_conn := c\<rparr>)))"

definition flush_to_packets :: "('c, 's, 'z) conn_api_scheme \<Rightarrow> 's io \<Rightarrow> u64 \<Rightarrow> ('c, 's) ServerConnection
    \<Rightarrow> (OutgoingPacket list result \<times> ('c, 's) ServerConnection) option" where
  "flush_to_packets api io ts sc =
    map_option (\<lambda>(result, pending, buf, c).
        let sc = drain_events api io (sc\<lparr>sc_conn := c, sc_pending := pending, sc_send_buf := buf\<rparr>);
            (q, c) = qlog_write (io_fs io) (sc_qlog sc) (sc_conn sc)
        in (result, sc\<lparr>sc_qlog := q, sc_conn := c\<rparr>))
      (write_packets api (sc_pending sc) (sc_send_buf sc) ts (sc_conn sc))"

definition conn_handle_datagram :: "('c, 's, 'z) conn_api_scheme \<Rightarrow> 's io \<Rightarrow> SocketAddr \<Rightarrow> SocketAddr \<Rightarrow> bytes \<Rightarrow> u64
    \<Rightarrow> byte \<Rightarrow> ('c, 's) ServerConnection \<Rightarrow> unit result \<times> ('c, 's) ServerConnection" where
  "conn_handle_datagram api io local_addr from data ts ecn sc =
    (case read_packet api io local_addr from data ts ecn sc of
       (Inr _, sc) \<Rightarrow> (Ok (), sc)
     | (Inl e, sc) \<Rightarrow>
       (case classify_connection_error e of
          Ignore \<Rightarrow> (Ok (), sc)
        | Terminal \<Rightarrow> (Ok (), sc)
        | SilentDrop \<Rightarrow> (Ok (), sc)
        | TransportClose \<Rightarrow> (Ok (), sc)
        | ApplicationClose \<Rightarrow> (Ok (), sc)
        | Internal \<Rightarrow> (Err e, sc)))"

definition send_datagram_impl :: "('c, 's, 'z) conn_api_scheme \<Rightarrow> 's io \<Rightarrow> bytes \<Rightarrow> ('c, 's) ServerConnection
    \<Rightarrow> (unit result \<times> OutgoingPacket list \<times> ('c, 's) ServerConnection) option" where
  "send_datagram_impl api io data sc =
    (if length data > dg_max_tx_datagram_size (sc_datagram sc)
     then Some (Err (InvalidArgument (''datagram size '' @ show_nat (length data) @ '' exceeds max_tx_datagram_size ''
                 @ show_nat (dg_max_tx_datagram_size (sc_datagram sc)))), [], sc)
     else
       let ts = io_now io;
           (r, buf, c) = write_datagram api (sc_send_buf sc) data ts (sc_conn sc);
           sc = sc\<lparr>sc_conn := c, sc_send_buf := buf\<rparr>
       in case r of
         Inl e \<Rightarrow> Some (Err e, [], sc)
       | Inr (written, was_accepted, path, info) \<Rightarrow>
         if \<not> was_accepted then Some (Ok (), [], sc)
         else if written > 0 then
           (case from_written (take written buf) path (pi_ecn info) of
              Inl e \<Rightarrow> Some (Err e, [], sc)
            | Inr p \<Rightarrow> Some (Ok (), [p], sc))
         else
           map_option (\<lambda>(r, buf, c). let sc = sc\<lparr>sc_conn := c, sc_send_buf := buf\<rparr> in
               case r of Inl e \<Rightarrow> (Err e, [], sc) | Inr ps \<Rightarrow> (Ok (), ps, sc))
             (write_control_packets api (sc_send_buf sc) ts (sc_conn sc)))"

definition push_connection_closed :: "('c, 's, 'z) conn_api_scheme \<Rightarrow> ('c, 's) ServerConnection
    \<Rightarrow> ('c, 's) ServerConnection" where
  "push_connection_closed api sc =
    (if sc_closed sc then sc
     else sc\<lparr>sc_closed := True,
             sc_events := sc_events sc @ [closed_event (get_connection_error api (sc_conn sc))]\<rparr>)"

definition poll_server_event :: "('c, 's) ServerConnection \<Rightarrow> TokioEvent option \<times> ('c, 's) ServerConnection" where
  "poll_server_event sc = (let (e, es) = pop_event (sc_events sc) in (e, sc\<lparr>sc_events := es\<rparr>))"

section \<open>Accepted connections\<close>

text \<open>\<open>ac_inbound\<close> is the channel whose receiver the handle owns.\<close>

record ('c, 's) AcceptedConnection =
  ac_local_addr :: SocketAddr
  ac_connection_id :: cid
  ac_inner :: "('c, 's) ServerConnection"
  ac_inbound :: nat

abbreviation (input) ac_conn :: "('c, 's) AcceptedConnection \<Rightarrow> ('c, 's) Connection" where
  "ac_conn a \<equiv> sc_conn (ac_inner a)"

definition with_conn :: "('c, 's) Connection \<Rightarrow> ('c, 's) AcceptedConnection \<Rightarrow> ('c, 's) AcceptedConnection" where
  "with_conn c a = a\<lparr>ac_inner := (ac_inner a)\<lparr>sc_conn := c\<rparr>\<rparr>"

text \<open>Queries that are forwarded to the connection.\<close>

definition accepted_connection_id :: "('c, 's) AcceptedConnection \<Rightarrow> cid" where
  "accepted_connection_id a = ac_connection_id a"

definition accepted_remote_addr :: "('c, 's) AcceptedConnection \<Rightarrow> SocketAddr" where
  "accepted_remote_addr a = sc_remote_addr (ac_inner a)"

definition accepted_local_addr :: "('c, 's) AcceptedConnection \<Rightarrow> SocketAddr" where
  "accepted_local_addr a = ac_local_addr a"

definition accepted_selected_alpn_protocol :: "'s ssl_api \<Rightarrow> ('c, 's) AcceptedConnection \<Rightarrow> bytes option" where
  "accepted_selected_alpn_protocol ssl a = selected_alpn_protocol ssl (ac_conn a)"

definition accepted_negotiated_version :: "('c, 's, 'z) conn_api_scheme \<Rightarrow> ('c, 's) AcceptedConnection \<Rightarrow> QuicVersion option" where
  "accepted_negotiated_version api a = negotiated_version api (ac_conn a)"

definition accepted_stats :: "('c, 's, 'z) conn_api_scheme \<Rightarrow> ('c, 's) AcceptedConnection \<Rightarrow> ConnStats" where
  "accepted_stats api a = conn_stats api (ac_conn a)"

definition accepted_cwnd_left :: "('c, 's, 'z) conn_api_scheme \<Rightarrow> ('c, 's) AcceptedConnection \<Rightarrow> u64" where
  "accepted_cwnd_left api a = get_cwnd_left api (ac_conn a)"

definition accepted_max_stream_data_left :: "('c, 's, 'z) conn_api_scheme \<Rightarrow> StreamId \<Rightarrow> ('c, 's) AcceptedConnection \<Rightarrow> u64" where
  "accepted_max_stream_data_left api stream_id a = get_max_stream_data_left api stream_id (ac_conn a)"

definition accepted_max_data_left :: "('c, 's, 'z) conn_api_scheme \<Rightarrow> ('c, 's) AcceptedConnection \<Rightarrow> u64" where
  "accepted_max_data_left api a = get_max_data_left api (ac_conn a)"

definition accepted_streams_bidi_left :: "('c, 's, 'z) conn_api_scheme \<Rightarrow> ('c, 's) AcceptedConnection \<Rightarrow> u64" where
  "accepted_streams_bidi_left api a = get_streams_bidi_left api (ac_conn a)"

definition accepted_streams_uni_left :: "('c, 's, 'z) conn_api_scheme \<Rightarrow> ('c, 's) AcceptedConnection \<Rightarrow> u64" where
  "accepted_streams_uni_left api a = get_streams_uni_left api (ac_conn a)"

definition accepted_remote_transport_params :: "('c, 's, 'z) conn_api_scheme \<Rightarrow> ('c, 's) AcceptedConnection \<Rightarrow> RemoteTransportParams option" where
  "accepted_remote_transport_params api a = remote_transport_params api (ac_conn a)"

definition accepted_supports_reset_stream_at :: "('c, 's, 'z) conn_api_scheme \<Rightarrow> ('c, 's) AcceptedConnection \<Rightarrow> bool" where
  "accepted_supports_reset_stream_at api a = supports_reset_stream_at api (ac_conn a)"

definition accepted_received_early_data :: "('c, 's) AcceptedConnection \<Rightarrow> bool" where
  "accepted_received_early_data a = sc_early_data_received (ac_inner a)"

definition accepted_remote_max_datagram_frame_size :: "('c, 's, 'z) conn_api_scheme \<Rightarrow> ('c, 's) AcceptedConnection \<Rightarrow> u64" where
  "accepted_remote_max_datagram_frame_size api a =
    (case remote_transport_params api (ac_conn a) of None \<Rightarrow> 0 | Some p \<Rightarrow> rp_max_datagram_frame_size p)"

definition accepted_local_max_datagram_frame_size :: "('c, 's) AcceptedConnection \<Rightarrow> u64" where
  "accepted_local_max_datagram_frame_size a =
    (if datagram_is_enabled (sc_datagram (ac_inner a)) then dg_max_datagram_frame_size (sc_datagram (ac_inner a)) else 0)"

definition accepted_can_send_datagram :: "('c, 's, 'z) conn_api_scheme \<Rightarrow> ('c, 's) AcceptedConnection \<Rightarrow> bool" where
  "accepted_can_send_datagram api a =
    (datagram_is_enabled (sc_datagram (ac_inner a)) \<and> can_send_datagram api (ac_conn a))"

definition accepted_is_closed :: "('c, 's, 'z) conn_api_scheme \<Rightarrow> ('c, 's) AcceptedConnection \<Rightarrow> bool" where
  "accepted_is_closed api a =
    (sc_closed (ac_inner a) \<or> is_in_closing_period api (ac_conn a) \<or> is_in_draining_period api (ac_conn a))"

definition accepted_has_pending_data :: "('c, 's) AcceptedConnection \<Rightarrow> bool" where
  "accepted_has_pending_data a = (\<not> pending_is_empty (sc_pending (ac_inner a)))"

definition accepted_open_bidi_stream :: "('c, 's, 'z) conn_api_scheme \<Rightarrow> ('c, 's) AcceptedConnection
    \<Rightarrow> StreamId result \<times> ('c, 's) AcceptedConnection" where
  "accepted_open_bidi_stream api a = (let (r, c) = open_bidi_stream api (ac_conn a) in (r, with_conn c a))"

definition accepted_open_uni_stream :: "('c, 's, 'z) conn_api_scheme \<Rightarrow> ('c, 's) AcceptedConnection
    \<Rightarrow> StreamId result \<times> ('c, 's) AcceptedConnection" where
  "accepted_open_uni_stream api a = (let (r, c) = open_uni_stream api (ac_conn a) in (r, with_conn c a))"

definition accepted_write_stream :: "('c, 's, 'z) conn_api_scheme \<Rightarrow> StreamId \<Rightarrow> bytes \<Rightarrow> bool
    \<Rightarrow> ('c, 's) AcceptedConnection \<Rightarrow> nat result \<times> ('c, 's) AcceptedConnection" where
  "accepted_write_stream api stream_id data fin a =
    (if accepted_is_closed api a then (Err ConnectionClosedErr, a)
     else (Ok (length data), a\<lparr>ac_inner := (ac_inner a)\<lparr>sc_pending := pending_push stream_id data fin (sc_pending (ac_inner a))\<rparr>\<rparr>))"

definition accepted_poll_event :: "('c, 's) AcceptedConnection \<Rightarrow> TokioEvent option \<times> ('c, 's) AcceptedConnection" where
  "accepted_poll_event a = (let (e, sc) = poll_server_event (ac_inner a) in (e, a\<lparr>ac_inner := sc\<rparr>))"

definition sync_routes :: "('c, 's) AcceptedConnection \<Rightarrow> SharedRoutes \<Rightarrow> ('c, 's) AcceptedConnection \<times> SharedRoutes" where
  "sync_routes a r =
    (let (issued, c) = poll_issued_cids (ac_conn a);
         (retired, c) = poll_retired_cids c;
         a = with_conn c a
     in if issued = [] \<and> retired = [] then (a, r)
        else (a, routes_retire_cids (ac_connection_id a) retired (routes_register_issued_cids (ac_connection_id a) issued r)))"

definition accepted_flush :: "('c, 's, 'z) conn_api_scheme \<Rightarrow> 's io \<Rightarrow> ('c, 's) AcceptedConnection \<Rightarrow> SharedRoutes
    \<Rightarrow> (unit result \<times> OutgoingPacket list \<times> ('c, 's) AcceptedConnection \<times> SharedRoutes) option" where
  "accepted_flush api io a r =
    map_option (\<lambda>(result, sc). let a = a\<lparr>ac_inner := sc\<rparr> in
        case result of
          Inl e \<Rightarrow> (Err e, [], a, r)
        | Inr packets \<Rightarrow> (let (a, r) = sync_routes a r in (Ok (), packets, a, r)))
      (flush_to_packets api io (io_now io) (ac_inner a))"

definition handle_received_datagram :: "('c, 's, 'z) conn_api_scheme \<Rightarrow> 's io \<Rightarrow> bytes \<Rightarrow> SocketAddr \<Rightarrow> SocketAddr \<Rightarrow> byte
    \<Rightarrow> ('c, 's) AcceptedConnection \<Rightarrow> SharedRoutes \<Rightarrow> unit result \<times> ('c, 's) AcceptedConnection \<times> SharedRoutes" where
  "handle_received_datagram api io data from local_addr ecn a r =
    (let own = (let (result, sc) = conn_handle_datagram api io local_addr from data (io_now io) ecn (ac_inner a);
                    a = a\<lparr>ac_inner := sc\<rparr>
                in case result of Inl e \<Rightarrow> (Err e, a, r)
                   | Inr _ \<Rightarrow> (let (a, r) = sync_routes a r in (Ok (), a, r)))
     in case routes_resolve r data from of
          None \<Rightarrow> own
        | Some conn_key \<Rightarrow>
          if conn_key = ac_connection_id a then own
          else
            let (delivered, r) = routes_deliver conn_key
                  \<lparr>in_data = data, in_from = from, in_local_addr = local_addr, in_ecn = ecn\<rparr> r
            in (Ok (), a, if delivered then r else routes_remove conn_key r))"

definition accepted_extend_max_stream_offset :: "('c, 's, 'z) conn_api_scheme \<Rightarrow> StreamId \<Rightarrow> u64
    \<Rightarrow> ('c, 's) AcceptedConnection \<Rightarrow> unit result \<times> ('c, 's) AcceptedConnection" where
  "accepted_extend_max_stream_offset api stream_id consumed a =
    (case extend_max_stream_offset api stream_id consumed (ac_conn a) of
       (Inl e, c) \<Rightarrow> (Err e, with_conn c a)
     | (Inr _, c) \<Rightarrow> (Ok (), with_conn (extend_max_offset api consumed c) a))"

definition accepted_extend_max_streams_bidi :: "('c, 's, 'z) conn_api_scheme \<Rightarrow> nat \<Rightarrow> ('c, 's) AcceptedConnection
    \<Rightarrow> ('c, 's) AcceptedConnection" where
  "accepted_extend_max_streams_bidi api n a = with_conn (extend_max_streams_bidi api n (ac_conn a)) a"

definition accepted_extend_max_streams_uni :: "('c, 's, 'z) conn_api_scheme \<Rightarrow> nat \<Rightarrow> ('c, 's) AcceptedConnection
    \<Rightarrow> ('c, 's) AcceptedConnection" where
  "accepted_extend_max_streams_uni api n a = with_conn (extend_max_streams_uni api n (ac_conn a)) a"

definition forget_pending :: "StreamId \<Rightarrow> ('c, 's) AcceptedConnection \<Rightarrow> ('c, 's) AcceptedConnection" where
  "forget_pending stream_id a = a\<lparr>ac_inner := (ac_inner a)\<lparr>sc_pending := pending_remove stream_id (sc_pending (ac_inner a))\<rparr>\<rparr>"

definition accepted_reset_stream :: "('c, 's, 'z) conn_api_scheme \<Rightarrow> StreamId \<Rightarrow> u64
    \<Rightarrow> ('c, 's) AcceptedConnection \<Rightarrow> unit result \<times> ('c, 's) AcceptedConnection" where
  "accepted_reset_stream api stream_id error_code a =
    (let a = forget_pending stream_id a; (r, c) = shutdown_stream_write api stream_id error_code (ac_conn a)
     in (r, with_conn c a))"

definition accepted_reset_stream_reliable :: "('c, 's, 'z) conn_api_scheme \<Rightarrow> StreamId \<Rightarrow> u64
    \<Rightarrow> ('c, 's) AcceptedConnection \<Rightarrow> unit result \<times> ('c, 's) AcceptedConnection" where
  "accepted_reset_stream_reliable api stream_id error_code a =
    (let a = forget_pending stream_id a; (r, c) = shutdown_stream_write_reliable api stream_id error_code (ac_conn a)
     in (r, with_conn c a))"

definition accepted_stop_sending :: "('c, 's, 'z) conn_api_scheme \<Rightarrow> StreamId \<Rightarrow> u64
    \<Rightarrow> ('c, 's) AcceptedConnection \<Rightarrow> unit result \<times> ('c, 's) AcceptedConnection" where
  "accepted_stop_sending api stream_id error_code a =
    (let (r, c) = shutdown_stream_read api stream_id error_code (ac_conn a) in (r, with_conn c a))"

definition accepted_close_stream :: "('c, 's, 'z) conn_api_scheme \<Rightarrow> StreamId \<Rightarrow> u64
    \<Rightarrow> ('c, 's) AcceptedConnection \<Rightarrow> unit result \<times> ('c, 's) AcceptedConnection" where
  "accepted_close_stream api stream_id error_code a =
    (let a = forget_pending stream_id a; (r, c) = shutdown_stream api stream_id error_code (ac_conn a)
     in (r, with_conn c a))"

definition accepted_send_datagram :: "('c, 's, 'z) conn_api_scheme \<Rightarrow> 's io \<Rightarrow> bytes \<Rightarrow> ('c, 's) AcceptedConnection
    \<Rightarrow> (unit result \<times> OutgoingPacket list \<times> ('c, 's) AcceptedConnection) option" where
  "accepted_send_datagram api io data a =
    map_option (\<lambda>(r, ps, sc). (r, ps, a\<lparr>ac_inner := sc\<rparr>)) (send_datagram_impl api io data (ac_inner a))"

definition accepted_initiate_key_update :: "('c, 's, 'z) conn_api_scheme \<Rightarrow> 's io \<Rightarrow> ('c, 's) AcceptedConnection
    \<Rightarrow> unit result \<times> ('c, 's) AcceptedConnection" where
  "accepted_initiate_key_update api io a =
    (let (r, c) = initiate_key_update api (io_now io) (ac_conn a) in (r, with_conn c a))"

definition accepted_close :: "('c, 's, 'z) conn_api_scheme \<Rightarrow> 's io \<Rightarrow> u64 \<Rightarrow> bytes \<Rightarrow> ('c, 's) AcceptedConnection
    \<Rightarrow> (unit result \<times> OutgoingPacket list \<times> ('c, 's) AcceptedConnection) option" where
  "accepted_close api io error_code reason a =
    (if accepted_is_closed api a then Some (Ok (), [], a)
     else
       let (r, buf, c) = write_connection_close_app api (sc_send_buf (ac_inner a)) error_code reason (io_now io) (ac_conn a);
           a = a\<lparr>ac_inner := (ac_inner a)\<lparr>sc_conn := c, sc_send_buf := buf\<rparr>\<rparr>;
           done_closed = a\<lparr>ac_inner := (ac_inner a)\<lparr>sc_closed := True\<rparr>\<rparr>
       in case r of
         Inl e \<Rightarrow> Some (Err e, [], a)
       | Inr written \<Rightarrow>
         if written > 0
         then map_option (\<lambda>ps. (Ok (), ps, done_closed))
                (close_packets (take written buf) (ac_local_addr a) (sc_remote_addr (ac_inner a)) 0)
         else Some (Ok (), [], done_closed))"

text \<open>Dropping the handle removes its routes, then closes its channel and frees the connection.\<close>

definition accepted_drop :: "('c, 's) AcceptedConnection \<Rightarrow> SharedRoutes \<Rightarrow> conn_heap \<Rightarrow> SharedRoutes \<times> conn_heap" where
  "accepted_drop a r h =
    (let r = routes_remove (ac_connection_id a) r
     in (r\<lparr>sr_channels := (sr_channels r)(ac_inbound a := (sr_channels r (ac_inbound a))\<lparr>ch_rx_open := False\<rparr>)\<rparr>,
         conn_drop (ac_conn a) h))"

section \<open>Waiting for an event\<close>

text \<open>What \<^verbatim>\<open>tokio::select!\<close> yields in one iteration: the channel (a datagram when it has one, otherwise its
  end), the socket, or the timer. An iteration is given with the world of its flush and that of its
  handler; a call of \<^verbatim>\<open>recv_event\<close> that has used up its iterations is still waiting.\<close>

datatype wakeup =
    FromQueue
  | FromSocket "string + (bytes \<times> SocketAddr \<times> SocketAddr \<times> byte)"
  | TimerFired

definition announce :: "('c, 's, 'z) conn_api_scheme \<Rightarrow> Error \<Rightarrow> ('c, 's) AcceptedConnection
    \<Rightarrow> TokioEvent result \<times> ('c, 's) AcceptedConnection" where
  "announce api e a =
    (case accepted_poll_event (a\<lparr>ac_inner := push_connection_closed api (ac_inner a)\<rparr>) of
       (Some ev, a) \<Rightarrow> (Ok ev, a)
     | (None, a) \<Rightarrow> (Err e, a))"

definition recv_ready :: "('c, 's, 'z) conn_api_scheme \<Rightarrow> ('c, 's) AcceptedConnection
    \<Rightarrow> (TokioEvent result \<times> ('c, 's) AcceptedConnection) option" where
  "recv_ready api a =
    (case accepted_poll_event a of
       (Some ev, a) \<Rightarrow> Some (Ok ev, a)
     | (None, a) \<Rightarrow>
       if is_in_closing_period api (ac_conn a) \<or> is_in_draining_period api (ac_conn a)
       then Some (announce api ConnectionClosedErr a) else None)"

text \<open>A handler returns a result, if the call ends, and whether the channel is still open.\<close>

definition handle_wakeup :: "('c, 's, 'z) conn_api_scheme \<Rightarrow> 's io \<Rightarrow> wakeup \<Rightarrow> bool \<Rightarrow> ('c, 's) AcceptedConnection
    \<Rightarrow> SharedRoutes \<Rightarrow> TokioEvent result option \<times> bool \<times> ('c, 's) AcceptedConnection \<times> SharedRoutes" where
  "handle_wakeup api io w queue_open a r =
    (case w of
       FromQueue \<Rightarrow>
         (case ch_queue (sr_channels r (ac_inbound a)) of
            [] \<Rightarrow> (None, False, a, r)
          | d # ds \<Rightarrow>
            (let r = r\<lparr>sr_channels := (sr_channels r)(ac_inbound a := (sr_channels r (ac_inbound a))\<lparr>ch_queue := ds\<rparr>)\<rparr>;
                 (result, sc) = conn_handle_datagram api io (in_local_addr d) (in_from d) (in_data d) (io_now io) (in_ecn d) (ac_inner a);
                 a = a\<lparr>ac_inner := sc\<rparr>
             in case result of Inl e \<Rightarrow> (Some (Err e), queue_open, a, r)
                | Inr _ \<Rightarrow> (let (a, r) = sync_routes a r in (None, queue_open, a, r))))
     | FromSocket (Inl msg) \<Rightarrow> (Some (Err (InternalErr (''recv error: '' @ msg))), queue_open, a, r)
     | FromSocket (Inr (data, from, l, ecn)) \<Rightarrow>
         (case handle_received_datagram api io data from l ecn a r of
            (Inl e, a, r) \<Rightarrow> (Some (Err e), queue_open, a, r)
          | (Inr _, a, r) \<Rightarrow> (None, queue_open, a, r))
     | TimerFired \<Rightarrow>
         (let (result, c) = handle_expiry api (io_now io) (ac_conn a);
              a = with_conn c a;
              a = a\<lparr>ac_inner := drain_events api io (ac_inner a)\<rparr>
          in case result of
               Inr _ \<Rightarrow> (None, queue_open, a, r)
             | Inl e \<Rightarrow>
               if classify_connection_error e = Ignore \<or> classify_connection_error e = Terminal
               then (None, queue_open, a, r)
               else (let (x, a) = announce api e a in (Some x, queue_open, a, r))))"

text \<open>One iteration after the check at the head of the loop.\<close>

definition recv_iteration :: "('c, 's, 'z) conn_api_scheme \<Rightarrow> 's io \<Rightarrow> 's io \<Rightarrow> wakeup \<Rightarrow> bool
    \<Rightarrow> ('c, 's) AcceptedConnection \<Rightarrow> SharedRoutes
    \<Rightarrow> (OutgoingPacket list \<times> TokioEvent result option \<times> bool \<times> ('c, 's) AcceptedConnection \<times> SharedRoutes) option" where
  "recv_iteration api io1 io2 w queue_open a r =
    (case accepted_flush api io1 a r of
       None \<Rightarrow> None
     | Some (Inl e, sent, a, r) \<Rightarrow> Some (sent, Some (Err e), queue_open, a, r)
     | Some (Inr _, sent, a, r) \<Rightarrow>
       (let a = a\<lparr>ac_inner := drain_events api io1 (ac_inner a)\<rparr>;
            (a, r) = sync_routes a r
        in case accepted_poll_event a of
             (Some ev, a) \<Rightarrow> Some (sent, Some (Ok ev), queue_open, a, r)
           | (None, a) \<Rightarrow> Some (sent, handle_wakeup api io2 w queue_open a r)))"

fun recv_loop :: "('c, 's, 'z) conn_api_scheme \<Rightarrow> bool \<Rightarrow> ('s io \<times> 's io \<times> wakeup) list \<Rightarrow> ('c, 's) AcceptedConnection
    \<Rightarrow> SharedRoutes \<Rightarrow> (TokioEvent result poll \<times> OutgoingPacket list \<times> ('c, 's) AcceptedConnection \<times> SharedRoutes) option" where
  "recv_loop api queue_open [] a r =
    (case recv_ready api a of Some (x, a) \<Rightarrow> Some (Ready x, [], a, r) | None \<Rightarrow> Some (Pending, [], a, r))"
| "recv_loop api queue_open ((io1, io2, w) # ins) a r =
    (case recv_ready api a of
       Some (x, a) \<Rightarrow> Some (Ready x, [], a, r)
     | None \<Rightarrow>
       if w = FromQueue \<and> \<not> queue_open then recv_loop api queue_open ins a r
       else
         (case recv_iteration api io1 io2 w queue_open a r of
            None \<Rightarrow> None
          | Some (sent, Some x, q, a, r) \<Rightarrow> Some (Ready x, sent, a, r)
          | Some (sent, None, q, a, r) \<Rightarrow>
            map_option (\<lambda>(x, ps, a, r). (x, sent @ ps, a, r)) (recv_loop api q ins a r)))"

definition recv_event :: "('c, 's, 'z) conn_api_scheme \<Rightarrow> ('s io \<times> 's io \<times> wakeup) list \<Rightarrow> ('c, 's) AcceptedConnection
    \<Rightarrow> SharedRoutes \<Rightarrow> (TokioEvent result poll \<times> OutgoingPacket list \<times> ('c, 's) AcceptedConnection \<times> SharedRoutes) option" where
  "recv_event api ins a r =
    (case accepted_poll_event a of
       (Some ev, a) \<Rightarrow> Some (Ready (Ok ev), [], a, r)
     | (None, a) \<Rightarrow>
       if accepted_is_closed api a
       then (let (x, a) = announce api ConnectionClosedErr a in Some (Ready x, [], a, r))
       else recv_loop api True ins a r)"

section \<open>Taking over events\<close>

lemma submit_token_frame [simp]:
  "sc_events (server_submit_new_token api io sc) = sc_events sc"
  "sc_closed (server_submit_new_token api io sc) = sc_closed sc"
  "sc_remote_addr (server_submit_new_token api io sc) = sc_remote_addr sc"
  "sc_pending (server_submit_new_token api io sc) = sc_pending sc"
  by (simp_all add: server_submit_new_token_def Let_def case_prod_beta split: option.split sum.split)

lemma take_event_frame [simp]:
  "sc_events (take_event api io ev sc) = sc_events sc @ [event_from ev]"
  "sc_closed (take_event api io ev sc) = sc_closed sc"
  "sc_remote_addr (take_event api io ev sc) = validated_addr ev (sc_remote_addr sc)"
  "sc_pending (take_event api io ev sc) = sc_pending sc"
  by (simp_all add: take_event_def Let_def split: ConnectionEvent.split)

lemma drain_events_frame:
  "queued (sc_conn (drain_events api io sc)) = []
   \<and> sc_events (drain_events api io sc) = sc_events sc @ map event_from (queued (sc_conn sc))
   \<and> sc_closed (drain_events api io sc) = sc_closed sc
   \<and> sc_remote_addr (drain_events api io sc) = fold validated_addr (queued (sc_conn sc)) (sc_remote_addr sc)
   \<and> sc_pending (drain_events api io sc) = sc_pending sc"
proof (induction api io sc rule: drain_events.induct)
  case (1 api io sc)
  show ?case
  proof (cases "queued (sc_conn sc)")
    case Nil
    then show ?thesis by (subst (1 2 3 4 5) drain_events.simps) (simp add: poll_event_def)
  next
    case (Cons ev evs)
    define c where "c = (sc_conn sc)\<lparr>c_user_data := (c_user_data (sc_conn sc))\<lparr>ud_events := evs\<rparr>\<rparr>"
    have p: "poll_event (sc_conn sc) = (Some ev, c)" using Cons by (simp add: poll_event_def c_def)
    have d: "drain_events api io sc = drain_events api io (take_event api io ev (sc\<lparr>sc_conn := c\<rparr>))"
      by (subst drain_events.simps) (simp add: p)
    have q: "queued c = evs" by (simp add: c_def)
    show ?thesis using 1 [OF p [symmetric] refl] unfolding d by (simp add: q Cons)
  qed
qed

lemmas drain_events_simps [simp] = drain_events_frame [THEN conjunct1] drain_events_frame [THEN conjunct2, THEN conjunct1]
  drain_events_frame [THEN conjunct2, THEN conjunct2, THEN conjunct1]
  drain_events_frame [THEN conjunct2, THEN conjunct2, THEN conjunct2, THEN conjunct1]
  drain_events_frame [THEN conjunct2, THEN conjunct2, THEN conjunct2, THEN conjunct2]

text \<open>What every operation of a connection keeps is kept by the operations of the server's connections.\<close>

lemma op_closed_take_event:
  assumes "op_closed api P" "P (sc_conn sc)"
  shows "P (sc_conn (take_event api io ev sc))"
proof -
  have "P (snd (submit_new_token api t (sc_conn sc)))" for t
    using op_closedD [OF assms, of "OpSubmitToken t"] by simp
  then have "P (sc_conn (server_submit_new_token api io sc))"
    using assms(2) by (auto simp: server_submit_new_token_def Let_def case_prod_beta split: option.split sum.split)
  then show ?thesis using assms(2) by (simp add: take_event_def Let_def split: ConnectionEvent.split)
qed

lemma op_closed_drain:
  "op_closed api P \<Longrightarrow> P (sc_conn sc) \<Longrightarrow> P (sc_conn (drain_events api io sc))"
proof (induction api io sc rule: drain_events.induct)
  case (1 api io sc)
  obtain e c where p: "poll_event (sc_conn sc) = (e, c)" by fastforce
  have c: "P c" using op_closedD [OF 1(2,3), of OpPollEvent] p by simp
  show ?case
  proof (cases e)
    case None
    then show ?thesis using 1(3) p by (subst drain_events.simps) simp
  next
    case (Some ev)
    have "P (sc_conn (take_event api io ev (sc\<lparr>sc_conn := c\<rparr>)))"
      by (rule op_closed_take_event [OF 1(2)]) (simp add: c)
    then show ?thesis using 1(1) [OF p [symmetric] Some 1(2)] p Some by (subst drain_events.simps) simp
  qed
qed

lemma op_closed_read_packet:
  "op_closed api P \<Longrightarrow> P (sc_conn sc) \<Longrightarrow> P (sc_conn (snd (read_packet api io l from data ts ecn sc)))"
  using op_closedD [of api P "sc_conn sc" "OpRead \<lparr>path_local = l, path_remote = from\<rparr> \<lparr>pi_ecn = ecn\<rparr> data ts"]
  by (simp add: read_packet_def Let_def case_prod_beta op_closed_drain)

lemma op_closed_flush:
  assumes "op_closed api P" "P (sc_conn sc)" "flush_to_packets api io ts sc = Some (r, sc1)"
  shows "P (sc_conn sc1)"
proof -
  obtain r1 p buf c where w: "write_packets api (sc_pending sc) (sc_send_buf sc) ts (sc_conn sc) = Some (r1, p, buf, c)"
    using assms(3) by (auto simp: flush_to_packets_def)
  define sc2 where "sc2 = drain_events api io (sc\<lparr>sc_conn := c, sc_pending := p, sc_send_buf := buf\<rparr>)"
  have "P c" by (rule op_closed_write_packets [OF w assms(1,2)])
  then have "P (sc_conn sc2)" unfolding sc2_def by (intro op_closed_drain [OF assms(1)]) simp
  then have "P (snd (qlog_write (io_fs io) (sc_qlog sc2) (sc_conn sc2)))" by (rule op_closed_qlog [OF assms(1)])
  then show ?thesis using assms(3) w by (auto simp: flush_to_packets_def sc2_def [symmetric] Let_def case_prod_beta)
qed

section \<open>The end of a connection is announced once\<close>

interpretation se: closing_endpoint sc_closed sc_events "push_connection_closed api" poll_server_event
  for api :: "('c, 's, 'z) conn_api_scheme"
proof unfold_locales
  fix e :: "('c, 's) ServerConnection" and x xs
  show "sc_closed e \<Longrightarrow> push_connection_closed api e = e" by (simp add: push_connection_closed_def)
  show "sc_closed (push_connection_closed api e)" by (simp add: push_connection_closed_def)
  show "\<not> sc_closed e \<Longrightarrow> \<exists>x. is_close x \<and> sc_events (push_connection_closed api e) = sc_events e @ [x]"
    by (simp add: push_connection_closed_def)
  show "sc_events e = [] \<Longrightarrow> poll_server_event e = (None, e)"
    by (simp add: poll_server_event_def pop_event_def)
  show "sc_events e = x # xs \<Longrightarrow> fst (poll_server_event e) = Some x
      \<and> sc_events (snd (poll_server_event e)) = xs \<and> sc_closed (snd (poll_server_event e)) = sc_closed e"
    by (simp add: poll_server_event_def pop_event_def)
qed

abbreviation server_run :: "('c, 's, 'z) conn_api_scheme \<Rightarrow> ('c, 's) ServerConnection \<Rightarrow> TokioEvent list
    \<Rightarrow> ('c, 's) ServerConnection \<Rightarrow> bool" where
  "server_run api \<equiv> closing_endpoint.run sc_closed sc_events (push_connection_closed api) poll_server_event"

lemma quiet_same: "sc_events e1 = sc_events e \<Longrightarrow> sc_closed e1 = sc_closed e \<Longrightarrow> se.quiet e e1"
  by (simp add: se.quiet_def)

lemma quiet_drain [simp]: "se.quiet e (drain_events api io e)"
  by (simp add: se.quiet_def list_all_iff)

lemma quiet_read [simp]: "se.quiet e (snd (read_packet api io l from data ts ecn e))"
  by (simp add: read_packet_def case_prod_beta Let_def se.quiet_def list_all_iff)

lemma quiet_datagram [simp]: "se.quiet e (snd (conn_handle_datagram api io l from data ts ecn e))"
proof -
  have "snd (conn_handle_datagram api io l from data ts ecn e) = snd (read_packet api io l from data ts ecn e)"
    by (simp add: conn_handle_datagram_def split: prod.split sum.split ConnectionErrorKind.split)
  then show ?thesis by simp
qed

lemma quiet_flush: "flush_to_packets api io ts e = Some (r, e1) \<Longrightarrow> se.quiet e e1"
  by (auto simp: flush_to_packets_def Let_def case_prod_beta se.quiet_def list_all_iff)

lemma quiet_send_datagram: "send_datagram_impl api io data e = Some (r, ps, e1) \<Longrightarrow> se.quiet e e1"
proof -
  have *: "se.quiet e (e\<lparr>sc_conn := c, sc_send_buf := buf\<rparr>)" for c buf by (rule quiet_same) simp_all
  assume "send_datagram_impl api io data e = Some (r, ps, e1)"
  then have "e1 = e \<or> (\<exists>c buf. e1 = e\<lparr>sc_conn := c, sc_send_buf := buf\<rparr>)"
    by (auto simp: send_datagram_impl_def Let_def split: if_splits sum.splits prod.splits) (metis sum.exhaust)
  then show ?thesis using * se.quiet_refl by metis
qed

lemma sync_routes_inner [simp]:
  "sc_events (ac_inner (fst (sync_routes a r))) = sc_events (ac_inner a)"
  "sc_closed (ac_inner (fst (sync_routes a r))) = sc_closed (ac_inner a)"
  by (simp_all add: sync_routes_def with_conn_def Let_def case_prod_beta)

lemma quiet_sync: "se.quiet e (ac_inner a) \<Longrightarrow> se.quiet e (ac_inner (fst (sync_routes a r)))"
  by (simp add: se.quiet_def)

lemma quiet_accepted_flush:
  "accepted_flush api io a r = Some (x, ps, a1, r1) \<Longrightarrow> se.quiet (ac_inner a) (ac_inner a1)"
proof -
  assume a: "accepted_flush api io a r = Some (x, ps, a1, r1)"
  then obtain res sc where f: "flush_to_packets api io (io_now io) (ac_inner a) = Some (res, sc)"
    by (auto simp: accepted_flush_def)
  have q: "se.quiet (ac_inner a) sc" by (rule quiet_flush [OF f])
  show ?thesis
  proof (cases res)
    case (Inl e)
    then show ?thesis using a f q by (auto simp: accepted_flush_def)
  next
    case (Inr packets)
    have "a1 = fst (sync_routes (a\<lparr>ac_inner := sc\<rparr>) r)"
      using a f Inr by (auto simp: accepted_flush_def Let_def case_prod_beta)
    then show ?thesis using quiet_sync [of "ac_inner a" "a\<lparr>ac_inner := sc\<rparr>" r] q by simp
  qed
qed

lemma quiet_received:
  "se.quiet (ac_inner a) (ac_inner (fst (snd (handle_received_datagram api io data from l ecn a r))))"
proof -
  obtain x sc where h: "conn_handle_datagram api io l from data (io_now io) ecn (ac_inner a) = (x, sc)" by fastforce
  have q: "se.quiet (ac_inner a) sc" using quiet_datagram [of "ac_inner a" api io l "from" data "io_now io" ecn] h by simp
  have s: "se.quiet (ac_inner a) (ac_inner (fst (sync_routes (a\<lparr>ac_inner := sc\<rparr>) r)))"
    by (rule quiet_sync) (simp add: q)
  show ?thesis
    using q s by (simp add: handle_received_datagram_def h Let_def case_prod_beta se.quiet_refl split: option.split sum.split)
qed

lemma poll_accepted:
  "accepted_poll_event a = (e, a1) \<Longrightarrow> poll_server_event (ac_inner a) = (e, ac_inner a1)"
  by (auto simp: accepted_poll_event_def case_prod_beta Let_def)

lemma run_accepted_poll:
  assumes "server_run api e0 del (ac_inner a)" "accepted_poll_event a = (x, a1)"
  shows "server_run api e0 (del @ (case x of None \<Rightarrow> [] | Some y \<Rightarrow> [y])) (ac_inner a1)"
  by (rule se.run_poll [OF assms(1) poll_accepted [OF assms(2)]])

lemma run_announce:
  assumes "server_run api e0 [] (ac_inner a)" "announce api err a = (x, a1)"
  shows "server_run api e0 (handed (Ready x)) (ac_inner a1)"
proof -
  let ?a = "a\<lparr>ac_inner := push_connection_closed api (ac_inner a)\<rparr>"
  obtain y a2 where p: "accepted_poll_event ?a = (y, a2)" by fastforce
  have "server_run api e0 [] (ac_inner ?a)" using se.run_push [OF assms(1)] by simp
  from run_accepted_poll [OF this p] show ?thesis
    using assms(2) p by (auto simp: announce_def split: option.splits)
qed

lemma run_ready:
  assumes "server_run api e0 [] (ac_inner a)" "recv_ready api a = Some (x, a1)"
  shows "server_run api e0 (handed (Ready x)) (ac_inner a1)"
proof -
  obtain y a2 where p: "accepted_poll_event a = (y, a2)" by fastforce
  show ?thesis
  proof (cases y)
    case None
    then have "server_run api e0 [] (ac_inner a2)" using run_accepted_poll [OF assms(1) p] by simp
    then show ?thesis using assms(2) p None run_announce by (fastforce simp: recv_ready_def split: if_splits)
  next
    case (Some ev)
    then show ?thesis using run_accepted_poll [OF assms(1) p] assms(2) p by (auto simp: recv_ready_def)
  qed
qed

definition handed_opt :: "TokioEvent result option \<Rightarrow> TokioEvent list" where
  "handed_opt x = (case x of None \<Rightarrow> [] | Some y \<Rightarrow> handed (Ready y))"

lemma run_queue:
  assumes "server_run api e0 [] (ac_inner a)" "handle_wakeup api io w q a r = (x, q1, a1, r1)" "w = FromQueue"
  shows "server_run api e0 (handed_opt x) (ac_inner a1)"
proof (cases "ch_queue (sr_channels r (ac_inbound a))")
  case Nil
  then show ?thesis using assms by (simp add: handle_wakeup_def handed_opt_def)
next
  case (Cons d ds)
  obtain res sc where h: "conn_handle_datagram api io (in_local_addr d) (in_from d) (in_data d) (io_now io) (in_ecn d) (ac_inner a)
      = (res, sc)" by fastforce
  have "se.quiet (ac_inner a) sc" using quiet_datagram [of "ac_inner a" api io] h by (metis snd_conv)
  then have q: "server_run api e0 [] sc" by (rule se.run_quiet [OF assms(1)])
  have "server_run api e0 [] (ac_inner (fst (sync_routes (a\<lparr>ac_inner := sc\<rparr>) r')))" for r'
    by (rule se.run_quiet [OF q]) (rule quiet_sync, simp add: se.quiet_refl)
  then have s: "server_run api e0 [] (ac_inner a1)" if "sync_routes (a\<lparr>ac_inner := sc\<rparr>) r' = (a1, r1)" for r' a1 r1
    using that by (metis fst_conv)
  show ?thesis
    using assms(2) assms(3) Cons h q s
    by (auto simp: handle_wakeup_def handed_opt_def Let_def split: sum.splits prod.splits)
qed

lemma run_timer:
  assumes "server_run api e0 [] (ac_inner a)" "handle_wakeup api io w q a r = (x, q1, a1, r1)" "w = TimerFired"
  shows "server_run api e0 (handed_opt x) (ac_inner a1)"
proof -
  obtain res c where e: "handle_expiry api (io_now io) (ac_conn a) = (res, c)" by fastforce
  define a2 where "a2 = (with_conn c a)\<lparr>ac_inner := drain_events api io (ac_inner (with_conn c a))\<rparr>"
  have "se.quiet (ac_inner a) (ac_inner (with_conn c a))" by (rule quiet_same) (simp_all add: with_conn_def)
  then have "se.quiet (ac_inner a) (ac_inner a2)" unfolding a2_def using se.quiet_trans quiet_drain by fastforce
  then have r2: "server_run api e0 [] (ac_inner a2)" by (rule se.run_quiet [OF assms(1)])
  show ?thesis
    using assms(2) assms(3) e r2
    by (auto simp: handle_wakeup_def handed_opt_def Let_def a2_def [symmetric] case_prod_beta
        split: sum.splits if_splits intro: run_announce [OF r2 surjective_pairing] simp del: handed.simps)
qed

lemma run_wakeup:
  assumes "server_run api e0 [] (ac_inner a)" "handle_wakeup api io w q a r = (x, q1, a1, r1)"
  shows "server_run api e0 (handed_opt x) (ac_inner a1)"
proof (cases w)
  case FromQueue
  then show ?thesis by (rule run_queue [OF assms])
next
  case (FromSocket m)
  show ?thesis
  proof (cases m)
    case (Inl msg)
    then show ?thesis using assms FromSocket by (auto simp: handle_wakeup_def handed_opt_def)
  next
    case (Inr b)
    obtain data fr l ecn where b: "b = (data, fr, l, ecn)" by (cases b)
    have "server_run api e0 [] (ac_inner (fst (snd (handle_received_datagram api io data fr l ecn a r))))"
      by (rule se.run_quiet [OF assms(1) quiet_received])
    then show ?thesis
      using assms(2) FromSocket Inr b
      by (auto simp: handle_wakeup_def handed_opt_def split: prod.splits sum.splits)
  qed
next
  case TimerFired
  then show ?thesis by (rule run_timer [OF assms])
qed

lemma run_iteration:
  assumes "recv_iteration api io1 io2 w q a r = Some (sent, x, q1, a1, r1)" and "server_run api e0 [] (ac_inner a)"
  shows "server_run api e0 (handed_opt x) (ac_inner a1)"
proof -
  obtain res ps a2 r2 where f: "accepted_flush api io1 a r = Some (res, ps, a2, r2)"
    using assms(1) by (auto simp: recv_iteration_def split: option.splits)
  have s2: "server_run api e0 [] (ac_inner a2)" by (rule se.run_quiet [OF assms(2) quiet_accepted_flush [OF f]])
  let ?a = "a2\<lparr>ac_inner := drain_events api io1 (ac_inner a2)\<rparr>"
  obtain a3 r3 where s: "sync_routes ?a r2 = (a3, r3)" by fastforce
  have "se.quiet (ac_inner a2) (ac_inner a3)" using quiet_sync [of "ac_inner a2" ?a r2] s by simp
  then have s3: "server_run api e0 [] (ac_inner a3)" by (rule se.run_quiet [OF s2])
  obtain ev a4 where p: "accepted_poll_event a3 = (ev, a4)" by fastforce
  note s4 = run_accepted_poll [OF s3 p]
  show ?thesis
  proof (cases res)
    case (Inl e)
    then show ?thesis using assms(1) f s2 by (auto simp: recv_iteration_def handed_opt_def)
  next
    case (Inr u)
    show ?thesis
    proof (cases ev)
      case None
      then have "handle_wakeup api io2 w q a4 r3 = (x, q1, a1, r1)"
        using assms(1) f Inr s p by (auto simp: recv_iteration_def Let_def)
      then show ?thesis using run_wakeup s4 None by fastforce
    next
      case (Some y)
      then show ?thesis using assms(1) f Inr s p s4 by (auto simp: recv_iteration_def handed_opt_def Let_def)
    qed
  qed
qed

lemma run_recv_loop:
  "recv_loop api q ins a r = Some (x, ps, a1, r1) \<Longrightarrow> server_run api e0 [] (ac_inner a)
    \<Longrightarrow> server_run api e0 (handed x) (ac_inner a1)"
proof (induction ins arbitrary: q a r x ps a1 r1)
  case Nil
  then show ?case using run_ready by (fastforce split: option.splits simp del: handed.simps(1))
next
  case (Cons i ins)
  obtain io1 io2 w where i: "i = (io1, io2, w)" by (cases i)
  show ?case
  proof (cases "recv_ready api a")
    case (Some y)
    then show ?thesis using Cons(2,3) i run_ready [of api e0 a "fst y" "snd y"] by (cases y) (auto simp del: handed.simps(1))
  next
    case None
    show ?thesis
    proof (cases "w = FromQueue \<and> \<not> q")
      case True
      then show ?thesis using Cons i None by simp
    next
      case False
      then obtain sent y q1 a2 r2 where it: "recv_iteration api io1 io2 w q a r = Some (sent, y, q1, a2, r2)"
        using Cons(2) None i by (auto split: option.splits)
      note s = run_iteration [OF it Cons(3)]
      show ?thesis using Cons(1) [of q1 a2 r2] Cons(2) s i None False it
        by (cases y) (auto simp: handed_opt_def)
    qed
  qed
qed

text \<open>The operations of the handle that touch its events, with what they hand to the application.\<close>

datatype 's accepted_op =
    AcFlush "'s io"
  | AcRecv "('s io \<times> 's io \<times> wakeup) list"
  | AcPoll
  | AcSendDatagram "'s io" bytes
  | AcClose "'s io" u64 bytes
  | AcWrite StreamId bytes bool
  | AcReset StreamId u64
  | AcResetReliable StreamId u64
  | AcStopSending StreamId u64
  | AcCloseStream StreamId u64
  | AcOpenBidi
  | AcOpenUni
  | AcExtend StreamId u64
  | AcExtendBidi nat
  | AcExtendUni nat
  | AcKeyUpdate "'s io"

type_synonym ('c, 's) accepted_state = "('c, 's) AcceptedConnection \<times> SharedRoutes"

fun accepted_run_op :: "('c, 's, 'z) conn_api_scheme \<Rightarrow> 's accepted_op \<Rightarrow> ('c, 's) accepted_state
    \<Rightarrow> (TokioEvent list \<times> OutgoingPacket list \<times> ('c, 's) accepted_state) option" where
  "accepted_run_op api (AcFlush io) (a, r) = map_option (\<lambda>(x, ps, a, r). ([], ps, a, r)) (accepted_flush api io a r)"
| "accepted_run_op api (AcRecv ins) (a, r) = map_option (\<lambda>(x, ps, a, r). (handed x, ps, a, r)) (recv_event api ins a r)"
| "accepted_run_op api AcPoll (a, r) =
    (let (e, a) = accepted_poll_event a in Some (case e of None \<Rightarrow> [] | Some ev \<Rightarrow> [ev], [], a, r))"
| "accepted_run_op api (AcSendDatagram io data) (a, r) = map_option (\<lambda>(x, ps, a). ([], ps, a, r)) (accepted_send_datagram api io data a)"
| "accepted_run_op api (AcClose io e reason) (a, r) = map_option (\<lambda>(x, ps, a). ([], ps, a, r)) (accepted_close api io e reason a)"
| "accepted_run_op api (AcWrite s data fin) (a, r) = Some ([], [], snd (accepted_write_stream api s data fin a), r)"
| "accepted_run_op api (AcReset s e) (a, r) = Some ([], [], snd (accepted_reset_stream api s e a), r)"
| "accepted_run_op api (AcResetReliable s e) (a, r) = Some ([], [], snd (accepted_reset_stream_reliable api s e a), r)"
| "accepted_run_op api (AcStopSending s e) (a, r) = Some ([], [], snd (accepted_stop_sending api s e a), r)"
| "accepted_run_op api (AcCloseStream s e) (a, r) = Some ([], [], snd (accepted_close_stream api s e a), r)"
| "accepted_run_op api AcOpenBidi (a, r) = Some ([], [], snd (accepted_open_bidi_stream api a), r)"
| "accepted_run_op api AcOpenUni (a, r) = Some ([], [], snd (accepted_open_uni_stream api a), r)"
| "accepted_run_op api (AcExtend s n) (a, r) = Some ([], [], snd (accepted_extend_max_stream_offset api s n a), r)"
| "accepted_run_op api (AcExtendBidi n) (a, r) = Some ([], [], accepted_extend_max_streams_bidi api n a, r)"
| "accepted_run_op api (AcExtendUni n) (a, r) = Some ([], [], accepted_extend_max_streams_uni api n a, r)"
| "accepted_run_op api (AcKeyUpdate io) (a, r) = Some ([], [], snd (accepted_initiate_key_update api io a), r)"

fun accepted_run :: "('c, 's, 'z) conn_api_scheme \<Rightarrow> 's accepted_op list \<Rightarrow> ('c, 's) accepted_state
    \<Rightarrow> (TokioEvent list \<times> ('c, 's) accepted_state) option" where
  "accepted_run api [] s = Some ([], s)"
| "accepted_run api (op # ops) s =
    (case accepted_run_op api op s of None \<Rightarrow> None
     | Some (evs, ps, s1) \<Rightarrow> map_option (\<lambda>(es, s2). (evs @ es, s2)) (accepted_run api ops s1))"

lemmas accepted_simple_defs = accepted_write_stream_def accepted_reset_stream_def accepted_reset_stream_reliable_def
  accepted_stop_sending_def accepted_close_stream_def accepted_open_bidi_stream_def accepted_open_uni_stream_def
  accepted_extend_max_stream_offset_def accepted_extend_max_streams_bidi_def accepted_extend_max_streams_uni_def
  accepted_initiate_key_update_def forget_pending_def with_conn_def

lemma quiet_accepted_close: "accepted_close api io e reason a = Some (x, ps, a1) \<Longrightarrow> se.quiet (ac_inner a) (ac_inner a1)"
  by (auto simp: accepted_close_def se.quiet_def Let_def case_prod_beta split: if_splits sum.splits)

lemma run_recv_event:
  assumes "recv_event api ins a r = Some (x, ps, a1, r1)"
  shows "server_run api (ac_inner a) (handed x) (ac_inner a1)"
proof -
  obtain y a2 where p: "accepted_poll_event a = (y, a2)" by fastforce
  note s = run_accepted_poll [OF se.run_start p]
  show ?thesis
  proof (cases y)
    case None
    then have s2: "server_run api (ac_inner a) [] (ac_inner a2)" using s by simp
    show ?thesis
      using assms p None run_announce [OF s2 surjective_pairing] run_recv_loop [OF _ s2]
      by (auto simp: recv_event_def Let_def case_prod_beta simp del: handed.simps(1) split: if_splits)
  next
    case (Some ev)
    then show ?thesis using assms p s by (auto simp: recv_event_def)
  qed
qed

lemma run_accepted_op:
  assumes "accepted_run_op api op (a, r) = Some (evs, ps, a1, r1)"
  shows "server_run api (ac_inner a) evs (ac_inner a1)"
proof (cases op)
  case (AcRecv ins)
  then show ?thesis using assms run_recv_event by fastforce
next
  case (AcFlush io)
  then show ?thesis using assms se.run_quiet [OF se.run_start quiet_accepted_flush] by fastforce
next
  case AcPoll
  then show ?thesis using assms run_accepted_poll [OF se.run_start, of a _ a1]
    by (auto simp: Let_def split: prod.splits)
next
  case (AcSendDatagram io data)
  then show ?thesis using assms se.run_quiet [OF se.run_start quiet_send_datagram]
    by (fastforce simp: accepted_send_datagram_def)
next
  case (AcClose io e reason)
  then show ?thesis using assms se.run_quiet [OF se.run_start quiet_accepted_close] by fastforce
qed (use assms in \<open>auto simp: accepted_simple_defs Let_def case_prod_beta split: sum.splits if_splits prod.splits
      intro!: se.run_quiet [OF se.run_start quiet_same]\<close>)

lemma run_accepted:
  "accepted_run api ops (a, r) = Some (evs, a1, r1) \<Longrightarrow> server_run api (ac_inner a) evs (ac_inner a1)"
proof (induction ops arbitrary: a r evs)
  case Nil
  then show ?case by (simp add: se.run_start)
next
  case (Cons op ops)
  then obtain e1 ps a2 r2 e2 where o: "accepted_run_op api op (a, r) = Some (e1, ps, a2, r2)"
    and rest: "accepted_run api ops (a2, r2) = Some (e2, a1, r1)" and e: "evs = e1 @ e2"
    by (auto split: option.splits)
  show ?case unfolding e by (rule se.run_append [OF Cons.IH [OF rest] run_accepted_op [OF o]])
qed

section \<open>Properties\<close>


definition draining_api :: "(unit, unit) conn_api" where
  "draining_api = sample_conn_api\<lparr>conn_in_draining_period := (\<lambda>_. True)\<rparr>"

definition sample_server_conn :: "(unit, unit) ServerConnection" where
  "sample_server_conn = \<lparr>sc_conn = sample_conn, sc_remote_addr = SockV4 3 4, sc_pending = pending_new, sc_events = [],
     sc_address_validated = False, sc_new_token_secret = None, sc_new_token_submitted = False,
     sc_early_data_received = False, sc_closed = False, sc_send_buf = [], sc_datagram = datagram_default,
     sc_qlog = qlog_disabled\<rparr>"

definition sample_accepted :: "(unit, unit) AcceptedConnection" where
  "sample_accepted = \<lparr>ac_local_addr = SockV4 1 2, ac_connection_id = ConnectionId [5], ac_inner = sample_server_conn, ac_inbound = 0\<rparr>"

lemma draining_run: "\<exists>a1 r1. accepted_run draining_api [AcRecv [], AcRecv []] (sample_accepted, routes_new (\<lambda>_. undefined))
    = Some ([EvConnectionClosed 0 [] Terminal], a1, r1)"
  by (simp add: recv_event_def accepted_poll_event_def poll_server_event_def pop_event_def sample_accepted_def
      sample_server_conn_def accepted_is_closed_def is_in_draining_period_def draining_api_def announce_def
      push_connection_closed_def closed_event_def closed_kind_def get_connection_error_def sample_conn_api_simps Let_def)


end
