(* ===== verification/Server.thy ===== *)
theory Server
  imports ServerConn Limiter
begin

unbundle bit_operations_syntax

text \<open>
  The server (\<^verbatim>\<open>ServerConfig\<close> and \<^verbatim>\<open>Server\<close> in \<^verbatim>\<open>src/tokio-ngtcp2/src/server.rs\<close>): its configuration, its tables of
  connections and routes, and its handlers for datagrams and timers. Handlers take the world of the
  call (\<open>io\<close>) and return the server afterwards; \<open>sv_sent\<close> records every packet handed to the sockets and
  \<open>sv_heap\<close> the live C connections. The draws of random bytes in a handler are numbered in the order
  of the code. Log output has no model.
\<close>

section \<open>Configuration\<close>

definition DEFAULT_RETRY_TOKEN_TIMEOUT :: nat where "DEFAULT_RETRY_TOKEN_TIMEOUT = 10 * 10 ^ 9"
definition DEFAULT_SCID_LEN :: nat where "DEFAULT_SCID_LEN = 16"
definition INTERNAL_KEY_LEN :: nat where "INTERNAL_KEY_LEN = 16"
definition SEND_BUFFER_SIZE :: nat where "SEND_BUFFER_SIZE = 65535"
definition MAX_CONNECTIONS :: nat where "MAX_CONNECTIONS = 1024"

definition generate_scid :: "(nat \<Rightarrow> bytes option) \<Rightarrow> nat \<Rightarrow> cid option" where
  "generate_scid rnd scid_len = (if scid_len = 0 then Some cid_empty else cid_random rnd scid_len)"

record ServerConfig =
  cf_alpn_protocols :: "bytes list"
  cf_transport_params :: TransportParams
  cf_datagram :: DatagramConfig
  cf_scid_len :: nat
  cf_quic_versions :: "QuicVersion list"
  cf_settings :: Settings
  cf_retry_secret :: "RetrySecret option"
  cf_retry_token_timeout :: nat
  cf_stateless_reset_secret :: "StatelessResetSecret option"
  cf_qlog_dir :: "string option"
  cf_preferred_address :: "SocketAddr option"
  cf_new_token :: bool
  cf_early_data :: bool

definition server_config_new :: "raw_transport_params \<Rightarrow> raw_settings \<Rightarrow> bytes list \<Rightarrow> ServerConfig" where
  "server_config_new dflt_params dflt_settings alpn =
    \<lparr>cf_alpn_protocols = alpn, cf_transport_params = transport_params_new dflt_params,
     cf_datagram = datagram_default, cf_scid_len = DEFAULT_SCID_LEN, cf_quic_versions = [V1, V2],
     cf_settings = settings_new dflt_settings 0, cf_retry_secret = None,
     cf_retry_token_timeout = DEFAULT_RETRY_TOKEN_TIMEOUT, cf_stateless_reset_secret = None,
     cf_qlog_dir = None, cf_preferred_address = None, cf_new_token = False, cf_early_data = False\<rparr>"

definition config_with_early_data :: "bool \<Rightarrow> ServerConfig \<Rightarrow> ServerConfig" where
  "config_with_early_data b cf = cf\<lparr>cf_early_data := b\<rparr>"

definition config_with_retry :: "RetrySecret \<Rightarrow> ServerConfig \<Rightarrow> ServerConfig" where
  "config_with_retry secret cf = cf\<lparr>cf_retry_secret := Some secret\<rparr>"

definition config_with_preferred_versions :: "QuicVersion list \<Rightarrow> ServerConfig \<Rightarrow> ServerConfig" where
  "config_with_preferred_versions versions cf =
    cf\<lparr>cf_settings := (cf_settings cf)\<lparr>s_preferred_versions := versions, s_available_versions := versions\<rparr>\<rparr>"

definition config_with_preferred_address :: "SocketAddr \<Rightarrow> ServerConfig \<Rightarrow> ServerConfig" where
  "config_with_preferred_address addr cf = cf\<lparr>cf_preferred_address := Some addr\<rparr>"

definition config_with_qlog_dir :: "string \<Rightarrow> ServerConfig \<Rightarrow> ServerConfig" where
  "config_with_qlog_dir dir cf = cf\<lparr>cf_qlog_dir := Some dir\<rparr>"

definition config_with_new_token :: "bool \<Rightarrow> ServerConfig \<Rightarrow> ServerConfig" where
  "config_with_new_token b cf = cf\<lparr>cf_new_token := b\<rparr>"

definition config_with_retry_token_timeout :: "nat \<Rightarrow> ServerConfig \<Rightarrow> ServerConfig" where
  "config_with_retry_token_timeout timeout cf = cf\<lparr>cf_retry_token_timeout := timeout\<rparr>"

definition config_with_stateless_reset_secret :: "StatelessResetSecret \<Rightarrow> ServerConfig \<Rightarrow> ServerConfig" where
  "config_with_stateless_reset_secret secret cf = cf\<lparr>cf_stateless_reset_secret := Some secret\<rparr>"

definition config_with_settings :: "Settings \<Rightarrow> ServerConfig \<Rightarrow> ServerConfig" where
  "config_with_settings settings cf = cf\<lparr>cf_settings := settings\<rparr>"

definition config_with_quic_versions :: "QuicVersion list \<Rightarrow> ServerConfig \<Rightarrow> ServerConfig" where
  "config_with_quic_versions versions cf = cf\<lparr>cf_quic_versions := versions\<rparr>"

definition config_with_transport_params :: "TransportParams \<Rightarrow> ServerConfig \<Rightarrow> ServerConfig" where
  "config_with_transport_params params cf = cf\<lparr>cf_transport_params := params\<rparr>"

definition config_with_datagram :: "DatagramConfig \<Rightarrow> ServerConfig \<Rightarrow> ServerConfig" where
  "config_with_datagram d cf = cf\<lparr>cf_datagram := d\<rparr>"

definition config_with_scid_len :: "nat \<Rightarrow> ServerConfig \<Rightarrow> ServerConfig" where
  "config_with_scid_len n cf = cf\<lparr>cf_scid_len := n\<rparr>"

definition effective_transport_params :: "ServerConfig \<Rightarrow> TransportParams" where
  "effective_transport_params cf =
    (if datagram_is_enabled (cf_datagram cf)
     then with_datagram (dg_max_datagram_frame_size (cf_datagram cf)) (cf_transport_params cf)
     else with_datagram 0 (cf_transport_params cf))"

section \<open>First look at a packet\<close>

definition version_negotiation_info :: "('a stateless_api_scheme) \<Rightarrow> bytes \<Rightarrow> QuicVersion list \<Rightarrow> PacketVersion option" where
  "version_negotiation_info api data supported_versions =
    (case decode_packet_version api data of
       None \<Rightarrow> None
     | Some info \<Rightarrow>
       if (case from_u32 (pv_version info) of None \<Rightarrow> False | Some v \<Rightarrow> v \<in> set supported_versions)
       then None else Some info)"

definition accept_initial_packet :: "('a stateless_api_scheme) \<Rightarrow> bytes \<Rightarrow> QuicVersion list
    \<Rightarrow> (QuicVersion \<times> AcceptedInitial) option" where
  "accept_initial_packet api data supported_versions =
    (case accept_initial api data of
       None \<Rightarrow> None
     | Some ai \<Rightarrow>
       (case from_u32 (ai_version ai) of
          None \<Rightarrow> None
        | Some version \<Rightarrow> if version \<notin> set supported_versions then None else Some (version, ai)))"

section \<open>State\<close>

record ('c, 's) Server =
  sv_config :: ServerConfig
  sv_local_addr :: SocketAddr
  sv_preferred_addr :: "SocketAddr option"
  sv_tls_ctx :: TlsContext
  sv_connections :: "(cid, ('c, 's) ServerConnection) hmap"
  sv_cid_map :: "(cid, cid) hmap"
  sv_short_cid_lengths :: "nat list"
  sv_addr_map :: "(SocketAddr, cid) hmap"
  sv_stateless_reset_secret :: "StatelessResetSecret option"
  sv_retry_secret :: RetrySecret
  sv_limiter :: StatelessResetLimiter
  sv_taken :: taken
  sv_routes :: SharedRoutes
  sv_send_buf :: bytes
  sv_next_chan :: nat
  sv_sent :: "OutgoingPacket list"
  sv_heap :: conn_heap

text \<open>\<open>sockets\<close> is the outcome of \<^verbatim>\<open>ServerSockets::bind\<close>: an error, or the addresses that were bound. A TLS
  context that is not used for a server is dropped.\<close>

definition server_bind :: "'s io \<Rightarrow> ctx_calls \<Rightarrow> string \<Rightarrow> string \<Rightarrow> string + (SocketAddr \<times> SocketAddr option)
    \<Rightarrow> ServerConfig \<Rightarrow> (nat \<Rightarrow> channel) \<Rightarrow> conn_heap \<Rightarrow> tls_heap \<Rightarrow> ('c, 's) Server result \<times> tls_heap" where
  "server_bind io calls cert_path key_path sockets cf chans heap h =
    (if cf_quic_versions cf = [] then (Err (InvalidArgument ''quic_versions must not be empty''), h)
     else case new_server calls cert_path key_path (cf_alpn_protocols cf) h of
       (Inl e, h) \<Rightarrow> (Err e, h)
     | (Inr ctx, h) \<Rightarrow>
       (case (if cf_early_data cf then set_accept_early_data True ctx else (Ok (), ctx)) of
          (Inl e, ctx) \<Rightarrow> (Err e, tls_context_drop ctx h)
        | (Inr _, ctx) \<Rightarrow>
          (case sockets of
             Inl msg \<Rightarrow> (Err (InternalErr (''failed to bind socket: '' @ msg)), tls_context_drop ctx h)
           | Inr (local_addr, preferred) \<Rightarrow>
             (let lengths = (if cf_scid_len cf > 0 then [cf_scid_len cf] else []);
                  reset_secret = (case cf_stateless_reset_secret cf of Some secret \<Rightarrow> Some secret
                     | None \<Rightarrow> reset_secret_generate (io_rnd io 0))
              in case (case cf_retry_secret cf of Some secret \<Rightarrow> Some secret
                       | None \<Rightarrow> retry_secret_generate (io_rnd io 1)) of
                   None \<Rightarrow> (Err (InternalErr ''failed to generate retry secret''), tls_context_drop ctx h)
                 | Some retry_secret \<Rightarrow>
                   (Ok \<lparr>sv_config = cf, sv_local_addr = local_addr, sv_preferred_addr = preferred, sv_tls_ctx = ctx,
                        sv_connections = [], sv_cid_map = [], sv_short_cid_lengths = lengths, sv_addr_map = [],
                        sv_stateless_reset_secret = reset_secret, sv_retry_secret = retry_secret,
                        sv_limiter = limiter_new, sv_taken = ({}, []), sv_routes = routes_new chans,
                        sv_send_buf = replicate SEND_BUFFER_SIZE 0, sv_next_chan = 0, sv_sent = [], sv_heap = heap\<rparr>, h)))))"

definition server_local_addr :: "('c, 's) Server \<Rightarrow> SocketAddr" where
  "server_local_addr s = sv_local_addr s"

definition server_preferred_addr :: "('c, 's) Server \<Rightarrow> SocketAddr option" where
  "server_preferred_addr s = sv_preferred_addr s"

definition connection_ids :: "('c, 's) Server \<Rightarrow> cid list" where
  "connection_ids s = map fst (sv_connections s)"

definition send_packets :: "OutgoingPacket list \<Rightarrow> ('c, 's) Server \<Rightarrow> ('c, 's) Server" where
  "send_packets ps s = s\<lparr>sv_sent := sv_sent s @ ps\<rparr>"

abbreviation (input) outgoing :: "bytes \<Rightarrow> SocketAddr \<Rightarrow> SocketAddr \<Rightarrow> OutgoingPacket" where
  "outgoing data l r \<equiv> \<lparr>op_data = data, op_local = l, op_remote = r, op_ecn = 0\<rparr>"

section \<open>Tables\<close>

text \<open>Inserting a connection under a key that is in use, and removing one, drops the old connection.\<close>

definition drop_connection :: "cid \<Rightarrow> ('c, 's) Server \<Rightarrow> ('c, 's) Server" where
  "drop_connection key s =
    (case map_of (sv_connections s) key of None \<Rightarrow> s
     | Some sc \<Rightarrow> s\<lparr>sv_heap := conn_drop (sc_conn sc) (sv_heap s)\<rparr>)"

definition insert_connection :: "cid \<Rightarrow> ('c, 's) ServerConnection \<Rightarrow> ('c, 's) Server \<Rightarrow> ('c, 's) Server" where
  "insert_connection key sc s =
    (let s = drop_connection key s in s\<lparr>sv_connections := AList.update key sc (sv_connections s)\<rparr>)"

definition put_connection :: "cid \<Rightarrow> ('c, 's) ServerConnection \<Rightarrow> ('c, 's) Server \<Rightarrow> ('c, 's) Server" where
  "put_connection key sc s = s\<lparr>sv_connections := AList.update key sc (sv_connections s)\<rparr>"

definition remove_connection :: "cid \<Rightarrow> ('c, 's) Server \<Rightarrow> ('c, 's) Server" where
  "remove_connection key s =
    (let s = drop_connection key s
     in s\<lparr>sv_connections := AList.delete key (sv_connections s),
          sv_cid_map := retain_other key (sv_cid_map s), sv_addr_map := retain_other key (sv_addr_map s)\<rparr>)"

definition remember_taken_cid :: "cid \<Rightarrow> ('c, 's) Server \<Rightarrow> ('c, 's) Server" where
  "remember_taken_cid c s = s\<lparr>sv_taken := remember_cid c (sv_taken s)\<rparr>"

definition is_taken_cid :: "cid \<Rightarrow> ('c, 's) Server \<Rightarrow> bool" where
  "is_taken_cid c s = (c \<in> fst (sv_taken s) \<or> routes_is_taken_cid c (sv_routes s))"

definition register_cid :: "cid \<Rightarrow> cid \<Rightarrow> ('c, 's) Server \<Rightarrow> ('c, 's) Server" where
  "register_cid key c s =
    s\<lparr>sv_short_cid_lengths := length_insert (cid_len c) (sv_short_cid_lengths s),
      sv_cid_map := AList.update c key (sv_cid_map s)\<rparr>"

definition remove_retired_cids :: "cid list \<Rightarrow> cid \<Rightarrow> ('c, 's) Server \<Rightarrow> ('c, 's) Server" where
  "remove_retired_cids cids key s =
    fold (\<lambda>c s. remember_taken_cid c
            (if map_of (sv_cid_map s) c = Some key then s\<lparr>sv_cid_map := AList.delete c (sv_cid_map s)\<rparr> else s)) cids s"

text \<open>\<^verbatim>\<open>register_issued_cids\<close> for a connection that stays in the table: the IDs are taken from it and routed.\<close>

definition register_issued_cids :: "cid \<Rightarrow> ('c, 's) ServerConnection \<Rightarrow> ('c, 's) Server
    \<Rightarrow> ('c, 's) ServerConnection \<times> ('c, 's) Server" where
  "register_issued_cids key sc s =
    (let (issued, c) = poll_issued_cids (sc_conn sc) in (sc\<lparr>sc_conn := c\<rparr>, fold (register_cid key) issued s))"

definition remove_closed_connections :: "('c, 's, 'z) conn_api_scheme \<Rightarrow> ('c, 's) Server \<Rightarrow> ('c, 's) Server" where
  "remove_closed_connections api s =
    (let closed = map fst (filter (\<lambda>(_, sc). is_in_closing_period api (sc_conn sc) \<or> is_in_draining_period api (sc_conn sc))
           (sv_connections s))
     in fold remove_connection closed s)"

section \<open>Replies without state\<close>

definition send_retry :: "('c, 's, 'z) conn_api_scheme \<Rightarrow> 's io \<Rightarrow> AcceptedInitial \<Rightarrow> QuicVersion \<Rightarrow> RetrySecret
    \<Rightarrow> SocketAddr \<Rightarrow> SocketAddr \<Rightarrow> u64 \<Rightarrow> ('c, 's) Server \<Rightarrow> ('c, 's) Server" where
  "send_retry api io ai version secret to l ts s =
    (case generate_scid (io_rnd io 3) (max (cf_scid_len (sv_config s)) 8) of
       None \<Rightarrow> s
     | Some retry_scid \<Rightarrow>
       (case generate_retry_token api secret version to retry_scid (ai_dcid ai) ts of
          Inl e \<Rightarrow> s
        | Inr token \<Rightarrow>
          (let (r, buf) = write_retry_packet api (sv_send_buf s) version (ai_scid ai) retry_scid (ai_dcid ai) (avt_bytes token);
               s = s\<lparr>sv_send_buf := buf\<rparr>
           in case r of Inl e \<Rightarrow> s
              | Inr written \<Rightarrow> if written > 0 then send_packets [outgoing (take written buf) l to] s else s)))"

definition invalid_token_reason :: bytes where
  "invalid_token_reason = map of_char ''invalid address validation token''"

definition send_invalid_token_close :: "('c, 's, 'z) conn_api_scheme \<Rightarrow> 's io \<Rightarrow> AcceptedInitial \<Rightarrow> QuicVersion
    \<Rightarrow> SocketAddr \<Rightarrow> SocketAddr \<Rightarrow> ('c, 's) Server \<Rightarrow> ('c, 's) Server" where
  "send_invalid_token_close api io ai version to l s =
    (case generate_scid (io_rnd io 4) (cf_scid_len (sv_config s)) of
       None \<Rightarrow> s
     | Some server_scid \<Rightarrow>
       (let (r, buf) = write_stateless_connection_close api (sv_send_buf s) version (ai_scid ai) server_scid
              TRANSPORT_ERROR_INVALID_TOKEN invalid_token_reason;
            s = s\<lparr>sv_send_buf := buf\<rparr>
        in case r of Inl e \<Rightarrow> s
           | Inr written \<Rightarrow> if written > 0 then send_packets [outgoing (take written buf) l to] s else s))"

definition send_version_negotiation :: "('c, 's, 'z) conn_api_scheme \<Rightarrow> 's io \<Rightarrow> PacketVersion \<Rightarrow> SocketAddr
    \<Rightarrow> SocketAddr \<Rightarrow> ('c, 's) Server \<Rightarrow> ('c, 's) Server" where
  "send_version_negotiation api io info to l s =
    (let (r, buf) = write_version_negotiation api (io_rnd io 5) (sv_send_buf s) (pv_scid info) (pv_dcid info)
           (cf_quic_versions (sv_config s));
         s = s\<lparr>sv_send_buf := buf\<rparr>
     in case r of Inl e \<Rightarrow> s
        | Inr written \<Rightarrow> if written > 0 then send_packets [outgoing (take written buf) l to] s else s)"

text \<open>The loop over the lengths of issued IDs, longest first; the first candidate ID that is not skipped
  ends it.\<close>

fun reset_loop :: "('c, 's, 'z) conn_api_scheme \<Rightarrow> 's io \<Rightarrow> StatelessResetSecret \<Rightarrow> bytes \<Rightarrow> SocketAddr \<Rightarrow> SocketAddr
    \<Rightarrow> nat list \<Rightarrow> ('c, 's) Server \<Rightarrow> ('c, 's) Server" where
  "reset_loop api io secret data to l [] s = s"
| "reset_loop api io secret data to l (n # ns) s =
    (if length data < 1 + n then reset_loop api io secret data to l ns s
     else case cid_new (take n (drop 1 data)) of
       None \<Rightarrow> reset_loop api io secret data to l ns s
     | Some dcid \<Rightarrow>
       if is_taken_cid dcid s then s
       else (case reset_token api secret dcid of
          None \<Rightarrow> reset_loop api io secret data to l ns s
        | Some token \<Rightarrow>
          (let (r, buf) = write_stateless_reset api (io_rnd io 6) (sv_send_buf s) token (length data);
               s = s\<lparr>sv_send_buf := buf\<rparr>
           in case r of Inl e \<Rightarrow> s
              | Inr written \<Rightarrow> if written > 0 then send_packets [outgoing (take written buf) l to] s else s)))"

definition send_stateless_reset :: "('c, 's, 'z) conn_api_scheme \<Rightarrow> 's io \<Rightarrow> bytes \<Rightarrow> SocketAddr \<Rightarrow> SocketAddr \<Rightarrow> u64
    \<Rightarrow> ('c, 's) Server \<Rightarrow> ('c, 's) Server" where
  "send_stateless_reset api io data to l ts s =
    (let (ok, lim) = try_acquire (unat ts) (sv_limiter s); s = s\<lparr>sv_limiter := lim\<rparr>
     in if \<not> ok then s
        else case sv_stateless_reset_secret s of
          None \<Rightarrow> s
        | Some secret \<Rightarrow> reset_loop api io secret data to l (rev (sv_short_cid_lengths s)) s)"

section \<open>Existing connections\<close>

definition handle_conn_error :: "('c, 's, 'z) conn_api_scheme \<Rightarrow> 's io \<Rightarrow> cid \<Rightarrow> Error \<Rightarrow> SocketAddr \<Rightarrow> SocketAddr
    \<Rightarrow> ('c, 's) Server \<Rightarrow> ('c, 's) Server option" where
  "handle_conn_error api io key err from l s =
    (let kind = classify_connection_error err in
     if kind = Ignore \<or> kind = Terminal then Some s
     else if kind = SilentDrop \<or> kind = Internal then Some (remove_connection key s)
     else case map_of (sv_connections s) key of
       None \<Rightarrow> Some s
     | Some sc \<Rightarrow>
       (let (r, buf, c) =
              (if kind = ApplicationClose then write_connection_close_app api (sv_send_buf s) 0 [] (io_now io) (sc_conn sc)
               else conn_write_close api (sv_send_buf s)
                      (case err of Ngtcp2 _ code \<Rightarrow> io_infer_error io code | _ \<Rightarrow> 0) [] (io_now io) (sc_conn sc));
            s = put_connection key (sc\<lparr>sc_conn := c\<rparr>) (s\<lparr>sv_send_buf := buf\<rparr>)
        in Option.bind (case r of Inr written \<Rightarrow> if written > 0 then close_packets (take written buf) l from 0 else Some []
                        | Inl _ \<Rightarrow> Some [])
             (\<lambda>packets. Some (if packets = [] then remove_connection key s else send_packets packets s))))"

definition handle_existing_connection :: "('c, 's, 'z) conn_api_scheme \<Rightarrow> 's io \<Rightarrow> cid \<Rightarrow> bytes \<Rightarrow> SocketAddr \<Rightarrow> SocketAddr
    \<Rightarrow> u64 \<Rightarrow> byte \<Rightarrow> ('c, 's) Server \<Rightarrow> ('c, 's) Server option" where
  "handle_existing_connection api io key data from l ts ecn s =
    (case map_of (sv_connections s) key of
       None \<Rightarrow> Some s
     | Some sc \<Rightarrow>
       (let (result, sc) = read_packet api io l from data ts ecn sc in
        case flush_to_packets api io ts sc of
          None \<Rightarrow> None
        | Some (pr, sc) \<Rightarrow>
          (let packets = (case pr of Inl _ \<Rightarrow> [] | Inr ps \<Rightarrow> ps);
               (issued, c) = poll_issued_cids (sc_conn sc);
               (retired, c) = poll_retired_cids c;
               s = put_connection key (sc\<lparr>sc_conn := c\<rparr>) s;
               s = fold (register_cid key) issued s;
               s = remove_retired_cids retired key s;
               s = send_packets packets s
           in case result of Inr _ \<Rightarrow> Some s | Inl e \<Rightarrow> handle_conn_error api io key e from l s)))"

definition handoff_to_accepted :: "bytes \<Rightarrow> SocketAddr \<Rightarrow> SocketAddr \<Rightarrow> byte \<Rightarrow> ('c, 's) Server \<Rightarrow> bool \<times> ('c, 's) Server" where
  "handoff_to_accepted data from l ecn s =
    (case routes_resolve (sv_routes s) data from of
       None \<Rightarrow> (False, s)
     | Some key \<Rightarrow>
       (let (delivered, r) = routes_deliver key
              \<lparr>in_data = data, in_from = from, in_local_addr = l, in_ecn = ecn\<rparr> (sv_routes s)
        in (True, s\<lparr>sv_routes := if delivered then r else routes_remove key r\<rparr>)))"

section \<open>New connections\<close>

text \<open>Address validation: answer with Retry, reject the token, or go on with the original destination ID,
  the valid token and whether a Retry preceded.\<close>

datatype token_check =
    TokRetry RetrySecret
  | TokInvalid
  | TokOk cid "AddressValidationToken option" bool

definition effective_retry_secret :: "('c, 's) Server \<Rightarrow> RetrySecret" where
  "effective_retry_secret s = (case cf_retry_secret (sv_config s) of Some secret \<Rightarrow> secret | None \<Rightarrow> sv_retry_secret s)"

definition check_token :: "('c, 's, 'z) conn_api_scheme \<Rightarrow> AcceptedInitial \<Rightarrow> QuicVersion \<Rightarrow> SocketAddr \<Rightarrow> u64
    \<Rightarrow> ('c, 's) Server \<Rightarrow> token_check" where
  "check_token api ai version from ts s =
    (case token_from_packet (ai_token ai) of
       None \<Rightarrow>
         (case cf_retry_secret (sv_config s) of
            Some secret \<Rightarrow> TokRetry secret
          | None \<Rightarrow> TokOk (ai_dcid ai) None False)
     | Some token \<Rightarrow>
         (case avt_kind token of
            RetryToken \<Rightarrow>
              (case verify_retry_token api (effective_retry_secret s) (avt_bytes token) version from (ai_dcid ai)
                      (cf_retry_token_timeout (sv_config s)) ts of
                 Inl e \<Rightarrow> TokInvalid | Inr odcid \<Rightarrow> TokOk odcid (Some token) True)
          | NewToken \<Rightarrow>
              (case verify_new_token api (effective_retry_secret s) (avt_bytes token) from
                      (cf_retry_token_timeout (sv_config s)) ts of
                 Inl e \<Rightarrow> TokInvalid | Inr _ \<Rightarrow> TokOk (ai_dcid ai) (Some token) False)))"

text \<open>The transport parameters, and the connection ID that goes with the preferred address.\<close>

definition new_params :: "('c, 's, 'z) conn_api_scheme \<Rightarrow> 's io \<Rightarrow> cid \<Rightarrow> cid \<Rightarrow> bool \<Rightarrow> ('c, 's) Server
    \<Rightarrow> TransportParams \<times> cid option" where
  "new_params api io original_dcid server_scid retried s =
    (let params = with_original_dcid original_dcid (effective_transport_params (sv_config s));
         params = (if retried then with_retry_scid server_scid params else params)
     in if cid_is_empty server_scid then (params, None)
        else case sv_stateless_reset_secret s of
          None \<Rightarrow> (params, None)
        | Some secret \<Rightarrow>
          (let params = (case reset_token api secret server_scid of None \<Rightarrow> params
                 | Some token \<Rightarrow> with_stateless_reset_token token params)
           in case sv_preferred_addr s of
             None \<Rightarrow> (params, None)
           | Some addr \<Rightarrow>
             (case cid_random (io_rnd io 2) (cf_scid_len (sv_config s)) of
                None \<Rightarrow> (params, None)
              | Some c \<Rightarrow>
                (case reset_token api secret c of
                   None \<Rightarrow> (params, None)
                 | Some token \<Rightarrow> (with_preferred_address c addr token params, Some c)))))"

definition new_settings :: "u64 \<Rightarrow> AddressValidationToken option \<Rightarrow> ('c, 's) Server \<Rightarrow> Settings" where
  "new_settings ts token s = (cf_settings (sv_config s))\<lparr>s_initial_ts := ts,
     s_qlog := (cf_qlog_dir (sv_config s) \<noteq> None), s_address_validation_token := token,
     s_stateless_reset_secret := sv_stateless_reset_secret s\<rparr>"

definition new_server_connection :: "'s io \<Rightarrow> ('c, 's) Connection \<Rightarrow> cid \<Rightarrow> SocketAddr \<Rightarrow> bool \<Rightarrow> ('c, 's) Server
    \<Rightarrow> ('c, 's) ServerConnection" where
  "new_server_connection io c server_scid from validated s =
    \<lparr>sc_conn = c, sc_remote_addr = from, sc_pending = pending_new, sc_events = [],
     sc_address_validated = validated,
     sc_new_token_secret = (if cf_new_token (sv_config s) then Some (effective_retry_secret s) else None),
     sc_new_token_submitted = False, sc_early_data_received = False, sc_closed = False,
     sc_send_buf = replicate SEND_BUFFER_SIZE 0, sc_datagram = cf_datagram (sv_config s),
     sc_qlog = (case cf_qlog_dir (sv_config s) of None \<Rightarrow> qlog_disabled
        | Some dir \<Rightarrow> qlog_new (io_fs io) dir (file_name ''server-'' server_scid))\<rparr>"

definition register_routes :: "cid \<Rightarrow> cid \<Rightarrow> cid \<Rightarrow> bool \<Rightarrow> cid option \<Rightarrow> SocketAddr \<Rightarrow> ('c, 's) Server \<Rightarrow> ('c, 's) Server" where
  "register_routes server_scid conn_key original_dcid retried preferred_cid from s =
    (let s = (if cid_is_empty server_scid then s
              else s\<lparr>sv_short_cid_lengths := length_insert (cid_len server_scid) (sv_short_cid_lengths s)\<rparr>);
         s = (if server_scid \<noteq> conn_key then s\<lparr>sv_addr_map := AList.update from conn_key (sv_addr_map s)\<rparr>
              else s\<lparr>sv_cid_map := AList.update server_scid conn_key (sv_cid_map s)\<rparr>);
         s = (if retried then s\<lparr>sv_cid_map := AList.delete original_dcid (sv_cid_map s)\<rparr> else s);
         s = s\<lparr>sv_cid_map := AList.update original_dcid conn_key (sv_cid_map s)\<rparr>
     in case preferred_cid of None \<Rightarrow> s | Some c \<Rightarrow> register_cid conn_key c s)"

text \<open>The server's connection ID and the key of the connection; drawing either may fail.\<close>

definition new_ids :: "'s io \<Rightarrow> AcceptedInitial \<Rightarrow> bool \<Rightarrow> ('c, 's) Server \<Rightarrow> (cid \<times> cid) option" where
  "new_ids io ai retried s =
    (case (if retried then Some (ai_dcid ai) else generate_scid (io_rnd io 0) (cf_scid_len (sv_config s))) of
       None \<Rightarrow> None
     | Some server_scid \<Rightarrow>
       if cid_is_empty server_scid
       then map_option (\<lambda>key. (server_scid, key)) (cid_random (io_rnd io 1) INTERNAL_KEY_LEN)
       else Some (server_scid, server_scid))"

text \<open>From the first packet of the new connection to its entry in the tables.\<close>

definition establish :: "('c, 's, 'z) conn_api_scheme \<Rightarrow> 's io \<Rightarrow> AcceptedInitial \<Rightarrow> QuicVersion \<Rightarrow> cid \<Rightarrow> cid \<Rightarrow> cid \<Rightarrow> bool
    \<Rightarrow> cid option \<Rightarrow> bytes \<Rightarrow> SocketAddr \<Rightarrow> SocketAddr \<Rightarrow> u64 \<Rightarrow> byte \<Rightarrow> ('c, 's) ServerConnection
    \<Rightarrow> ('c, 's) Server \<Rightarrow> ('c, 's) Server option" where
  "establish api io ai version server_scid conn_key original_dcid retried preferred_cid data from l ts ecn sc s =
    (let (result, sc) = read_packet api io l from data ts ecn sc;
         dropped = s\<lparr>sv_heap := conn_drop (sc_conn sc) (sv_heap s)\<rparr>;
         go_on =
           (let s = register_routes server_scid conn_key original_dcid retried preferred_cid from s in
            case flush_to_packets api io ts sc of
              None \<Rightarrow> None
            | Some (pr, sc) \<Rightarrow>
              (let packets = (case pr of Inl _ \<Rightarrow> [] | Inr ps \<Rightarrow> ps);
                   s = insert_connection conn_key sc s;
                   (sc, s) = register_issued_cids conn_key sc s;
                   s = put_connection conn_key sc s;
                   s = send_packets packets s
               in case result of Inr _ \<Rightarrow> Some s | Inl e \<Rightarrow> handle_conn_error api io conn_key e from l s))
     in case result of
          Inr _ \<Rightarrow> go_on
        | Inl e \<Rightarrow>
          if is_retry_required e
          then Some (send_retry api io ai version (effective_retry_secret s) from l ts dropped)
          else if classify_connection_error e = Ignore then go_on else Some dropped)"

definition start_connection :: "('c, 's, 'z) conn_api_scheme \<Rightarrow> 's io \<Rightarrow> AcceptedInitial \<Rightarrow> QuicVersion \<Rightarrow> cid
    \<Rightarrow> AddressValidationToken option \<Rightarrow> bool \<Rightarrow> cid \<Rightarrow> cid \<Rightarrow> bytes \<Rightarrow> SocketAddr \<Rightarrow> SocketAddr \<Rightarrow> u64 \<Rightarrow> byte
    \<Rightarrow> ('c, 's) Server \<Rightarrow> ('c, 's) Server option" where
  "start_connection api io ai version original_dcid token retried server_scid conn_key data from l ts ecn s =
    (case create_session (io_new_ssl io) 1 (sv_tls_ctx s) of
       Inl e \<Rightarrow> Some s
     | Inr t \<Rightarrow>
       (let (params, preferred_cid) = new_params api io original_dcid server_scid retried s in
        case server_new api (io_ssl io) empty_mem (ai_scid ai) server_scid l from version t params
               (new_settings ts token s) (sv_heap s) of
          (Inl e, h) \<Rightarrow> Some (s\<lparr>sv_heap := h\<rparr>)
        | (Inr c, h) \<Rightarrow>
          establish api io ai version server_scid conn_key original_dcid retried preferred_cid data from l ts ecn
            (new_server_connection io c server_scid from (token \<noteq> None) s) (s\<lparr>sv_heap := h\<rparr>)))"

definition create_connection :: "('c, 's, 'z) conn_api_scheme \<Rightarrow> 's io \<Rightarrow> AcceptedInitial \<Rightarrow> QuicVersion \<Rightarrow> cid
    \<Rightarrow> AddressValidationToken option \<Rightarrow> bool \<Rightarrow> bytes \<Rightarrow> SocketAddr \<Rightarrow> SocketAddr \<Rightarrow> u64 \<Rightarrow> byte
    \<Rightarrow> ('c, 's) Server \<Rightarrow> ('c, 's) Server option" where
  "create_connection api io ai version original_dcid token retried data from l ts ecn s =
    (if length (sv_connections s) \<ge> MAX_CONNECTIONS then Some s
     else if token = None \<and> map_of (sv_cid_map s) original_dcid \<noteq> None then Some s
     else case new_ids io ai retried s of
       None \<Rightarrow> Some s
     | Some (server_scid, conn_key) \<Rightarrow>
       start_connection api io ai version original_dcid token retried server_scid conn_key data from l ts ecn s)"

definition handle_new_connection :: "('c, 's, 'z) conn_api_scheme \<Rightarrow> 's io \<Rightarrow> bytes \<Rightarrow> SocketAddr \<Rightarrow> SocketAddr \<Rightarrow> u64
    \<Rightarrow> byte \<Rightarrow> ('c, 's) Server \<Rightarrow> ('c, 's) Server option" where
  "handle_new_connection api io data from l ts ecn s =
    (case version_negotiation_info api data (cf_quic_versions (sv_config s)) of
       Some info \<Rightarrow> Some (send_version_negotiation api io info from l s)
     | None \<Rightarrow>
       (case accept_initial_packet api data (cf_quic_versions (sv_config s)) of
          None \<Rightarrow> Some s
        | Some (version, ai) \<Rightarrow>
          (case check_token api ai version from ts s of
             TokRetry secret \<Rightarrow> Some (send_retry api io ai version secret from l ts s)
           | TokInvalid \<Rightarrow> Some (send_invalid_token_close api io ai version from l s)
           | TokOk original_dcid token retried \<Rightarrow>
             create_connection api io ai version original_dcid token retried data from l ts ecn s)))"

section \<open>Datagrams, timers and accepting\<close>

definition resolve_datagram :: "bytes \<Rightarrow> SocketAddr \<Rightarrow> ('c, 's) Server \<Rightarrow> cid option" where
  "resolve_datagram data from s =
    (case resolve_dcid (sv_cid_map s) (sv_short_cid_lengths s) data of
       Some key \<Rightarrow> Some key
     | None \<Rightarrow>
       (let is_long_header = (case data of [] \<Rightarrow> False | first # _ \<Rightarrow> first AND 0x80 \<noteq> 0);
            zero_dcid = (5 < length data \<and> data ! 5 = 0)
        in if \<not> is_long_header \<or> zero_dcid then map_of (sv_addr_map s) from else None))"

definition server_handle_datagram :: "('c, 's, 'z) conn_api_scheme \<Rightarrow> 's io \<Rightarrow> bytes \<Rightarrow> SocketAddr \<Rightarrow> SocketAddr \<Rightarrow> u64
    \<Rightarrow> byte \<Rightarrow> ('c, 's) Server \<Rightarrow> ('c, 's) Server option" where
  "server_handle_datagram api io data from l ts ecn s =
    (case resolve_datagram data from s of
       Some key \<Rightarrow> handle_existing_connection api io key data from l ts ecn s
     | None \<Rightarrow>
       (let (handed_over, s) = handoff_to_accepted data from l ecn s in
        if handed_over then Some s
        else if (case data of [] \<Rightarrow> False | first # _ \<Rightarrow> first AND 0x80 \<noteq> 0)
        then handle_new_connection api io data from l ts ecn s
        else Some (send_stateless_reset api io data from l ts s)))"

definition handle_timer :: "('c, 's, 'z) conn_api_scheme \<Rightarrow> 's io \<Rightarrow> cid \<Rightarrow> ('c, 's) Server \<Rightarrow> ('c, 's) Server" where
  "handle_timer api io key s =
    (case map_of (sv_connections s) key of
       None \<Rightarrow> s
     | Some sc \<Rightarrow>
       if get_expiry api (sc_conn sc) > io_now io then s
       else
         (let (result, c) = handle_expiry api (io_now io) (sc_conn sc);
              sc = drain_events api io (sc\<lparr>sc_conn := c\<rparr>);
              (sc, s) = register_issued_cids key sc s;
              (retired, c) = poll_retired_cids (sc_conn sc);
              s = put_connection key (sc\<lparr>sc_conn := c\<rparr>) s;
              s = remove_retired_cids retired key s
          in case result of
               Inr _ \<Rightarrow> s
             | Inl e \<Rightarrow>
               if classify_connection_error e = Ignore \<or> classify_connection_error e = Terminal then s
               else remove_connection key s))"

definition handle_timers :: "('c, 's, 'z) conn_api_scheme \<Rightarrow> 's io \<Rightarrow> ('c, 's) Server \<Rightarrow> ('c, 's) Server" where
  "handle_timers api io s = fold (handle_timer api io) (map fst (sv_connections s)) s"

text \<open>\<open>None\<close> is the panic of \<^verbatim>\<open>expect\<close> for a key that is not in the table.\<close>

definition take_connection :: "cid \<Rightarrow> ('c, 's) Server \<Rightarrow> (('c, 's) AcceptedConnection \<times> ('c, 's) Server) option" where
  "take_connection key s =
    (case map_of (sv_connections s) key of
       None \<Rightarrow> None
     | Some sc \<Rightarrow>
       (let taken_cids = map fst (filter (\<lambda>(_, k). k = key) (sv_cid_map s));
            addrs = map fst (filter (\<lambda>(_, k). k = key) (sv_addr_map s));
            i = sv_next_chan s;
            r = (sv_routes s)\<lparr>sr_channels := (sr_channels (sv_routes s))(i := \<lparr>ch_queue = [], ch_rx_open = True\<rparr>)\<rparr>;
            s = s\<lparr>sv_connections := AList.delete key (sv_connections s), sv_next_chan := Suc i,
                  sv_routes := routes_register key i taken_cids addrs r\<rparr>;
            s = fold remember_taken_cid taken_cids s;
            s = s\<lparr>sv_cid_map := retain_other key (sv_cid_map s), sv_addr_map := retain_other key (sv_addr_map s)\<rparr>
        in Some (\<lparr>ac_local_addr = sv_local_addr s, ac_connection_id = key, ac_inner = sc, ac_inbound = i\<rparr>, s)))"

text \<open>The head of the loop of \<^verbatim>\<open>accept\<close>: closed connections go, and an established one is handed over.\<close>

definition accept_ready :: "('c, 's, 'z) conn_api_scheme \<Rightarrow> ('c, 's) Server
    \<Rightarrow> (('c, 's) AcceptedConnection option \<times> ('c, 's) Server) option" where
  "accept_ready api s =
    (let s = remove_closed_connections api s in
     case find (\<lambda>(_, sc). is_handshake_completed api (sc_conn sc)) (sv_connections s) of
       None \<Rightarrow> Some (None, s)
     | Some (key, _) \<Rightarrow> map_option (\<lambda>(a, s). (Some a, s)) (take_connection key s))"

datatype accept_input =
    AcceptRecv "string + (bytes \<times> SocketAddr \<times> SocketAddr \<times> byte)"
  | AcceptTimer

fun server_accept :: "('c, 's, 'z) conn_api_scheme \<Rightarrow> ('s io \<times> accept_input) list \<Rightarrow> ('c, 's) Server
    \<Rightarrow> (('c, 's) AcceptedConnection result poll \<times> ('c, 's) Server) option" where
  "server_accept api [] s =
    (case accept_ready api s of
       None \<Rightarrow> None | Some (Some a, s) \<Rightarrow> Some (Ready (Ok a), s) | Some (None, s) \<Rightarrow> Some (Pending, s))"
| "server_accept api ((io, i) # ins) s =
    (case accept_ready api s of
       None \<Rightarrow> None
     | Some (Some a, s) \<Rightarrow> Some (Ready (Ok a), s)
     | Some (None, s) \<Rightarrow>
       (case i of
          AcceptRecv (Inl msg) \<Rightarrow> Some (Ready (Err (InternalErr (''recv error: '' @ msg))), s)
        | AcceptRecv (Inr (data, from, l, ecn)) \<Rightarrow>
          (case server_handle_datagram api io data from l (io_now io) ecn s of
             None \<Rightarrow> None | Some s \<Rightarrow> server_accept api ins s)
        | AcceptTimer \<Rightarrow> server_accept api ins (handle_timers api io s)))"

end
