(* ===== verification/ServerInv.thy ===== *)
theory ServerInv
  imports Server "HOL-Library.Multiset"
begin

text \<open>
  The invariant of the server: its tables are consistent (every route leads to a connection in the
  table, at most 1024 connections), the live C connections are exactly those in the table and
  those held elsewhere, without repetition, and every connection in the table has been driven through
  its operations only. \<open>keys\<close> are connections that routes may lead to before they are in the table, \<open>out\<close> the
  handles held elsewhere.
\<close>

section \<open>Association lists\<close>

lemma update_set: "set (AList.update k v xs) \<subseteq> insert (k, v) (set xs)"
  by (induction xs) auto

lemma update_values: "snd ` set (AList.update k v xs) \<subseteq> insert v (snd ` set xs)"
  using update_set [of k v xs] by force

lemma values_update: "v \<in> V \<Longrightarrow> snd ` set xs \<subseteq> V \<Longrightarrow> snd ` set (AList.update k v xs) \<subseteq> V"
  by (rule order_trans [OF update_values]) simp

lemma ball_update: "\<forall>x \<in> snd ` set xs. Q x \<Longrightarrow> Q v \<Longrightarrow> \<forall>x \<in> snd ` set (AList.update k v xs). Q x"
  using update_values [of k v xs] by blast

lemma update_map_same:
  "map_of xs k = Some v0 \<Longrightarrow> g v = g v0 \<Longrightarrow> map (g \<circ> snd) (AList.update k v xs) = map (g \<circ> snd) xs"
  by (induction xs) auto

lemma update_length_same: "map_of xs k \<noteq> None \<Longrightarrow> length (AList.update k v xs) = length xs"
  by (induction xs) auto

lemma update_fresh: "map_of xs k = None \<Longrightarrow> AList.update k v xs = xs @ [(k, v)]"
  by (induction xs) (auto split: if_splits)

lemma delete_values: "snd ` set (AList.delete k xs) \<subseteq> snd ` set xs"
  by (auto simp: AList.delete_eq)

lemma delete_length: "length (AList.delete k xs) \<le> length xs"
  by (simp add: AList.delete_eq)

lemma retain_set: "set (retain_other v m) = {(k, w) \<in> set m. w \<noteq> v}"
  by (auto simp: retain_other_def)

section \<open>Invariant\<close>

definition handles :: "('c, 's) Server \<Rightarrow> nat list" where
  "handles s = map (c_handle \<circ> sc_conn \<circ> snd) (sv_connections s)"

definition tables_ok :: "cid set \<Rightarrow> ('c, 's) Server \<Rightarrow> bool" where
  "tables_ok keys s \<longleftrightarrow> distinct (map fst (sv_connections s)) \<and> distinct (map fst (sv_cid_map s))
     \<and> distinct (map fst (sv_addr_map s))
     \<and> snd ` set (sv_cid_map s) \<subseteq> fst ` set (sv_connections s) \<union> keys
     \<and> snd ` set (sv_addr_map s) \<subseteq> fst ` set (sv_connections s) \<union> keys
     \<and> length (sv_connections s) \<le> MAX_CONNECTIONS \<and> taken_ok (sv_taken s) \<and> routes_ok (sv_routes s)"

definition heap_ok :: "nat list \<Rightarrow> ('c, 's) Server \<Rightarrow> bool" where
  "heap_ok out s \<longleftrightarrow> distinct (handles s @ out) \<and> set (live_conn (sv_heap s)) = set (handles s) \<union> set out
     \<and> (\<forall>n \<in> set (live_conn (sv_heap s)). n < next_conn (sv_heap s))"

definition conns_all :: "(('c, 's) Connection \<Rightarrow> bool) \<Rightarrow> ('c, 's) Server \<Rightarrow> bool" where
  "conns_all P s \<longleftrightarrow> (\<forall>sc \<in> snd ` set (sv_connections s). P (sc_conn sc))"

definition server_ok :: "(('c, 's) Connection \<Rightarrow> bool) \<Rightarrow> cid set \<Rightarrow> nat list \<Rightarrow> ('c, 's) Server \<Rightarrow> bool" where
  "server_ok P keys out s \<longleftrightarrow> tables_ok keys s \<and> heap_ok out s \<and> conns_all P s"

lemmas server_ok_defs = server_ok_def tables_ok_def heap_ok_def conns_all_def handles_def

text \<open>Fields that the invariant does not mention.\<close>

lemma server_ok_frame [simp]:
  "server_ok P keys out (s\<lparr>sv_send_buf := b\<rparr>) = server_ok P keys out s"
  "server_ok P keys out (s\<lparr>sv_limiter := lim\<rparr>) = server_ok P keys out s"
  "server_ok P keys out (s\<lparr>sv_short_cid_lengths := ns\<rparr>) = server_ok P keys out s"
  "server_ok P keys out (send_packets ps s) = server_ok P keys out s"
  by (simp_all add: server_ok_defs send_packets_def)

lemma server_ok_routes: "routes_ok r \<Longrightarrow> server_ok P keys out s \<Longrightarrow> server_ok P keys out (s\<lparr>sv_routes := r\<rparr>)"
  by (simp add: server_ok_defs)

lemma server_ok_cid_update:
  "server_ok P keys out s \<Longrightarrow> key \<in> fst ` set (sv_connections s) \<union> keys
    \<Longrightarrow> server_ok P keys out (s\<lparr>sv_cid_map := AList.update c key (sv_cid_map s)\<rparr>)"
  by (simp add: server_ok_defs distinct_update values_update)

lemma server_ok_addr_update:
  "server_ok P keys out s \<Longrightarrow> key \<in> fst ` set (sv_connections s) \<union> keys
    \<Longrightarrow> server_ok P keys out (s\<lparr>sv_addr_map := AList.update a key (sv_addr_map s)\<rparr>)"
  by (simp add: server_ok_defs distinct_update values_update)

lemma server_ok_cid_delete:
  "server_ok P keys out s \<Longrightarrow> server_ok P keys out (s\<lparr>sv_cid_map := AList.delete c (sv_cid_map s)\<rparr>)"
  using delete_values [of c "sv_cid_map s"] by (auto simp: server_ok_defs distinct_delete)

lemma server_ok_remember: "server_ok P keys out s \<Longrightarrow> server_ok P keys out (remember_taken_cid c s)"
  by (simp add: server_ok_defs remember_taken_cid_def remember_ok)

lemma server_ok_weaken: "server_ok P keys out s \<Longrightarrow> keys \<subseteq> keys' \<Longrightarrow> server_ok P keys' out s"
  by (auto simp: server_ok_defs)

lemma server_ok_register_cid:
  assumes "server_ok P keys out s" "key \<in> fst ` set (sv_connections s) \<union> keys"
  shows "server_ok P keys out (register_cid key c s)"
  using server_ok_cid_update [OF assms, of c]
  by (simp add: server_ok_defs register_cid_def)

lemma register_cid_connections [simp]: "sv_connections (fold (register_cid key) cs s) = sv_connections s"
  by (induction cs arbitrary: s) (simp_all add: register_cid_def)

lemma server_ok_register:
  "server_ok P keys out s \<Longrightarrow> key \<in> fst ` set (sv_connections s) \<union> keys
    \<Longrightarrow> server_ok P keys out (fold (register_cid key) cs s)"
proof (induction cs arbitrary: s)
  case (Cons c cs)
  then have "server_ok P keys out (register_cid key c s)" by (intro server_ok_register_cid)
  then show ?case using Cons by (simp add: register_cid_def)
qed simp

lemma remove_retired_connections [simp]: "sv_connections (remove_retired_cids cs key s) = sv_connections s"
  unfolding remove_retired_cids_def
  by (induction cs arbitrary: s) (simp_all add: remember_taken_cid_def)

lemma server_ok_retired: "server_ok P keys out s \<Longrightarrow> server_ok P keys out (remove_retired_cids cs key s)"
  unfolding remove_retired_cids_def
  by (induction cs arbitrary: s) (auto intro: server_ok_remember server_ok_cid_delete)

lemma server_ok_put:
  assumes "server_ok P keys out s" "map_of (sv_connections s) key = Some old"
    and "c_handle (sc_conn sc) = c_handle (sc_conn old)" "P (sc_conn sc)"
  shows "server_ok P keys out (put_connection key sc s)"
proof -
  have h: "handles (put_connection key sc s) = handles s"
    using update_map_same [of "sv_connections s" key old "c_handle \<circ> sc_conn" sc] assms(2,3)
    by (simp add: handles_def put_connection_def comp_assoc)
  have k: "fst ` set (AList.update key sc (sv_connections s)) = fst ` set (sv_connections s)"
    using assms(2) by (auto simp: dom_update dest: map_of_SomeD) (force dest: map_of_SomeD)
  have l: "length (AList.update key sc (sv_connections s)) = length (sv_connections s)"
    using assms(2) by (simp add: update_length_same)
  have "conns_all P (put_connection key sc s)"
    using ball_update [of "sv_connections s" "\<lambda>x. P (sc_conn x)" sc key] assms(1,4)
    by (simp add: server_ok_def conns_all_def put_connection_def)
  moreover have "tables_ok keys (put_connection key sc s)"
    using assms(1) k l by (simp add: server_ok_def tables_ok_def put_connection_def distinct_update)
  moreover have "heap_ok out (put_connection key sc s)"
    using assms(1) h by (simp add: server_ok_def heap_ok_def) (simp add: put_connection_def)
  ultimately show ?thesis by (simp add: server_ok_def)
qed

text \<open>Removing the connection of a key frees its handle and no other.\<close>

lemma delete_handles:
  assumes "distinct (map fst xs)" "distinct (map (g \<circ> snd) xs)" "map_of xs k = Some v"
  shows "distinct (map (g \<circ> snd) (AList.delete k xs))
    \<and> set (map (g \<circ> snd) (AList.delete k xs)) = set (map (g \<circ> snd) xs) - {g v}"
  using assms
proof (induction xs)
  case (Cons x xs)
  obtain a b where x: "x = (a, b)" by (cases x)
  show ?case
  proof (cases "a = k")
    case True
    then have "AList.delete k xs = xs" using Cons(2) x by (auto simp: AList.delete_eq filter_id_conv image_iff)
    then show ?thesis using Cons x True by auto
  next
    case False
    then have "v \<in> snd ` set xs" using Cons(4) x by (force dest: map_of_SomeD)
    then have "g b \<noteq> g v" using Cons(3) x by auto
    moreover have "g b \<notin> g ` snd ` set (AList.delete k xs)" using Cons(3) x by (auto simp: AList.delete_eq)
    ultimately show ?thesis using Cons x False by (auto simp: image_comp [symmetric])
  qed
qed simp

lemma delete_none: "map_of xs k = None \<Longrightarrow> AList.delete k xs = xs"
  by (induction xs) (auto simp: AList.delete_eq split: if_splits)

lemma drop_connection_other [simp]:
  "sv_connections (drop_connection key s) = sv_connections s" "sv_cid_map (drop_connection key s) = sv_cid_map s"
  "sv_addr_map (drop_connection key s) = sv_addr_map s" "sv_taken (drop_connection key s) = sv_taken s"
  "sv_routes (drop_connection key s) = sv_routes s" "sv_config (drop_connection key s) = sv_config s"
  "sv_sent (drop_connection key s) = sv_sent s"
  by (simp_all add: drop_connection_def split: option.split)

lemma drop_delete_heap:
  assumes "server_ok P keys out s"
  shows "distinct (map (c_handle \<circ> sc_conn \<circ> snd) (AList.delete key (sv_connections s)) @ out)
    \<and> set (live_conn (sv_heap (drop_connection key s)))
      = set (map (c_handle \<circ> sc_conn \<circ> snd) (AList.delete key (sv_connections s))) \<union> set out
    \<and> (\<forall>n \<in> set (live_conn (sv_heap (drop_connection key s))). n < next_conn (sv_heap (drop_connection key s)))"
proof (cases "map_of (sv_connections s) key")
  case None
  then show ?thesis using assms by (simp add: server_ok_defs drop_connection_def delete_none)
next
  case (Some sc)
  let ?g = "c_handle \<circ> sc_conn"
  have d: "distinct (map (?g \<circ> snd) (AList.delete key (sv_connections s)))
    \<and> set (map (?g \<circ> snd) (AList.delete key (sv_connections s))) = set (map (?g \<circ> snd) (sv_connections s)) - {?g sc}"
    by (rule delete_handles [OF _ _ Some]) (use assms in \<open>simp_all add: server_ok_defs\<close>)
  have "?g sc \<in> set (map (?g \<circ> snd) (sv_connections s))" using map_of_SomeD [OF Some] by force
  then have "?g sc \<notin> set out" using assms by (auto simp: server_ok_defs)
  then show ?thesis
    using assms d Some by (auto simp: server_ok_defs drop_connection_def conn_drop_def conn_del_def comp_assoc)
qed

lemma retain_values:
  assumes "snd ` set m \<subseteq> fst ` set cs \<union> keys"
  shows "snd ` set (retain_other k m) \<subseteq> fst ` set (AList.delete k cs) \<union> keys"
proof -
  have "set (map fst (AList.delete k cs)) = set (map fst cs) - {k}" by (simp add: AList.delete_keys)
  then have d: "fst ` set (AList.delete k cs) = fst ` set cs - {k}" by simp
  have "snd ` set (retain_other k m) = snd ` set m - {k}" by (force simp: retain_set)
  then show ?thesis using assms d by blast
qed

lemma server_ok_remove:
  assumes "server_ok P keys out s"
  shows "server_ok P keys out (remove_connection key s)"
proof -
  have "tables_ok keys (remove_connection key s)"
    using assms delete_length [of key "sv_connections s"]
    by (simp add: server_ok_def tables_ok_def remove_connection_def Let_def distinct_delete distinct_retain retain_values)
  moreover have "heap_ok out (remove_connection key s)"
    using drop_delete_heap [OF assms, of key] by (simp add: heap_ok_def handles_def remove_connection_def Let_def)
  moreover have "conns_all P (remove_connection key s)"
    using assms by (auto simp: server_ok_defs remove_connection_def Let_def AList.delete_eq)
  ultimately show ?thesis by (simp add: server_ok_def)
qed

lemma mset_update: "distinct (map fst xs) \<Longrightarrow> mset (AList.update k v xs) = add_mset (k, v) (mset (AList.delete k xs))"
proof (induction xs)
  case (Cons x xs)
  obtain a b where x: "x = (a, b)" by (cases x)
  have "AList.delete k xs = xs" if "a = k" using Cons(2) that x by (auto simp: AList.delete_eq filter_id_conv image_iff)
  then show ?case using Cons x by auto
qed simp

lemma server_ok_insert:
  assumes "server_ok P {key} (c_handle (sc_conn sc) # out) s" "P (sc_conn sc)" "length (sv_connections s) < MAX_CONNECTIONS"
  shows "server_ok P {} out (insert_connection key sc s)"
proof -
  let ?f = "c_handle \<circ> sc_conn \<circ> snd" and ?xs = "sv_connections s"
  have dk: "distinct (map fst ?xs)" using assms(1) by (simp add: server_ok_defs)
  have m: "mset (map ?f (AList.update key sc ?xs)) = mset (c_handle (sc_conn sc) # map ?f (AList.delete key ?xs))"
    by (simp add: mset_update [OF dk])
  have d: "distinct (map ?f (AList.update key sc ?xs)) = distinct (c_handle (sc_conn sc) # map ?f (AList.delete key ?xs))"
    and e: "set (map ?f (AList.update key sc ?xs)) = set (c_handle (sc_conn sc) # map ?f (AList.delete key ?xs))"
    using m by (rule mset_eq_imp_distinct_iff, rule mset_eq_setD)
  have "heap_ok out (insert_connection key sc s)"
    using drop_delete_heap [OF assms(1), of key] d e
    unfolding heap_ok_def handles_def insert_connection_def Let_def by auto
  moreover have "tables_ok {} (insert_connection key sc s)"
  proof -
    have "length (AList.update key sc ?xs) = Suc (length (AList.delete key ?xs))"
      using mset_update [OF dk, of key sc] by (metis size_mset size_add_mset)
    then have "length (AList.update key sc ?xs) \<le> MAX_CONNECTIONS"
      using assms(3) delete_length [of key ?xs] by linarith
    moreover have "fst ` set (AList.update key sc ?xs) = insert key (fst ` set ?xs)" by (simp add: dom_update)
    ultimately show ?thesis
      using assms(1) by (simp add: server_ok_def tables_ok_def insert_connection_def Let_def distinct_update)
  qed
  moreover have "conns_all P (insert_connection key sc s)"
    using ball_update [of ?xs "\<lambda>x. P (sc_conn x)" sc key] assms(1,2)
    by (simp add: server_ok_def conns_all_def insert_connection_def Let_def)
  ultimately show ?thesis by (simp add: server_ok_def)
qed

lemma server_ok_fold_remove: "server_ok P keys out s \<Longrightarrow> server_ok P keys out (fold remove_connection ks s)"
  by (induction ks arbitrary: s) (auto intro: server_ok_remove)

lemma server_ok_remove_closed: "server_ok P keys out s \<Longrightarrow> server_ok P keys out (remove_closed_connections api s)"
  by (simp add: remove_closed_connections_def Let_def server_ok_fold_remove)

section \<open>Replies without state\<close>

lemma server_ok_replies:
  assumes "server_ok P keys out s"
  shows "server_ok P keys out (send_retry api io ai version secret to l ts s)"
    and "server_ok P keys out (send_invalid_token_close api io ai version to l s)"
    and "server_ok P keys out (send_version_negotiation api io info to l s)"
    and "server_ok P keys out (send_stateless_reset api io data to l ts s)"
proof -
  show "server_ok P keys out (send_retry api io ai version secret to l ts s)"
    using assms by (auto simp: send_retry_def Let_def split: option.split sum.split prod.split)
  show "server_ok P keys out (send_invalid_token_close api io ai version to l s)"
    using assms by (auto simp: send_invalid_token_close_def Let_def split: option.split sum.split prod.split)
  show "server_ok P keys out (send_version_negotiation api io info to l s)"
    using assms by (auto simp: send_version_negotiation_def Let_def split: option.split sum.split prod.split)
  have "server_ok P keys out (reset_loop api io secret data to l ns s)" if "server_ok P keys out s" for secret ns s
    using that by (induction ns arbitrary: s) (auto simp: Let_def split: option.split sum.split prod.split)
  then show "server_ok P keys out (send_stateless_reset api io data to l ts s)"
    using assms by (auto simp: send_stateless_reset_def Let_def split: option.split prod.split)
qed

section \<open>Handlers\<close>

lemma keeps_handle:
  "c_handle (sc_conn (snd (read_packet api io l from data ts ecn sc))) = c_handle (sc_conn sc)"
  "c_handle (sc_conn (drain_events api io sc)) = c_handle (sc_conn sc)"
  "flush_to_packets api io ts sc = Some (r, sc1) \<Longrightarrow> c_handle (sc_conn sc1) = c_handle (sc_conn sc)"
  by (rule op_closed_read_packet [OF op_closed_handle refl])
     (rule op_closed_drain [OF op_closed_handle refl], rule op_closed_flush [OF op_closed_handle refl])

lemma conn_op_handle: "c_handle (conn_run_op api op c) = c_handle c"
  by (rule op_closedD [OF op_closed_handle refl])

lemma map_of_key: "map_of xs k = Some v \<Longrightarrow> k \<in> fst ` set xs"
  by (force dest: map_of_SomeD)

lemma server_ok_conn:
  "server_ok P keys out s \<Longrightarrow> map_of (sv_connections s) key = Some sc \<Longrightarrow> P (sc_conn sc)"
  by (force simp: server_ok_def conns_all_def dest: map_of_SomeD)

lemma server_ok_conn_error:
  assumes ok: "server_ok P {} out s" and P: "op_closed api P" and h: "handle_conn_error api io key err from l s = Some s1"
  shows "server_ok P {} out s1"
proof -
  let ?kind = "classify_connection_error err"
  consider "s1 = s" | "s1 = remove_connection key s"
    | sc c buf where "map_of (sv_connections s) key = Some sc" "c_handle c = c_handle (sc_conn sc)" "P c"
        "s1 = remove_connection key (put_connection key (sc\<lparr>sc_conn := c\<rparr>) (s\<lparr>sv_send_buf := buf\<rparr>))
         \<or> (\<exists>ps. s1 = send_packets ps (put_connection key (sc\<lparr>sc_conn := c\<rparr>) (s\<lparr>sv_send_buf := buf\<rparr>)))"
  proof (cases "?kind \<in> {Ignore, Terminal, SilentDrop, Internal}")
    case True
    then show thesis using that h by (auto simp: handle_conn_error_def Let_def split: if_splits)
  next
    case False
    show thesis
    proof (cases "map_of (sv_connections s) key")
      case None
      then show thesis using that h False by (auto simp: handle_conn_error_def Let_def split: if_splits)
    next
      case (Some sc)
      define code where "code = (case err of Ngtcp2 _ code \<Rightarrow> io_infer_error io code | _ \<Rightarrow> 0)"
      obtain r buf c where w: "conn_write_close api (sv_send_buf s) code [] (io_now io) (sc_conn sc) = (r, buf, c)"
        by (metis prod.collapse)
      have c: "P c" "c_handle c = c_handle (sc_conn sc)"
        using op_closedD [OF P server_ok_conn [OF ok Some], of "OpClose (sv_send_buf s) code [] (io_now io)"]
          conn_op_handle [of api "OpClose (sv_send_buf s) code [] (io_now io)" "sc_conn sc"] w by simp_all
      show thesis
        by (rule that(3) [OF Some c(2) c(1)])
           (use h False Some w code_def in \<open>auto simp: handle_conn_error_def Let_def bind_eq_Some_conv split: if_splits sum.splits\<close>)
    qed
  qed
  then show ?thesis
  proof cases
    case 3
    have "server_ok P {} out (put_connection key (sc\<lparr>sc_conn := c\<rparr>) (s\<lparr>sv_send_buf := buf\<rparr>))"
      by (rule server_ok_put [of _ _ _ _ _ sc]) (use ok 3 in simp_all)
    then show ?thesis using 3(4) by (auto intro: server_ok_remove)
  qed (use ok server_ok_remove in auto)
qed

text \<open>After a connection was driven, its new and retired IDs go into the tables.\<close>

lemma polled_ids:
  assumes "op_closed api P" "P c" "poll_issued_cids c = (issued, c1)" "poll_retired_cids c1 = (retired, c2)"
  shows "P c1" "P c2" "c_handle c1 = c_handle c" "c_handle c2 = c_handle c"
proof -
  show c1: "P c1" using op_closedD [OF assms(1,2), of OpPollIssued] assms(3) by simp
  show "P c2" using op_closedD [OF assms(1) c1, of OpPollRetired] assms(4) by simp
  show "c_handle c1 = c_handle c" "c_handle c2 = c_handle c" using assms(3,4) by (auto simp: poll_issued_cids_def poll_retired_cids_def)
qed

lemma server_ok_driven:
  assumes "server_ok P {} out s" "map_of (sv_connections s) key = Some old" "P (sc_conn sc)"
    and "c_handle (sc_conn sc) = c_handle (sc_conn old)"
  shows "server_ok P {} out (remove_retired_cids retired key (fold (register_cid key) issued (put_connection key sc s)))"
proof -
  have "server_ok P {} out (put_connection key sc s)" by (rule server_ok_put [OF assms(1,2,4,3)])
  moreover have "key \<in> fst ` set (sv_connections (put_connection key sc s))"
    by (simp add: put_connection_def dom_update)
  ultimately show ?thesis by (intro server_ok_retired server_ok_register) auto
qed

lemma server_ok_existing:
  assumes ok: "server_ok P {} out s" and P: "op_closed api P"
    and h: "handle_existing_connection api io key data from l ts ecn s = Some s1"
  shows "server_ok P {} out s1"
proof (cases "map_of (sv_connections s) key")
  case None
  then show ?thesis using ok h by (simp add: handle_existing_connection_def)
next
  case (Some sc)
  obtain result sc1 where r: "read_packet api io l from data ts ecn sc = (result, sc1)" by fastforce
  obtain pr sc2 where f: "flush_to_packets api io ts sc1 = Some (pr, sc2)"
    using h Some r by (auto simp: handle_existing_connection_def split: option.splits)
  obtain issued c1 where i: "poll_issued_cids (sc_conn sc2) = (issued, c1)" by fastforce
  obtain retired c2 where q: "poll_retired_cids c1 = (retired, c2)" by fastforce
  have p1: "P (sc_conn sc1)" "c_handle (sc_conn sc1) = c_handle (sc_conn sc)"
    using op_closed_read_packet [OF P server_ok_conn [OF ok Some], of io l "from" data ts ecn]
      keeps_handle(1) [of api io l "from" data ts ecn sc] r by simp_all
  have p2: "P (sc_conn sc2)" "c_handle (sc_conn sc2) = c_handle (sc_conn sc)"
    using op_closed_flush [OF P p1(1) f] keeps_handle(3) [OF f] p1(2) by simp_all
  note c = polled_ids [OF P p2(1) i q]
  define s2 where "s2 = send_packets (case pr of Inl _ \<Rightarrow> [] | Inr ps \<Rightarrow> ps) (remove_retired_cids retired key
      (fold (register_cid key) issued (put_connection key (sc2\<lparr>sc_conn := c2\<rparr>) s)))"
  have ok2: "server_ok P {} out s2"
    using server_ok_driven [OF ok Some, of "sc2\<lparr>sc_conn := c2\<rparr>"] c p2(2) by (simp add: s2_def)
  have e: "(case result of Inr _ \<Rightarrow> Some s2 | Inl e \<Rightarrow> handle_conn_error api io key e from l s2) = Some s1"
    unfolding s2_def using h Some r f i q by (simp add: handle_existing_connection_def Let_def)
  then show ?thesis using ok2 server_ok_conn_error [OF ok2 P] by (cases result) auto
qed

lemma server_ok_handoff: "server_ok P keys out s \<Longrightarrow> server_ok P keys out (snd (handoff_to_accepted data from l ecn s))"
  using routes_ok_ops(5) [of "sv_routes s"] routes_ok_ops(6)
  by (auto simp: handoff_to_accepted_def Let_def case_prod_beta intro!: server_ok_routes split: option.split)
     (simp_all add: server_ok_def tables_ok_def)

lemma server_ok_register_routes:
  assumes "server_ok P {} out s"
  shows "server_ok P {key} out (register_routes scid key odcid retried preferred from s)"
proof -
  note [simp] = server_ok_cid_update server_ok_addr_update server_ok_cid_delete server_ok_register_cid
  define s1 where "s1 = (if cid_is_empty scid then s
    else s\<lparr>sv_short_cid_lengths := length_insert (cid_len scid) (sv_short_cid_lengths s)\<rparr>)"
  define s2 where "s2 = (if scid \<noteq> key then s1\<lparr>sv_addr_map := AList.update from key (sv_addr_map s1)\<rparr>
    else s1\<lparr>sv_cid_map := AList.update scid key (sv_cid_map s1)\<rparr>)"
  define s3 where "s3 = (if retried then s2\<lparr>sv_cid_map := AList.delete odcid (sv_cid_map s2)\<rparr> else s2)"
  define s4 where "s4 = s3\<lparr>sv_cid_map := AList.update odcid key (sv_cid_map s3)\<rparr>"
  have "server_ok P {key} out s1" using server_ok_weaken [OF assms, of "{key}"] by (simp add: s1_def)
  then have "server_ok P {key} out s2" by (simp add: s2_def)
  then have "server_ok P {key} out s3" by (simp add: s3_def)
  then have "server_ok P {key} out s4" by (simp add: s4_def)
  then have "server_ok P {key} out (case preferred of None \<Rightarrow> s4 | Some c \<Rightarrow> register_cid key c s4)"
    by (simp split: option.split)
  moreover have "register_routes scid key odcid retried preferred from s
      = (case preferred of None \<Rightarrow> s4 | Some c \<Rightarrow> register_cid key c s4)"
    unfolding register_routes_def s4_def s3_def s2_def s1_def Let_def by (rule refl)
  ultimately show ?thesis by simp
qed

lemma register_routes_connections [simp]:
  "sv_connections (register_routes scid key odcid retried preferred from s) = sv_connections s"
  by (auto simp: register_routes_def register_cid_def Let_def split: option.split)

lemma server_ok_dropped:
  "server_ok P keys (c_handle c # out) s \<Longrightarrow> server_ok P keys out (s\<lparr>sv_heap := conn_drop c (sv_heap s)\<rparr>)"
  by (auto simp: server_ok_defs conn_drop_def conn_del_def)

text \<open>The second half of \<^const>\<open>establish\<close>: the connection is written, put into the table and its IDs are routed.\<close>

lemma server_ok_established:
  assumes ok: "server_ok P {} (c_handle (sc_conn sc1) # out) s" and P: "op_closed api P" and p1: "P (sc_conn sc1)"
    and room: "length (sv_connections s) < MAX_CONNECTIONS" and s2: "s2 = register_routes scid key odcid retried preferred from s"
    and g: "(case flush_to_packets api io ts sc1 of None \<Rightarrow> None
      | Some (pr, sc) \<Rightarrow>
        (let packets = (case pr of Inl _ \<Rightarrow> [] | Inr ps \<Rightarrow> ps);
             s = insert_connection key sc s2;
             (sc, s) = register_issued_cids key sc s;
             s = put_connection key sc s;
             s = send_packets packets s
         in case result of Inr _ \<Rightarrow> Some s | Inl e \<Rightarrow> handle_conn_error api io key e from l s)) = Some s1"
  shows "server_ok P {} out s1"
proof -
  obtain pr sc2 where f: "flush_to_packets api io ts sc1 = Some (pr, sc2)" using g by (auto split: option.splits)
  have p2: "P (sc_conn sc2)" "c_handle (sc_conn sc2) = c_handle (sc_conn sc1)"
    using op_closed_flush [OF P p1 f] keeps_handle(3) [OF f] by simp_all
  have ok2: "server_ok P {key} (c_handle (sc_conn sc2) # out) s2"
    unfolding s2 p2(2) by (rule server_ok_register_routes [OF ok])
  have ok3: "server_ok P {} out (insert_connection key sc2 s2)"
    by (rule server_ok_insert [OF ok2 p2(1)]) (simp add: s2 room)
  obtain issued c where i: "poll_issued_cids (sc_conn sc2) = (issued, c)" by fastforce
  have c: "P c" "c_handle c = c_handle (sc_conn sc2)"
    using op_closedD [OF P p2(1), of OpPollIssued] i by (auto simp: poll_issued_cids_def)
  define s3 where "s3 = fold (register_cid key) issued (insert_connection key sc2 s2)"
  have k: "map_of (sv_connections s3) key = Some sc2"
    by (simp add: s3_def insert_connection_def Let_def map_of_Cons_code update_conv)
  have "server_ok P {} out s3"
    unfolding s3_def by (rule server_ok_register [OF ok3]) (simp add: insert_connection_def Let_def dom_update)
  then have ok4: "server_ok P {} out (put_connection key (sc2\<lparr>sc_conn := c\<rparr>) s3)"
    by (rule server_ok_put [OF _ k]) (use c in simp_all)
  define s4 where "s4 = send_packets (case pr of Inl _ \<Rightarrow> [] | Inr ps \<Rightarrow> ps) (put_connection key (sc2\<lparr>sc_conn := c\<rparr>) s3)"
  have ok5: "server_ok P {} out s4" using ok4 by (simp add: s4_def)
  show ?thesis
    using g f i ok5 server_ok_conn_error [OF ok5 P]
    by (cases result) (auto simp: register_issued_cids_def s3_def [symmetric] s4_def [symmetric])
qed

lemma server_ok_establish:
  assumes ok: "server_ok P {} (c_handle (sc_conn sc) # out) s" and P: "op_closed api P" "P (sc_conn sc)"
    and room: "length (sv_connections s) < MAX_CONNECTIONS"
    and h: "establish api io ai version scid key odcid retried preferred data from l ts ecn sc s = Some s1"
  shows "server_ok P {} out s1"
proof -
  obtain result sc1 where r: "read_packet api io l from data ts ecn sc = (result, sc1)" by fastforce
  have p1: "P (sc_conn sc1)" "c_handle (sc_conn sc1) = c_handle (sc_conn sc)"
    using op_closed_read_packet [OF P, of io l "from" data ts ecn] keeps_handle(1) [of api io l "from" data ts ecn sc] r
    by simp_all
  have dropped: "server_ok P {} out (s\<lparr>sv_heap := conn_drop (sc_conn sc1) (sv_heap s)\<rparr>)"
    using server_ok_dropped [of P "{}" "sc_conn sc1" out s] ok p1(2) by simp
  define s2 where "s2 = register_routes scid key odcid retried preferred from s"
  have "server_ok P {} (c_handle (sc_conn sc1) # out) s" using ok p1(2) by simp
  note go_on = server_ok_established [OF this P(1) p1(1) room s2_def, where result = result and io = io and ts = ts and l = l]
  show ?thesis
    using h r dropped go_on server_ok_replies(1) [OF dropped]
    by (auto simp: establish_def s2_def [symmetric] Let_def split: sum.splits if_splits)
qed

lemma server_new_heap:
  assumes "server_new api ssl m dcid scid l r v t params settings h = (x, h1)"
  shows "(case x of Inl e \<Rightarrow> next_conn h1 \<ge> next_conn h \<and> (next_conn h \<notin> set (live_conn h) \<longrightarrow> live_conn h1 = live_conn h)
     | Inr c \<Rightarrow> c_handle c = next_conn h \<and> live_conn h1 = next_conn h # live_conn h \<and> next_conn h1 = Suc (next_conn h))"
  using assms
  by (auto simp: server_new_def finish_new_def conn_alloc_def conn_del_def Let_def split: prod.splits if_splits sum.splits)

definition new_conns :: "('c, 's, 'z) conn_api_scheme \<Rightarrow> 's ssl_api \<Rightarrow> (('c, 's) Connection \<Rightarrow> bool) \<Rightarrow> bool" where
  "new_conns api ssl P \<longleftrightarrow> (\<forall>m dcid scid l r v t params settings h c h1.
     server_new api ssl m dcid scid l r v t params settings h = (Ok c, h1) \<longrightarrow> P c)"

lemma new_connsD: "new_conns api ssl P \<Longrightarrow> server_new api ssl m dcid scid l r v t params settings h = (Ok c, h1) \<Longrightarrow> P c"
  unfolding new_conns_def by blast

lemma new_server_connection_conn [simp]: "sc_conn (new_server_connection io c scid from v s) = c"
  by (simp add: new_server_connection_def)

lemma server_ok_start:
  assumes ok: "server_ok P {} out s" and P: "op_closed api P" and new: "new_conns api (io_ssl io) P"
    and len: "length (sv_connections s) < MAX_CONNECTIONS"
    and h: "start_connection api io ai version odcid token retried scid key data from l ts ecn s = Some s1"
  shows "server_ok P {} out s1"
proof (cases "create_session (io_new_ssl io) 1 (sv_tls_ctx s)")
  case (Inl e)
  then show ?thesis using ok h by (simp add: start_connection_def)
next
  case (Inr t)
  obtain params pc where pp: "new_params api io odcid scid retried s = (params, pc)" by fastforce
  obtain x heap where n: "server_new api (io_ssl io) empty_mem (ai_scid ai) scid l from version t params
      (new_settings ts token s) (sv_heap s) = (x, heap)" by fastforce
  have fresh: "next_conn (sv_heap s) \<notin> set (live_conn (sv_heap s))" using ok by (auto simp: server_ok_defs)
  show ?thesis
  proof (cases x)
    case err: (Inl e)
    have heap: "next_conn (sv_heap s) \<le> next_conn heap" "live_conn heap = live_conn (sv_heap s)"
      using server_new_heap [OF n] fresh err by auto
    have "server_ok P {} out (s\<lparr>sv_heap := heap\<rparr>)"
      using ok order_less_le_trans [OF _ heap(1)]
      by (simp add: server_ok_def tables_ok_def conns_all_def) (simp add: heap_ok_def handles_def heap(2))
    then show ?thesis using h Inr pp n err by (simp add: start_connection_def)
  next
    case c: (Inr c)
    let ?sc = "new_server_connection io c scid from (token \<noteq> None) s" and ?s = "s\<lparr>sv_heap := heap\<rparr>"
    have heap: "c_handle c = next_conn (sv_heap s)" "live_conn heap = next_conn (sv_heap s) # live_conn (sv_heap s)"
      "next_conn heap = Suc (next_conn (sv_heap s))"
      using server_new_heap [OF n] c by auto
    have "heap_ok (next_conn (sv_heap s) # out) ?s"
      using ok fresh by (auto simp: server_ok_def heap_ok_def handles_def heap(2,3) less_Suc_eq)
    then have ok1: "server_ok P {} (c_handle (sc_conn ?sc) # out) ?s"
      using ok by (simp add: server_ok_def tables_ok_def conns_all_def heap(1))
    have "establish api io ai version scid key odcid retried pc data from l ts ecn ?sc ?s = Some s1"
      using h Inr pp n c by (simp add: start_connection_def)
    moreover have "P (sc_conn ?sc)" unfolding new_server_connection_conn by (rule new_connsD [OF new n [unfolded c]])
    ultimately show ?thesis using server_ok_establish [OF ok1 P] len by simp
  qed
qed

lemma server_ok_create:
  assumes ok: "server_ok P {} out s" and P: "op_closed api P" and new: "new_conns api (io_ssl io) P"
    and h: "create_connection api io ai version odcid token retried data from l ts ecn s = Some s1"
  shows "server_ok P {} out s1"
proof (cases "MAX_CONNECTIONS \<le> length (sv_connections s) \<or> token = None \<and> map_of (sv_cid_map s) odcid \<noteq> None")
  case True
  then show ?thesis using ok h by (auto simp: create_connection_def split: if_splits)
next
  case False
  then have "(case new_ids io ai retried s of None \<Rightarrow> Some s
     | Some (scid, key) \<Rightarrow> start_connection api io ai version odcid token retried scid key data from l ts ecn s) = Some s1"
    using h by (auto simp: create_connection_def)
  then show ?thesis
    using ok server_ok_start [OF ok P new] False by (auto simp: not_le split: option.splits)
qed

lemma server_ok_datagram:
  assumes ok: "server_ok P {} out s" and P: "op_closed api P" and new: "new_conns api (io_ssl io) P"
    and h: "server_handle_datagram api io data from l ts ecn s = Some s1"
  shows "server_ok P {} out s1"
proof (cases "resolve_datagram data from s")
  case (Some key)
  then show ?thesis using server_ok_existing [OF ok P] h by (auto simp: server_handle_datagram_def)
next
  case None
  obtain b s2 where ho: "handoff_to_accepted data from l ecn s = (b, s2)" by fastforce
  have ok2: "server_ok P {} out s2" using server_ok_handoff [OF ok, of data "from" l ecn] ho by simp
  have "server_ok P {} out s1" if "handle_new_connection api io data from l ts ecn s2 = Some s1"
    using that ok2 server_ok_replies [OF ok2] server_ok_create [OF ok2 P new]
    by (auto simp: handle_new_connection_def split: option.splits prod.splits token_check.splits)
  then show ?thesis
    using h None ho ok2 server_ok_replies(4) [OF ok2] by (auto simp: server_handle_datagram_def split: if_splits)
qed

lemma server_ok_timer:
  assumes ok: "server_ok P {} out s" and P: "op_closed api P"
  shows "server_ok P {} out (handle_timer api io key s)"
proof (cases "map_of (sv_connections s) key")
  case None
  then show ?thesis using ok by (simp add: handle_timer_def)
next
  case (Some sc)
  obtain result c where e: "handle_expiry api (io_now io) (sc_conn sc) = (result, c)" by fastforce
  define sc1 where "sc1 = drain_events api io (sc\<lparr>sc_conn := c\<rparr>)"
  obtain issued c1 where i: "poll_issued_cids (sc_conn sc1) = (issued, c1)" by fastforce
  obtain retired c2 where q: "poll_retired_cids c1 = (retired, c2)" by fastforce
  have pc: "P c" "c_handle c = c_handle (sc_conn sc)"
    using op_closedD [OF P server_ok_conn [OF ok Some], of "OpExpiry (io_now io)"]
      conn_op_handle [of api "OpExpiry (io_now io)" "sc_conn sc"] e by simp_all
  have p1: "P (sc_conn sc1)" "c_handle (sc_conn sc1) = c_handle (sc_conn sc)"
    using op_closed_drain [OF P, of "sc\<lparr>sc_conn := c\<rparr>" io] keeps_handle(2) [of api io "sc\<lparr>sc_conn := c\<rparr>"] pc
    by (simp_all add: sc1_def)
  note c12 = polled_ids [OF P p1(1) i q]
  have k: "key \<in> fst ` set (sv_connections s) \<union> {}" using map_of_key [OF Some] by simp
  define s2 where "s2 = put_connection key (sc1\<lparr>sc_conn := c2\<rparr>) (fold (register_cid key) issued s)"
  have "server_ok P {} out s2"
    unfolding s2_def
    by (rule server_ok_put [OF server_ok_register [OF ok k], where old = sc]) (use Some c12 p1 in simp_all)
  then have "server_ok P {} out (remove_retired_cids retired key s2)" by (rule server_ok_retired)
  then show ?thesis
    using ok Some e i q server_ok_remove
    by (auto simp: handle_timer_def register_issued_cids_def Let_def sc1_def [symmetric] s2_def [symmetric] split: sum.split)
qed

lemma server_ok_timers:
  assumes "op_closed api P" "server_ok P {} out s"
  shows "server_ok P {} out (handle_timers api io s)"
proof -
  have "server_ok P {} out (fold (handle_timer api io) ks s)" for ks
    using assms(2) by (induction ks arbitrary: s) (simp_all add: server_ok_timer [OF _ assms(1)])
  then show ?thesis by (simp add: handle_timers_def)
qed

lemma fold_remember_frame [simp]:
  "sv_connections (fold remember_taken_cid cs s) = sv_connections s"
  "sv_cid_map (fold remember_taken_cid cs s) = sv_cid_map s"
  "sv_addr_map (fold remember_taken_cid cs s) = sv_addr_map s"
  "sv_routes (fold remember_taken_cid cs s) = sv_routes s"
  "sv_heap (fold remember_taken_cid cs s) = sv_heap s"
  "sv_local_addr (fold remember_taken_cid cs s) = sv_local_addr s"
  by (induction cs arbitrary: s) (simp_all add: remember_taken_cid_def)

interpretation server_mem: taken_memory sv_taken remember_taken_cid
  by unfold_locales (simp add: remember_taken_cid_def)

text \<open>Taking a connection out moves its handle to the outside.\<close>

lemma server_ok_take:
  assumes ok: "server_ok P {} out s" and h: "take_connection key s = Some (a, s1)"
  shows "server_ok P {} (c_handle (ac_conn a) # out) s1 \<and> P (ac_conn a)"
proof -
  obtain sc where sc: "map_of (sv_connections s) key = Some sc" using h by (auto simp: take_connection_def split: option.splits)
  have a: "ac_inner a = sc" using h sc by (auto simp: take_connection_def Let_def)
  let ?g = "c_handle \<circ> sc_conn" and ?xs = "sv_connections s"
  have d: "distinct (map (?g \<circ> snd) (AList.delete key ?xs))
    \<and> set (map (?g \<circ> snd) (AList.delete key ?xs)) = set (map (?g \<circ> snd) ?xs) - {?g sc}"
    by (rule delete_handles [OF _ _ sc]) (use ok in \<open>simp_all add: server_ok_defs\<close>)
  have g: "?g sc \<in> set (map (?g \<circ> snd) ?xs)" using map_of_SomeD [OF sc] by force
  have s1: "sv_connections s1 = AList.delete key ?xs" "sv_heap s1 = sv_heap s"
    "sv_cid_map s1 = retain_other key (sv_cid_map s)" "sv_addr_map s1 = retain_other key (sv_addr_map s)"
    and t: "taken_ok (sv_taken s1)"
    using h sc ok by (auto simp: take_connection_def Let_def server_ok_def tables_ok_def intro!: server_mem.run_ok)
  have "routes_ok ((sv_routes s)\<lparr>sr_channels := ch\<rparr>)" for ch
    using ok by (simp add: server_ok_def tables_ok_def routes_ok_def)
  then have r: "routes_ok (sv_routes s1)"
    using h sc by (auto simp: take_connection_def Let_def intro!: routes_ok_ops(3))
  have "heap_ok (?g sc # out) s1"
    using ok d g s1(1,2) by (auto simp: server_ok_def heap_ok_def handles_def comp_assoc)
  moreover have "tables_ok {} s1"
    using ok s1 r t delete_length [of key ?xs]
    by (simp add: server_ok_def tables_ok_def distinct_delete distinct_retain retain_values [where keys = "{}", simplified])
  moreover have "conns_all P s1" using ok s1(1) by (auto simp: server_ok_def conns_all_def AList.delete_eq)
  ultimately show ?thesis using server_ok_conn [OF ok sc] a by (simp add: server_ok_def)
qed

end
