(* ===== verification/System.thy ===== *)
theory System
  imports ServerInv
begin

text \<open>
  The server together with the connections it has handed to the application: they share the routes and
  the C library, and their operations interleave in any order. A step is one handler of the server,
  the handover of an established connection, one operation of a handed-over connection, or its drop.
\<close>

section \<open>Handed-over connections\<close>

definition kept_by :: "(('c, 's) Connection \<Rightarrow> bool) \<Rightarrow> ('c, 's) AcceptedConnection \<Rightarrow> SharedRoutes \<Rightarrow> bool" where
  "kept_by P a r \<longleftrightarrow> P (ac_conn a) \<and> routes_ok r"

lemma with_conn_conn [simp]: "ac_conn (with_conn c a) = c"
  by (simp add: with_conn_def)

lemma kept_sync:
  assumes "op_closed api P" "kept_by P a r" "sync_routes a r = (a1, r1)"
  shows "kept_by P a1 r1"
proof -
  obtain issued c1 where i: "poll_issued_cids (ac_conn a) = (issued, c1)" by fastforce
  obtain retired c2 where q: "poll_retired_cids c1 = (retired, c2)" by fastforce
  have "P (ac_conn a)" using assms(2) by (simp add: kept_by_def)
  then have c: "P c2" using polled_ids(2) [OF assms(1) _ i q] by simp
  then show ?thesis
    using assms(2,3) i q by (auto simp: sync_routes_def kept_by_def Let_def intro: routes_ok_ops split: if_splits)
qed

lemma kept_poll: "kept_by P a r \<Longrightarrow> accepted_poll_event a = (e, a1) \<Longrightarrow> kept_by P a1 r"
  by (auto simp: accepted_poll_event_def poll_server_event_def kept_by_def Let_def split: prod.splits)

lemma conn_handle_datagram_read: "snd (conn_handle_datagram api io l from data ts ecn sc) = snd (read_packet api io l from data ts ecn sc)"
  by (simp add: conn_handle_datagram_def split: prod.split sum.split ConnectionErrorKind.split)

lemma kept_datagram:
  "op_closed api P \<Longrightarrow> P (sc_conn sc) \<Longrightarrow> conn_handle_datagram api io l from data ts ecn sc = (x, sc1) \<Longrightarrow> P (sc_conn sc1)"
  using op_closed_read_packet [of api P sc io l "from" data ts ecn] conn_handle_datagram_read [of api io l "from" data ts ecn sc] by simp

lemma kept_flush:
  assumes P: "op_closed api P" and k: "kept_by P a r" and h: "accepted_flush api io a r = Some (x, ps, a1, r1)"
  shows "kept_by P a1 r1"
proof -
  obtain res sc where f: "flush_to_packets api io (io_now io) (ac_inner a) = Some (res, sc)"
    using h by (auto simp: accepted_flush_def)
  have "P (sc_conn sc)" using op_closed_flush [OF P _ f] k by (simp add: kept_by_def)
  then have k1: "kept_by P (a\<lparr>ac_inner := sc\<rparr>) r" using k by (simp add: kept_by_def)
  show ?thesis
    using h f k1 kept_sync [OF P k1] by (cases res) (auto simp: accepted_flush_def Let_def split: prod.splits)
qed

lemma kept_received:
  assumes P: "op_closed api P" and k: "kept_by P a r"
    and h: "handle_received_datagram api io data from l ecn a r = (x, a1, r1)"
  shows "kept_by P a1 r1"
proof -
  obtain res sc where d: "conn_handle_datagram api io l from data (io_now io) ecn (ac_inner a) = (res, sc)" by fastforce
  have "P (sc_conn sc)" using kept_datagram [OF P _ d] k by (simp add: kept_by_def)
  then have k1: "kept_by P (a\<lparr>ac_inner := sc\<rparr>) r" using k by (simp add: kept_by_def)
  obtain a2 r2 where s: "sync_routes (a\<lparr>ac_inner := sc\<rparr>) r = (a2, r2)" by fastforce
  have k2: "kept_by P a2 r2" by (rule kept_sync [OF P k1 s])
  have ok: "routes_ok r" "P (ac_conn a)" using k by (simp_all add: kept_by_def)
  show ?thesis
    using h d s k1 k2 ok routes_ok_ops(5) [OF ok(1)] routes_ok_ops(6)
    by (auto simp: handle_received_datagram_def kept_by_def Let_def case_prod_beta split: option.splits sum.splits if_splits)
qed

lemma kept_announce:
  assumes "kept_by P a r" "announce api e a = (x, a1)"
  shows "kept_by P a1 r"
proof -
  have "kept_by P (a\<lparr>ac_inner := push_connection_closed api (ac_inner a)\<rparr>) r"
    using assms(1) by (simp add: kept_by_def push_connection_closed_def)
  then show ?thesis using assms(2) kept_poll by (fastforce simp: announce_def split: prod.splits option.splits)
qed

lemma kept_ready: "kept_by P a r \<Longrightarrow> recv_ready api a = Some (x, a1) \<Longrightarrow> kept_by P a1 r"
  by (auto simp: recv_ready_def split: prod.splits option.splits if_splits dest: kept_poll intro: kept_announce)

lemma kept_wakeup:
  assumes P: "op_closed api P" and k: "kept_by P a r" and h: "handle_wakeup api io w q a r = (x, q1, a1, r1)"
  shows "kept_by P a1 r1"
proof (cases w)
  case FromQueue
  show ?thesis
  proof (cases "ch_queue (sr_channels r (ac_inbound a))")
    case Nil
    then show ?thesis using k h FromQueue by (simp add: handle_wakeup_def)
  next
    case (Cons d ds)
    define r2 where "r2 = r\<lparr>sr_channels := (sr_channels r)(ac_inbound a := (sr_channels r (ac_inbound a))\<lparr>ch_queue := ds\<rparr>)\<rparr>"
    obtain res sc where c: "conn_handle_datagram api io (in_local_addr d) (in_from d) (in_data d) (io_now io) (in_ecn d) (ac_inner a)
        = (res, sc)" by fastforce
    have "P (sc_conn sc)" using kept_datagram [OF P _ c] k by (simp add: kept_by_def)
    then have k1: "kept_by P (a\<lparr>ac_inner := sc\<rparr>) r2" using k by (simp add: kept_by_def r2_def routes_ok_def)
    show ?thesis
      using h FromQueue Cons c k1 kept_sync [OF P k1]
      by (auto simp: handle_wakeup_def Let_def r2_def [symmetric] split: sum.splits prod.splits)
  qed
next
  case (FromSocket m)
  then show ?thesis using k h kept_received [OF P k]
    by (auto simp: handle_wakeup_def split: sum.splits prod.splits)
next
  case TimerFired
  obtain res c where e: "handle_expiry api (io_now io) (ac_conn a) = (res, c)" by fastforce
  have "P c" using op_closedD [OF P, of "ac_conn a" "OpExpiry (io_now io)"] k e by (simp add: kept_by_def)
  then have "P (sc_conn (drain_events api io (ac_inner (with_conn c a))))" by (intro op_closed_drain [OF P]) simp
  then have "kept_by P ((with_conn c a)\<lparr>ac_inner := drain_events api io (ac_inner (with_conn c a))\<rparr>) r"
    using k by (simp add: kept_by_def)
  then show ?thesis using h TimerFired e kept_announce
    by (fastforce simp: handle_wakeup_def Let_def split: sum.splits if_splits prod.splits)
qed

lemma kept_iteration:
  assumes P: "op_closed api P" and k: "kept_by P a r"
    and h: "recv_iteration api io1 io2 w q a r = Some (sent, x, q1, a1, r1)"
  shows "kept_by P a1 r1"
proof -
  obtain res ps a2 r2 where f: "accepted_flush api io1 a r = Some (res, ps, a2, r2)"
    using h by (auto simp: recv_iteration_def split: option.splits)
  have k2: "kept_by P a2 r2" by (rule kept_flush [OF P k f])
  let ?a = "a2\<lparr>ac_inner := drain_events api io1 (ac_inner a2)\<rparr>"
  have kd: "kept_by P ?a r2" using k2 op_closed_drain [OF P, of "ac_inner a2" io1] by (simp add: kept_by_def)
  obtain a3 r3 where s: "sync_routes ?a r2 = (a3, r3)" by fastforce
  have k3: "kept_by P a3 r3" by (rule kept_sync [OF P kd s])
  obtain ev a4 where p: "accepted_poll_event a3 = (ev, a4)" by fastforce
  have k4: "kept_by P a4 r3" by (rule kept_poll [OF k3 p])
  show ?thesis
    using h f s p k2 k4 kept_wakeup [OF P k4]
    by (auto simp: recv_iteration_def Let_def split: sum.splits option.splits)
qed

lemma kept_recv_loop:
  "op_closed api P \<Longrightarrow> kept_by P a r \<Longrightarrow> recv_loop api q ins a r = Some (x, ps, a1, r1) \<Longrightarrow> kept_by P a1 r1"
proof (induction ins arbitrary: q a r x ps a1 r1)
  case Nil
  then show ?case using kept_ready [OF Nil(2)] by (auto split: option.splits)
next
  case (Cons i ins)
  obtain io1 io2 w where i: "i = (io1, io2, w)" by (cases i)
  show ?case
  proof (cases "recv_ready api a")
    case (Some y)
    then show ?thesis using Cons(4) i kept_ready [OF Cons(3)] by (cases y) auto
  next
    case None
    show ?thesis
    proof (cases "w = FromQueue \<and> \<not> q")
      case True
      then show ?thesis using Cons i None by simp
    next
      case False
      then obtain sent y q1 a2 r2 where it: "recv_iteration api io1 io2 w q a r = Some (sent, y, q1, a2, r2)"
        using Cons(4) None i by (auto split: option.splits)
      show ?thesis
        using Cons(1) [OF Cons(2), of a2 r2 q1] kept_iteration [OF Cons(2,3) it] Cons(4) i None False it by (cases y) auto
    qed
  qed
qed

lemma kept_recv_event:
  assumes P: "op_closed api P" and k: "kept_by P a r" and h: "recv_event api ins a r = Some (x, ps, a1, r1)"
  shows "kept_by P a1 r1"
proof -
  obtain y a2 where p: "accepted_poll_event a = (y, a2)" by fastforce
  have k2: "kept_by P a2 r" by (rule kept_poll [OF k p])
  show ?thesis using h p k2 kept_announce [OF k2] kept_recv_loop [OF P k2]
    by (auto simp: recv_event_def Let_def split: option.splits if_splits prod.splits)
qed

lemma kept_send_datagram:
  assumes P: "op_closed api P" "P (sc_conn sc)" and h: "send_datagram_impl api io data sc = Some (x, ps, sc1)"
  shows "P (sc_conn sc1)"
proof -
  obtain r buf c where w: "write_datagram api (sc_send_buf sc) data (io_now io) (sc_conn sc) = (r, buf, c)"
    by (metis prod.collapse)
  have c: "P c" using op_closedD [OF P, of "OpDatagram (sc_send_buf sc) data (io_now io)"] w by simp
  consider "sc_conn sc1 = sc_conn sc" | "sc_conn sc1 = c"
    | r2 buf2 where "write_control_packets api buf (io_now io) c = Some (r2, buf2, sc_conn sc1)"
    using h w by (auto simp: send_datagram_impl_def Let_def split: if_split_asm sum.split_asm) (case_tac ac; auto)
  then show ?thesis
  proof cases
    case (3 r2 buf2)
    then show ?thesis using op_closed_control [OF 3 [unfolded write_control_packets_def] P(1) c] by simp
  qed (use P(2) c in simp_all)
qed

lemma forget_pending_conn [simp]: "ac_conn (forget_pending s a) = ac_conn a"
  by (simp add: forget_pending_def)

lemma kept_write_stream: "ac_conn (snd (accepted_write_stream api s data fin a)) = ac_conn a"
  by (simp add: accepted_write_stream_def Let_def case_prod_beta)

lemma kept_reset_stream:
  "op_closed api P \<Longrightarrow> P (ac_conn a) \<Longrightarrow> P (ac_conn (snd (accepted_reset_stream api s e a)))"
  using op_closedD [of api P "ac_conn a" "OpShutdownWrite s e"] by (simp add: accepted_reset_stream_def Let_def case_prod_beta)

lemma kept_reset_stream_reliable:
  "op_closed api P \<Longrightarrow> P (ac_conn a) \<Longrightarrow> P (ac_conn (snd (accepted_reset_stream_reliable api s e a)))"
  using op_closedD [of api P "ac_conn a" "OpShutdownReliable s e"]
  by (simp add: accepted_reset_stream_reliable_def Let_def case_prod_beta)

lemma kept_stop_sending:
  "op_closed api P \<Longrightarrow> P (ac_conn a) \<Longrightarrow> P (ac_conn (snd (accepted_stop_sending api s e a)))"
  using op_closedD [of api P "ac_conn a" "OpShutdownRead s e"] by (simp add: accepted_stop_sending_def Let_def case_prod_beta)

lemma kept_close_stream:
  "op_closed api P \<Longrightarrow> P (ac_conn a) \<Longrightarrow> P (ac_conn (snd (accepted_close_stream api s e a)))"
  using op_closedD [of api P "ac_conn a" "OpShutdown s e"] by (simp add: accepted_close_stream_def Let_def case_prod_beta)

lemma kept_open_bidi:
  "op_closed api P \<Longrightarrow> P (ac_conn a) \<Longrightarrow> P (ac_conn (snd (accepted_open_bidi_stream api a)))"
  using op_closedD [of api P "ac_conn a" OpOpenBidi] by (simp add: accepted_open_bidi_stream_def Let_def case_prod_beta)

lemma kept_open_uni:
  "op_closed api P \<Longrightarrow> P (ac_conn a) \<Longrightarrow> P (ac_conn (snd (accepted_open_uni_stream api a)))"
  using op_closedD [of api P "ac_conn a" OpOpenUni] by (simp add: accepted_open_uni_stream_def Let_def case_prod_beta)

lemma kept_extend_bidi:
  "op_closed api P \<Longrightarrow> P (ac_conn a) \<Longrightarrow> P (ac_conn (accepted_extend_max_streams_bidi api n a))"
  using op_closedD [of api P "ac_conn a" "OpExtendBidi n"] by (simp add: accepted_extend_max_streams_bidi_def)

lemma kept_extend_uni:
  "op_closed api P \<Longrightarrow> P (ac_conn a) \<Longrightarrow> P (ac_conn (accepted_extend_max_streams_uni api n a))"
  using op_closedD [of api P "ac_conn a" "OpExtendUni n"] by (simp add: accepted_extend_max_streams_uni_def)

lemma kept_key_update:
  "op_closed api P \<Longrightarrow> P (ac_conn a) \<Longrightarrow> P (ac_conn (snd (accepted_initiate_key_update api io a)))"
  using op_closedD [of api P "ac_conn a" "OpKeyUpdate (io_now io)"]
  by (simp add: accepted_initiate_key_update_def Let_def case_prod_beta)

lemmas kept_simple = kept_reset_stream kept_reset_stream_reliable kept_stop_sending kept_close_stream
  kept_open_bidi kept_open_uni kept_extend_bidi kept_extend_uni kept_key_update

lemma kept_extend:
  assumes P: "op_closed api P" and k: "P (ac_conn a)"
  shows "P (ac_conn (snd (accepted_extend_max_stream_offset api s n a)))"
proof -
  obtain r c where e: "extend_max_stream_offset api s n (ac_conn a) = (r, c)" by fastforce
  have "P c" using op_closedD [OF P k, of "OpExtendStream s n"] e by simp
  then show ?thesis using op_closedD [OF P, of c "OpExtend n"] e
    by (simp add: accepted_extend_max_stream_offset_def split: sum.split)
qed

lemma kept_close:
  assumes P: "op_closed api P" and k: "P (ac_conn a)" and h: "accepted_close api io e reason a = Some (x, ps, a1)"
  shows "P (ac_conn a1)"
  using h k op_closedD [OF P k, of "OpCloseApp (sc_send_buf (ac_inner a)) e reason (io_now io)"]
  by (auto simp: accepted_close_def Let_def case_prod_beta split: if_splits sum.splits)

lemma kept_op:
  assumes P: "op_closed api P" and k: "kept_by P a r" and h: "accepted_run_op api op (a, r) = Some (evs, ps, a1, r1)"
  shows "kept_by P a1 r1"
proof -
  have c: "P (ac_conn a)" and r: "routes_ok r" using k by (simp_all add: kept_by_def)
  show ?thesis
  proof (cases op)
    case (AcFlush io)
    then show ?thesis using h kept_flush [OF P k] by auto
  next
    case (AcRecv ins)
    then show ?thesis using h kept_recv_event [OF P k] by auto
  next
    case AcPoll
    then show ?thesis using h kept_poll [OF k] by (auto simp: Let_def split: prod.splits)
  next
    case (AcSendDatagram io data)
    then show ?thesis using h kept_send_datagram [OF P c] r by (auto simp: accepted_send_datagram_def kept_by_def)
  next
    case (AcClose io e reason)
    then show ?thesis using h kept_close [OF P c] r by (auto simp: kept_by_def)
  qed (use h r c kept_simple [OF P c] kept_extend [OF P c] in \<open>auto simp: kept_by_def kept_write_stream\<close>)
qed

lemma accepted_op_handle:
  assumes "accepted_run_op api op (a, r) = Some (evs, ps, a1, r1)" "routes_ok r"
  shows "c_handle (ac_conn a1) = c_handle (ac_conn a)"
  using kept_op [OF op_closed_handle _ assms(1), of "c_handle (ac_conn a)"] assms(2) by (simp add: kept_by_def)

section \<open>Runs\<close>

type_synonym ('c, 's) world = "('c, 's) Server \<times> ('c, 's) AcceptedConnection list"

inductive world_step :: "('c, 's, 'z) conn_api_scheme \<Rightarrow> 's ssl_api \<Rightarrow> ('c, 's) world \<Rightarrow> ('c, 's) world \<Rightarrow> bool" for api ssl where
  ws_datagram: "server_handle_datagram api io data from l ts ecn s = Some s1 \<Longrightarrow> io_ssl io = ssl
    \<Longrightarrow> world_step api ssl (s, as) (s1, as)"
| ws_timers: "world_step api ssl (s, as) (handle_timers api io s, as)"
| ws_closed: "world_step api ssl (s, as) (remove_closed_connections api s, as)"
| ws_take: "take_connection key s = Some (a, s1) \<Longrightarrow> is_handshake_completed api (ac_conn a)
    \<Longrightarrow> world_step api ssl (s, as) (s1, a # as)"
| ws_op: "accepted_run_op api op (a, sv_routes s) = Some (evs, ps, a1, r1)
    \<Longrightarrow> world_step api ssl (s, as @ a # bs) (send_packets ps (s\<lparr>sv_routes := r1\<rparr>), as @ a1 # bs)"
| ws_drop: "accepted_drop a (sv_routes s) (sv_heap s) = (r1, h1)
    \<Longrightarrow> world_step api ssl (s, as @ a # bs) (s\<lparr>sv_routes := r1, sv_heap := h1\<rparr>, as @ bs)"

inductive world_reach :: "('c, 's, 'z) conn_api_scheme \<Rightarrow> 's ssl_api \<Rightarrow> ('c, 's) world \<Rightarrow> bool" for api ssl where
  wr_bind: "server_bind io calls cert key sockets cf chans \<lparr>live_conn = [], next_conn = 0\<rparr> h = (Ok s, h1)
    \<Longrightarrow> world_reach api ssl (s, [])"
| wr_step: "world_reach api ssl w \<Longrightarrow> world_step api ssl w w1 \<Longrightarrow> world_reach api ssl w1"

definition world_ok :: "('c, 's, 'z) conn_api_scheme \<Rightarrow> 's ssl_api \<Rightarrow> ('c, 's) world \<Rightarrow> bool" where
  "world_ok api ssl w = (case w of (s, as) \<Rightarrow>
     server_ok (reachable api ssl) {} (map (\<lambda>a. c_handle (ac_conn a)) as) s \<and> (\<forall>a \<in> set as. reachable api ssl (ac_conn a)))"

lemma new_conns_reachable: "new_conns api ssl (reachable api ssl)"
  unfolding new_conns_def reachable_def using reach_server by blast

lemma server_ok_out:
  "server_ok P keys out s \<Longrightarrow> mset out = mset out1 \<Longrightarrow> server_ok P keys out1 s"
  using mset_eq_imp_distinct_iff [of out out1] mset_eq_setD [of out out1] by (simp add: server_ok_def heap_ok_def)

lemma bind_ok:
  "server_bind io calls cert key sockets cf chans \<lparr>live_conn = [], next_conn = 0\<rparr> h = (Ok s, h1) \<Longrightarrow> server_ok P {} [] s"
  by (auto simp: server_bind_def server_ok_defs taken_ok_def MAX_CONNECTIONS_def routes_ok_ops(1) Let_def
      split: if_splits prod.splits sum.splits option.splits)

lemma world_step_ok:
  assumes "world_step api ssl w w1" "world_ok api ssl w"
  shows "world_ok api ssl w1"
  using assms
proof (induction rule: world_step.induct)
  case (ws_datagram io data "from" l ts ecn s s1 as)
  then show ?case
    using server_ok_datagram [OF _ op_closed_reachable _ ws_datagram(1)] new_conns_reachable [of api ssl]
    by (fastforce simp: world_ok_def)
next
  case (ws_timers s as io)
  then show ?case using server_ok_timers [OF op_closed_reachable] by (fastforce simp: world_ok_def)
next
  case (ws_closed s as)
  then show ?case using server_ok_remove_closed by (fastforce simp: world_ok_def)
next
  case (ws_take key s a s1 as)
  then show ?case using server_ok_take by (fastforce simp: world_ok_def)
next
  case (ws_op op a s evs ps a1 r1 as bs)
  have r: "routes_ok (sv_routes s)" and k: "kept_by (reachable api ssl) a (sv_routes s)"
    using ws_op(2) by (auto simp: world_ok_def server_ok_def tables_ok_def kept_by_def)
  have k1: "kept_by (reachable api ssl) a1 r1" by (rule kept_op [OF op_closed_reachable k ws_op(1)])
  show ?case
    using ws_op(2) k1 accepted_op_handle [OF ws_op(1) r] by (simp add: world_ok_def kept_by_def server_ok_routes)
next
  case (ws_drop a s r1 h1 as bs)
  let ?h = "\<lambda>a. c_handle (ac_conn a)"
  have r1: "routes_ok r1"
    using ws_drop routes_ok_ops(6) [of "sv_routes s" "ac_connection_id a"]
    by (auto simp: accepted_drop_def world_ok_def server_ok_def tables_ok_def routes_ok_def Let_def)
  have "server_ok (reachable api ssl) {} (?h a # map ?h (as @ bs)) s"
    using ws_drop(2) by (auto simp: world_ok_def intro: server_ok_out)
  then have "server_ok (reachable api ssl) {} (map ?h (as @ bs)) (s\<lparr>sv_heap := conn_drop (ac_conn a) (sv_heap s)\<rparr>)"
    by (rule server_ok_dropped)
  moreover have "h1 = conn_drop (ac_conn a) (sv_heap s)" using ws_drop(1) by (simp add: accepted_drop_def Let_def)
  ultimately have "server_ok (reachable api ssl) {} (map ?h (as @ bs)) (s\<lparr>sv_heap := h1, sv_routes := r1\<rparr>)"
    using server_ok_routes [OF r1] by fastforce
  moreover have "s\<lparr>sv_routes := r1, sv_heap := h1\<rparr> = s\<lparr>sv_heap := h1, sv_routes := r1\<rparr>" by simp
  ultimately have "server_ok (reachable api ssl) {} (map ?h (as @ bs)) (s\<lparr>sv_routes := r1, sv_heap := h1\<rparr>)" by metis
  moreover have "\<forall>b \<in> set (as @ bs). reachable api ssl (ac_conn b)" using ws_drop(2) by (simp add: world_ok_def)
  ultimately show ?case unfolding world_ok_def prod.case by (rule conjI)
qed

lemma world_reach_ok: "world_reach api ssl w \<Longrightarrow> world_ok api ssl w"
proof (induction rule: world_reach.induct)
  case (wr_bind io calls cert key sockets cf chans h s h1)
  then show ?case by (simp add: world_ok_def bind_ok)
next
  case (wr_step w w1)
  then show ?case by (blast intro: world_step_ok)
qed

end
