(* ===== verification/ServerProps.thy ===== *)
theory ServerProps
  imports System
begin

unbundle bit_operations_syntax

text \<open>
  Properties of the server and of the server with the connections it has handed over, and the run of a
  small server on which they are exercised: it binds, receives a first packet and hands over the
  connection that this packet opened.
\<close>

section \<open>A concrete run\<close>

definition sample_io :: "unit io" where
  "sample_io = \<lparr>io_ssl = sample_ssl, io_new_ssl = Some (), io_rnd = (\<lambda>i n. Some (replicate n (word_of_nat (i + 1)))),
     io_now = 7, io_fs = \<lparr>fs_create_dir = (\<lambda>_. True), fs_create_file = (\<lambda>_. True), fs_write = (\<lambda>_. True)\<rparr>,
     io_infer_error = (\<lambda>_. 1)\<rparr>"

definition sample_config :: ServerConfig where
  "sample_config = server_config_new zero_params zero_settings []"

definition sample_server :: "(unit, unit) Server" where
  "sample_server =
    \<lparr>sv_config = sample_config, sv_local_addr = SockV4 1 2, sv_preferred_addr = None,
     sv_tls_ctx = \<lparr>tc_ctx = 0, tc_is_server = True, tc_verify_peer = False, tc_alpn_data = Some [],
       tc_accept_early_data = False\<rparr>,
     sv_connections = [], sv_cid_map = [], sv_short_cid_lengths = [16], sv_addr_map = [],
     sv_stateless_reset_secret = reset_secret_generate (io_rnd sample_io 0),
     sv_retry_secret = RetrySecret (replicate 32 2), sv_limiter = limiter_new, sv_taken = ({}, []),
     sv_routes = routes_new (\<lambda>_. \<lparr>ch_queue = [], ch_rx_open = False\<rparr>), sv_send_buf = replicate SEND_BUFFER_SIZE 0,
     sv_next_chan = 0, sv_sent = [], sv_heap = \<lparr>live_conn = [], next_conn = 0\<rparr>\<rparr>"

lemma sample_bind:
  "server_bind sample_io sample_calls ''cert'' ''key'' (Inr (SockV4 1 2, None)) sample_config
      (\<lambda>_. \<lparr>ch_queue = [], ch_rx_open = False\<rparr>) \<lparr>live_conn = [], next_conn = 0\<rparr> \<lparr>live_ctx = [], next_ctx = 0\<rparr>
     = (Ok sample_server, \<lparr>live_ctx = [0], next_ctx = 1\<rparr>)"
  by (simp add: server_bind_def sample_config_def server_config_new_def new_server_def sample_calls_def ctx_alloc_def
      cstring_new_def retry_secret_generate_def sample_io_def sample_server_def RETRY_SECRET_LEN_def
      DEFAULT_SCID_LEN_def)

definition first_packet :: bytes where
  "first_packet = [0xc0, 0, 0, 0, 1, 2, 7, 8, 0]"

abbreviation (input) sample_key :: cid where
  "sample_key \<equiv> ConnectionId (replicate 16 1)"

abbreviation (input) sample_initial :: AcceptedInitial where
  "sample_initial \<equiv> \<lparr>ai_version = 1, ai_dcid = ConnectionId [7, 8], ai_scid = ConnectionId [], ai_token = []\<rparr>"

lemma sample_versions:
  "version_negotiation_info sample_conn_api first_packet [V1, V2] = None"
  "accept_initial_packet sample_conn_api first_packet [V1, V2] = Some (V1, sample_initial)"
  by (simp_all add: version_negotiation_info_def accept_initial_packet_def accept_initial_def decode_packet_version_def
      first_packet_def sample_conn_api_simps cid_new_def from_u32_def NGTCP2_PROTO_VER_V1_def raw_cid_bytes_def)

lemma sample_token: "check_token sample_conn_api sample_initial V1 (SockV4 3 4) 7 sample_server = TokOk (ConnectionId [7, 8]) None False"
  by (simp add: check_token_def token_from_packet_def token_kind_def sample_server_def sample_config_def server_config_new_def)

lemma sample_ids: "new_ids sample_io sample_initial False sample_server = Some (sample_key, sample_key)"
  by (simp add: new_ids_def generate_scid_def cid_random_def sample_io_def sample_server_def sample_config_def
      server_config_new_def DEFAULT_SCID_LEN_def cid_is_empty_def)

abbreviation (input) opened_conn :: "(unit, unit) Connection" where
  "opened_conn \<equiv> \<lparr>c_handle = 0, c_inner = (), c_user_data = new_user_data (new_settings 7 None sample_server) empty_mem,
     c_tls = sample_tls\<rparr>"

lemma sample_new:
  "server_new sample_conn_api sample_ssl empty_mem (ConnectionId []) sample_key (SockV4 1 2) (SockV4 3 4) V1 sample_tls
     (fst (new_params sample_conn_api sample_io (ConnectionId [7, 8]) sample_key False sample_server))
     (new_settings 7 None sample_server) \<lparr>live_conn = [], next_conn = 0\<rparr>
   = (Ok opened_conn, \<lparr>live_conn = [0], next_conn = 1\<rparr>)"
proof -
  have "has_original_dcid (fst (new_params sample_conn_api sample_io (ConnectionId [7, 8]) sample_key False sample_server))"
    by (simp add: has_original_dcid_def new_params_def with_original_dcid_def with_stateless_reset_token_def
        sample_server_def Let_def split: option.split)
  then show ?thesis
    by (simp add: server_new_def sample_conn_api_simps finish_new_def conn_alloc_def
      set_quic_transport_params_def sample_ssl_def sample_tls_def new_settings_def sample_server_def sample_config_def
      server_config_new_def settings_new_def)
qed

lemma drain_nothing: "queued (sc_conn sc) = [] \<Longrightarrow> drain_events api io sc = sc"
  by (simp add: drain_events.simps [of api io sc] poll_event_def split: list.splits)

lemma idle_read: "queued (sc_conn sc) = [] \<Longrightarrow> read_packet sample_conn_api io l from data ts ecn sc = (Ok (), sc)"
  for sc :: "(unit, unit) ServerConnection"
  using c_apply_idle(2) [of "()" "()" "sc_conn sc"] drain_nothing [of sc sample_conn_api io]
  by (cases sc) (simp add: read_packet_def read_pkt_def sample_conn_api_simps idle_step_def check_ngtcp2_def)

lemma idle_flush: "queued (sc_conn sc) = [] \<Longrightarrow> sc_pending sc = pending_new \<Longrightarrow> sc_qlog sc = qlog_disabled
    \<Longrightarrow> flush_to_packets sample_conn_api io ts sc = Some (Ok [], sc)"
  for sc :: "(unit, unit) ServerConnection"
  using drain_nothing [of sc sample_conn_api io] by (cases sc) (simp add: flush_to_packets_def write_nothing qlog_write_def qlog_disabled_def Let_def)

definition opened :: "(unit, unit) ServerConnection" where
  "opened = new_server_connection sample_io opened_conn sample_key (SockV4 3 4) False sample_server"

lemma opened_fields: "sc_conn opened = opened_conn" "sc_pending opened = pending_new" "sc_qlog opened = qlog_disabled"
  "queued (sc_conn opened) = []" "poll_issued_cids (sc_conn opened) = ([], sc_conn opened)"
  by (simp_all add: opened_def new_server_connection_def sample_server_def sample_config_def server_config_new_def
      new_user_data_def user_data_new_def poll_issued_cids_def)

definition serving :: "(unit, unit) Server" where
  "serving = sample_server\<lparr>sv_heap := \<lparr>live_conn = [0], next_conn = 1\<rparr>, sv_connections := [(sample_key, opened)],
     sv_cid_map := [(sample_key, sample_key), (ConnectionId [7, 8], sample_key)]\<rparr>"

lemma sample_establish:
  "establish sample_conn_api sample_io sample_initial V1 sample_key sample_key (ConnectionId [7, 8]) False None data
     (SockV4 3 4) l ts ecn opened (sample_server\<lparr>sv_heap := \<lparr>live_conn = [0], next_conn = 1\<rparr>\<rparr>) = Some serving"
proof -
  have i: "register_issued_cids sample_key opened s = (opened, s)" for s :: "(unit, unit) Server"
    by (simp add: register_issued_cids_def opened_fields(5))
  show ?thesis
  by (simp add: establish_def idle_read idle_flush i opened_fields(2-4))
     (simp add: register_routes_def cid_is_empty_def insert_connection_def drop_connection_def
       put_connection_def send_packets_def serving_def sample_server_def length_insert_def cid_len_def numeral_eq_Suc)
qed

lemma sample_no_preferred:
  "snd (new_params sample_conn_api sample_io (ConnectionId [7, 8]) sample_key False sample_server) = None"
  by (simp add: new_params_def sample_server_def Let_def split: option.split)

lemma sample_opens_new:
  "handle_new_connection sample_conn_api sample_io first_packet (SockV4 3 4) (SockV4 1 2) 7 ecn sample_server = Some serving"
proof -
  obtain params where p: "new_params sample_conn_api sample_io (ConnectionId [7, 8]) sample_key False sample_server = (params, None)"
    using sample_no_preferred by (metis prod.collapse)
  have t: "create_session (io_new_ssl sample_io) 1 (sv_tls_ctx sample_server) = Ok sample_tls"
    by (simp add: create_session_def sample_io_def sample_server_def sample_tls_def)
  have "start_connection sample_conn_api sample_io sample_initial V1 (ConnectionId [7, 8]) None False sample_key sample_key
      first_packet (SockV4 3 4) (SockV4 1 2) 7 ecn sample_server = Some serving"
    using sample_establish [of first_packet "SockV4 1 2" 7 ecn] sample_new [unfolded p] t
    by (simp add: start_connection_def opened_def p sample_server_def [THEN arg_cong [of _ _ sv_heap]]
        sample_io_def [THEN arg_cong [of _ _ io_ssl]])
  then have "create_connection sample_conn_api sample_io sample_initial V1 (ConnectionId [7, 8]) None False first_packet
      (SockV4 3 4) (SockV4 1 2) 7 ecn sample_server = Some serving"
    by (simp add: create_connection_def sample_ids) (simp add: sample_server_def MAX_CONNECTIONS_def)
  then show ?thesis
    using sample_versions sample_token
    by (simp add: handle_new_connection_def sample_server_def [THEN arg_cong [of _ _ sv_config]] sample_config_def server_config_new_def)
qed

lemma sample_opens:
  "server_handle_datagram sample_conn_api sample_io first_packet (SockV4 3 4) (SockV4 1 2) 7 ecn sample_server = Some serving"
proof -
  have "resolve_datagram first_packet (SockV4 3 4) sample_server = None"
    "handoff_to_accepted first_packet (SockV4 3 4) (SockV4 1 2) ecn sample_server = (False, sample_server)"
    by (simp_all add: resolve_datagram_def resolve_dcid_def handoff_to_accepted_def routes_resolve_def sample_server_def
        first_packet_def routes_new_def)
  then show ?thesis using sample_opens_new [of ecn] by (simp add: server_handle_datagram_def first_packet_def)
qed

lemma serving_reach: "world_reach sample_conn_api sample_ssl (serving, [])"
  by (rule wr_step [OF wr_bind [OF sample_bind] ws_datagram [OF sample_opens]]) (simp add: sample_io_def)

section \<open>The system\<close>

text \<open>C3. No leak and no double free in the whole server: after any interleaving of received datagrams,
  timers, hand-overs, operations of handed-over connections and their drops, the live C connections
  are exactly those of the server's table and of the handed-over connections, each owned once, and the
  server never holds more than 1024.\<close>

theorem world_owns_connections:
  assumes "world_reach api ssl (s, as)"
  shows "distinct (handles s @ map (\<lambda>a. c_handle (ac_conn a)) as)
    \<and> set (live_conn (sv_heap s)) = set (handles s @ map (\<lambda>a. c_handle (ac_conn a)) as)
    \<and> length (connection_ids s) \<le> MAX_CONNECTIONS"
  using world_reach_ok [OF assms] by (simp add: world_ok_def server_ok_def heap_ok_def tables_ok_def connection_ids_def)

theorem world_owns_connections_witness:
  "world_reach sample_conn_api sample_ssl (serving, []) \<and> handles serving = [0] \<and> set (live_conn (sv_heap serving)) = {0}"
proof -
  have "handles serving = [0]" by (simp add: handles_def serving_def opened_fields(1))
  then show ?thesis using serving_reach world_owns_connections [OF serving_reach] by simp
qed



lemma resolve_dcid_values: "resolve_dcid m ns data = Some key \<Longrightarrow> key \<in> snd ` set m"
proof -
  have "resolve_short m ns data = Some key \<Longrightarrow> key \<in> snd ` set m" for ns
    by (induction ns) (force split: if_splits option.splits dest: map_of_SomeD simp: bind_eq_Some_conv)+
  then show "resolve_dcid m ns data = Some key \<Longrightarrow> key \<in> snd ` set m"
    by (force simp: resolve_dcid_def bind_eq_Some_conv Let_def split: list.splits if_splits dest: map_of_SomeD)
qed

text \<open>C14. Routing is never stale: whenever the server resolves a datagram, by connection ID or by address, to
  a key, the connection of that key is in its table.\<close>

theorem world_routes_live:
  assumes "world_reach api ssl (s, as)" and "resolve_datagram data from s = Some key"
  shows "\<exists>sc. map_of (sv_connections s) key = Some sc"
proof -
  have t: "tables_ok {} s" using world_reach_ok [OF assms(1)] by (simp add: world_ok_def server_ok_def)
  have "key \<in> snd ` set (sv_cid_map s) \<union> snd ` set (sv_addr_map s)"
    using assms(2) by (force simp: resolve_datagram_def Let_def split: option.splits if_splits
        dest: resolve_dcid_values map_of_SomeD)
  then have "key \<in> fst ` set (sv_connections s)" using t by (auto simp: tables_ok_def)
  then show ?thesis by (metis map_of_eq_None_iff option.exhaust)
qed

lemma key_not_dcid: "replicate 16 (1 :: byte) \<noteq> [7, 8]"
  by (simp add: numeral_eq_Suc)

theorem world_routes_live_witness:
  "resolve_datagram first_packet (SockV4 3 4) serving = Some sample_key \<and> (\<exists>sc. map_of (sv_connections serving) sample_key = Some sc)"
proof -
  have "resolve_datagram first_packet (SockV4 3 4) serving = Some sample_key"
    by (simp add: resolve_datagram_def resolve_dcid_def first_packet_def serving_def cid_new_def key_not_dcid)
  then show ?thesis using world_routes_live [OF serving_reach] by blast
qed

section \<open>Handing over\<close>

lemma routes_register_maps:
  "map_of (sr_cid_map (routes_register key i cids addrs r)) c = (if c \<in> set cids then Some key else map_of (sr_cid_map r) c)"
  "map_of (sr_addr_map (routes_register key i cids addrs r)) a = (if a \<in> set addrs then Some key else map_of (sr_addr_map r) a)"
  "map_of (sr_senders (routes_register key i cids addrs r)) k = (if k = key then Some i else map_of (sr_senders r) k)"
  "sr_channels (routes_register key i cids addrs r) = sr_channels r"
proof -
  let ?f = "\<lambda>c r. r\<lparr>sr_short_cid_lengths := length_insert (cid_len c) (sr_short_cid_lengths r),
                     sr_cid_map := AList.update c key (sr_cid_map r)\<rparr>"
  let ?g = "\<lambda>a r. r\<lparr>sr_addr_map := AList.update a key (sr_addr_map r)\<rparr>"
  have f: "map_of (sr_cid_map (fold ?f cids r)) c = (if c \<in> set cids then Some key else map_of (sr_cid_map r) c)
    \<and> sr_addr_map (fold ?f cids r) = sr_addr_map r \<and> sr_senders (fold ?f cids r) = sr_senders r
    \<and> sr_channels (fold ?f cids r) = sr_channels r" for r :: SharedRoutes
    by (induction cids arbitrary: r) (auto simp: update_conv)
  have g: "map_of (sr_addr_map (fold ?g addrs r)) a = (if a \<in> set addrs then Some key else map_of (sr_addr_map r) a)
    \<and> sr_cid_map (fold ?g addrs r) = sr_cid_map r \<and> sr_senders (fold ?g addrs r) = sr_senders r
    \<and> sr_channels (fold ?g addrs r) = sr_channels r" for r :: SharedRoutes
    by (induction addrs arbitrary: r) (auto simp: update_conv)
  show "map_of (sr_cid_map (routes_register key i cids addrs r)) c = (if c \<in> set cids then Some key else map_of (sr_cid_map r) c)"
    "map_of (sr_addr_map (routes_register key i cids addrs r)) a = (if a \<in> set addrs then Some key else map_of (sr_addr_map r) a)"
    "map_of (sr_senders (routes_register key i cids addrs r)) k = (if k = key then Some i else map_of (sr_senders r) k)"
    "sr_channels (routes_register key i cids addrs r) = sr_channels r"
    using f g by (simp_all add: routes_register_def Let_def update_conv)
qed

lemma keys_of_value: "distinct (map fst m) \<Longrightarrow> fst ` {x \<in> set m. case x of (_, w) \<Rightarrow> w = v} = {k. map_of m k = Some v}"
  by (force simp: map_of_eq_Some_iff)

lemma take_connection_maps:
  assumes "tables_ok {} s" and "take_connection key s = Some (a, s1)"
  shows "map_of (sv_cid_map s1) c = (if map_of (sv_cid_map s) c = Some key then None else map_of (sv_cid_map s) c)"
    "map_of (sv_addr_map s1) addr = (if map_of (sv_addr_map s) addr = Some key then None else map_of (sv_addr_map s) addr)"
    "map_of (sr_cid_map (sv_routes s1)) c = (if map_of (sv_cid_map s) c = Some key then Some key else map_of (sr_cid_map (sv_routes s)) c)"
    "map_of (sr_addr_map (sv_routes s1)) addr
       = (if map_of (sv_addr_map s) addr = Some key then Some key else map_of (sr_addr_map (sv_routes s)) addr)"
    "map_of (sr_senders (sv_routes s1)) key = Some (ac_inbound a)"
    "sr_channels (sv_routes s1) (ac_inbound a) = \<lparr>ch_queue = [], ch_rx_open = True\<rparr>"
proof -
  obtain sc where sc: "map_of (sv_connections s) key = Some sc"
    using assms(2) by (auto simp: take_connection_def split: option.splits)
  have d: "distinct (map fst (sv_cid_map s))" "distinct (map fst (sv_addr_map s))"
    using assms(1) by (simp_all add: tables_ok_def)
  note defs = take_connection_def Let_def sc
  show "map_of (sv_cid_map s1) c = (if map_of (sv_cid_map s) c = Some key then None else map_of (sv_cid_map s) c)"
    "map_of (sv_addr_map s1) addr = (if map_of (sv_addr_map s) addr = Some key then None else map_of (sv_addr_map s) addr)"
    using assms(2) d by (auto simp: defs map_of_retain split: option.split)
  show "map_of (sr_cid_map (sv_routes s1)) c = (if map_of (sv_cid_map s) c = Some key then Some key else map_of (sr_cid_map (sv_routes s)) c)"
    "map_of (sr_addr_map (sv_routes s1)) addr
       = (if map_of (sv_addr_map s) addr = Some key then Some key else map_of (sr_addr_map (sv_routes s)) addr)"
    "map_of (sr_senders (sv_routes s1)) key = Some (ac_inbound a)"
    "sr_channels (sv_routes s1) (ac_inbound a) = \<lparr>ch_queue = [], ch_rx_open = True\<rparr>"
    using assms(2) by (auto simp: defs routes_register_maps keys_of_value [OF d(1)] keys_of_value [OF d(2)])
qed

definition long_header_dcid :: "bytes \<Rightarrow> cid option" where
  "long_header_dcid data =
    (if 6 \<le> length data \<and> hd data AND 0x80 \<noteq> 0 \<and> data ! 5 \<noteq> 0 \<and> 6 + unat (data ! 5) \<le> length data
     then cid_new (take (unat (data ! 5)) (drop 6 data)) else None)"

lemma resolve_long: "long_header_dcid data = Some c \<Longrightarrow> resolve_dcid m ns data = map_of m c"
  by (cases data) (auto simp: long_header_dcid_def resolve_dcid_def Let_def split: if_splits)



section \<open>New connections\<close>

lemma send_frame [simp]:
  "sv_connections (send_packets ps s) = sv_connections s" "sv_config (send_packets ps s) = sv_config s"
  by (simp_all add: send_packets_def)

lemma reply_connections [simp]:
  "sv_connections (send_retry api io ai version secret to l ts s) = sv_connections s"
  "sv_connections (send_invalid_token_close api io ai version to l s) = sv_connections s"
  "sv_connections (send_version_negotiation api io info to l s) = sv_connections s"
  by (simp_all add: send_retry_def send_invalid_token_close_def send_version_negotiation_def Let_def
      split: option.split sum.split prod.split)

definition token_verified :: "('c, 's, 'z) conn_api_scheme \<Rightarrow> RetrySecret \<Rightarrow> nat \<Rightarrow> QuicVersion \<Rightarrow> AcceptedInitial \<Rightarrow> SocketAddr
    \<Rightarrow> u64 \<Rightarrow> AddressValidationToken \<Rightarrow> bool" where
  "token_verified api secret timeout version ai from ts token =
    (case avt_kind token of
       RetryToken \<Rightarrow> \<exists>odcid. verify_retry_token api secret (avt_bytes token) version from (ai_dcid ai) timeout ts = Ok odcid
     | NewToken \<Rightarrow> verify_new_token api secret (avt_bytes token) from timeout ts = Ok ())"

text \<open>C7. What it takes to open a connection: a datagram adds a connection to the table only when it is an
  acceptable Initial packet of a version the server supports and the table has room; when the server
  is configured to validate addresses, the packet must carry a token that verifies for the address it
  came from.\<close>

theorem new_connection_validated:
  assumes "handle_new_connection api io data from l ts ecn s = Some s1"
    and "key \<in> set (connection_ids s1)" and "key \<notin> set (connection_ids s)"
  shows "\<exists>version ai. accept_initial_packet api data (cf_quic_versions (sv_config s)) = Some (version, ai)
    \<and> version \<in> set (cf_quic_versions (sv_config s)) \<and> length (connection_ids s) < MAX_CONNECTIONS
    \<and> (\<forall>secret. cf_retry_secret (sv_config s) = Some secret \<longrightarrow>
        (\<exists>token. token_from_packet (ai_token ai) = Some token
          \<and> token_verified api secret (cf_retry_token_timeout (sv_config s)) version ai from ts token))"
proof -
  have new: "sv_connections s1 \<noteq> sv_connections s" using assms(2,3) by (auto simp: connection_ids_def)
  have vn: "version_negotiation_info api data (cf_quic_versions (sv_config s)) = None"
    using assms(1) new by (auto simp: handle_new_connection_def split: option.splits)
  then obtain version ai where a: "accept_initial_packet api data (cf_quic_versions (sv_config s)) = Some (version, ai)"
    using assms(1) new by (auto simp: handle_new_connection_def split: option.splits)
  obtain odcid token retried where t: "check_token api ai version from ts s = TokOk odcid token retried"
    using assms(1) new vn a by (auto simp: handle_new_connection_def split: token_check.splits)
  have room: "length (sv_connections s) < MAX_CONNECTIONS"
    using assms(1) new vn a t by (auto simp: handle_new_connection_def create_connection_def split: if_splits)
  have "\<exists>token. token_from_packet (ai_token ai) = Some token
      \<and> token_verified api secret (cf_retry_token_timeout (sv_config s)) version ai from ts token"
    if "cf_retry_secret (sv_config s) = Some secret" for secret
    using t that by (auto simp: check_token_def token_verified_def effective_retry_secret_def
        split: option.splits AddressValidationTokenKind.splits sum.splits)
  then show ?thesis
    using a room by (auto simp: accept_initial_packet_def connection_ids_def split: option.splits if_splits)
qed

theorem new_connection_validated_witness:
  "handle_new_connection sample_conn_api sample_io first_packet (SockV4 3 4) (SockV4 1 2) 7 0 sample_server = Some serving
    \<and> (\<exists>ai. accept_initial_packet sample_conn_api first_packet (cf_quic_versions (sv_config sample_server)) = Some (V1, ai))
    \<and> length (connection_ids sample_server) < MAX_CONNECTIONS"
proof -
  have n: "sample_key \<in> set (connection_ids serving)" "sample_key \<notin> set (connection_ids sample_server)"
    by (simp_all add: connection_ids_def serving_def sample_server_def)
  have v: "accept_initial_packet sample_conn_api first_packet (cf_quic_versions (sv_config sample_server)) = Some (V1, sample_initial)"
    using sample_versions(2) by (simp add: sample_server_def sample_config_def server_config_new_def)
  show ?thesis using new_connection_validated [OF sample_opens_new n] sample_opens_new v by auto
qed

section \<open>Timers\<close>

lemma sent_frame [simp]:
  "sv_sent (put_connection key sc s) = sv_sent s" "sv_sent (remove_connection key s) = sv_sent s"
  "sv_sent (fold (register_cid key) cs s) = sv_sent s"
  by (simp add: put_connection_def)
     (simp add: remove_connection_def drop_connection_def Let_def split: option.split,
      induction cs arbitrary: s, simp_all add: register_cid_def)

lemma sent_retired [simp]: "sv_sent (remove_retired_cids cs key s) = sv_sent s"
  unfolding remove_retired_cids_def by (induction cs arbitrary: s) (simp_all add: remember_taken_cid_def)

lemma sent_timer [simp]: "sv_sent (handle_timer api io key s) = sv_sent s"
  by (simp add: handle_timer_def register_issued_cids_def Let_def case_prod_beta split: option.split sum.split)

text \<open>When the timers of its connections fire, the server sends nothing: packets that ngtcp2 wants to
  send because of the timer (probes and retransmissions during the handshake) stay unwritten until the
  next datagram of that connection arrives.\<close>

lemma timers_send_nothing: "sv_sent (handle_timers api io s) = sv_sent s"
proof -
  have "sv_sent (fold (handle_timer api io) ks s) = sv_sent s" for ks
    by (induction ks arbitrary: s) simp_all
  then show ?thesis by (simp add: handle_timers_def)
qed

section \<open>Stateless Reset\<close>

lemma reset_loop_reply:
  assumes "reset_writer_length api" and "\<And>n bs. io_rnd io 6 n = Some bs \<Longrightarrow> length bs = n"
  shows "\<exists>ps. sv_sent (reset_loop api io secret data to l ns s) = sv_sent s @ ps \<and> length ps \<le> 1
    \<and> (\<forall>p \<in> set ps. op_remote p = to \<and> length (op_data p) < length data
        \<and> (\<exists>n \<in> set ns. \<exists>dcid. cid_new (take n (drop 1 data)) = Some dcid \<and> \<not> is_taken_cid dcid s))"
proof (induction ns)
  case (Cons n ns)
  show ?case
  proof (cases "cid_new (take n (drop 1 data))")
    case None
    then show ?thesis using Cons by auto
  next
    case (Some dcid)
    show ?thesis
    proof (cases "length data < 1 + n \<or> is_taken_cid dcid s \<or> reset_token api secret dcid = None")
      case True
      then show ?thesis using Cons Some by (auto split: option.split)
    next
      case False
      then obtain token where t: "reset_token api secret dcid = Some token" by blast
      obtain r buf where w: "write_stateless_reset api (io_rnd io 6) (sv_send_buf s) token (length data) = (r, buf)" by fastforce
      have "(\<exists>e. r = Err e) \<or> (\<exists>k. r = Ok k \<and> (k = 0 \<or> k < length data))"
        using reset_written_bound [OF assms(1), of "io_rnd io 6" "sv_send_buf s" token "length data"] assms(2) w by (cases r) auto
      then show ?thesis using False Some t w by (auto simp: send_packets_def Let_def)
    qed
  qed
qed simp

text \<open>C10. A Stateless Reset cannot be used for amplification, loops or against the application: a datagram
  that belongs to no connection is answered with at most one packet, to its sender, strictly shorter than
  the datagram, only when the limiter grants it, and only for a candidate connection ID that has not
  been handed over to the application.\<close>

theorem stateless_reset_reply:
  assumes "reset_writer_length api" and "\<And>n bs. io_rnd io 6 n = Some bs \<Longrightarrow> length bs = n"
  shows "\<exists>ps. sv_sent (send_stateless_reset api io data to l ts s) = sv_sent s @ ps \<and> length ps \<le> 1
    \<and> (\<forall>p \<in> set ps. op_remote p = to \<and> length (op_data p) < length data \<and> fst (try_acquire (unat ts) (sv_limiter s))
        \<and> (\<exists>n \<in> set (sv_short_cid_lengths s). \<exists>dcid. cid_new (take n (drop 1 data)) = Some dcid \<and> \<not> is_taken_cid dcid s))"
proof -
  obtain ok lim where l: "try_acquire (unat ts) (sv_limiter s) = (ok, lim)" by fastforce
  show ?thesis
  proof (cases "ok \<and> sv_stateless_reset_secret s \<noteq> None")
    case True
    then obtain secret where "sv_stateless_reset_secret s = Some secret" by blast
    then show ?thesis
      using True l reset_loop_reply [OF assms(1), of io secret data to l "rev (sv_short_cid_lengths s)" "s\<lparr>sv_limiter := lim\<rparr>"] assms(2)
      by (simp add: send_stateless_reset_def is_taken_cid_def)
  next
    case False
    then show ?thesis using l by (auto simp: send_stateless_reset_def Let_def)
  qed
qed

theorem stateless_reset_reply_witness:
  "\<exists>p. sv_sent (send_stateless_reset sample_conn_api sample_io (replicate 60 5) (SockV4 3 4) (SockV4 1 2) 7 sample_server) = [p]
     \<and> length (op_data p) < 60"
proof -
  have acquire: "try_acquire 7 limiter_new = (True, \<lparr>lim_bucket = 99, lim_last_refill_ts = 0\<rparr>)"
    by (simp add: try_acquire_def refill_def limiter_new_def sat_mul64_def STATELESS_RESET_RATE_def NANOS_PER_SEC_def
        STATELESS_RESET_BURST_def)
  have w: "reset_writer_length sample_conn_api"
    by (simp add: reset_writer_length_def sample_conn_api_simps STATELESS_RESET_TOKEN_LEN_def)
  have "\<exists>p. sv_sent (send_stateless_reset sample_conn_api sample_io (replicate 60 5) (SockV4 3 4) (SockV4 1 2) 7 sample_server) = [p]"
    by (simp add: send_stateless_reset_def sample_server_def sample_io_def acquire reset_secret_generate_def cid_new_def
        is_taken_cid_def routes_is_taken_cid_def routes_new_def reset_token_def write_stateless_reset_def sample_conn_api_simps
        send_packets_def MAX_RANDOM_LEN_def STATELESS_RESET_TOKEN_LEN_def MIN_RANDOM_LEN_def)
  then obtain p where p: "sv_sent (send_stateless_reset sample_conn_api sample_io (replicate 60 5) (SockV4 3 4) (SockV4 1 2) 7 sample_server) = [p]"
    by blast
  then show ?thesis
    using stateless_reset_reply [OF w, of sample_io "replicate 60 5" "SockV4 3 4" "SockV4 1 2" 7 sample_server] p
    by (auto simp: sample_io_def sample_server_def)
qed

section \<open>Fallback to the address\<close>

text \<open>C40. The routes of handed-over connections fall back to the address of the sender for every packet: a
  long header packet with a non-empty, unknown destination connection ID, which the server's own tables
  refuse to resolve by address, is delivered to the handed-over connection of that address. A client
  cannot open a second connection from it.\<close>

theorem address_route_captures_initial:
  assumes "long_header_dcid data = Some c" and "map_of (sv_cid_map s) c = None"
    and "map_of (sr_cid_map (sv_routes s)) c = None" and "map_of (sr_addr_map (sv_routes s)) from = Some key"
  shows "resolve_datagram data from s = None \<and> routes_resolve (sv_routes s) data from = Some key
    \<and> (\<exists>s1. server_handle_datagram api io data from l ts ecn s = Some s1 \<and> sv_connections s1 = sv_connections s)"
proof -
  obtain b bs where d: "data = b # bs" "b AND 0x80 \<noteq> 0" "data ! 5 \<noteq> 0"
    using assms(1) by (cases data) (auto simp: long_header_dcid_def split: if_splits)
  have "resolve_dcid (sv_cid_map s) (sv_short_cid_lengths s) data = None" by (simp add: resolve_long [OF assms(1)] assms(2))
  then have n: "resolve_datagram data from s = None" using d by (simp add: resolve_datagram_def)
  have r: "routes_resolve (sv_routes s) data from = Some key"
    by (simp add: routes_resolve_def resolve_long [OF assms(1)] assms(3,4))
  show ?thesis
    using n r by (simp add: server_handle_datagram_def handoff_to_accepted_def Let_def split: prod.split)
qed

definition address_server :: "(unit, unit) Server" where
  "address_server = sample_server\<lparr>sv_routes := (sv_routes sample_server)\<lparr>sr_addr_map := [(SockV4 3 4, sample_key)]\<rparr>\<rparr>"

theorem address_route_captures_initial_witness:
  "routes_resolve (sv_routes address_server) first_packet (SockV4 3 4) = Some sample_key
    \<and> (\<exists>s1. server_handle_datagram sample_conn_api sample_io first_packet (SockV4 3 4) (SockV4 1 2) 7 0 address_server = Some s1
         \<and> sv_connections s1 = [])"
proof -
  have d: "long_header_dcid first_packet = Some (ConnectionId [7, 8])"
    by (simp add: long_header_dcid_def first_packet_def cid_new_def)
  have "map_of (sv_cid_map address_server) (ConnectionId [7, 8]) = None" "map_of (sr_cid_map (sv_routes address_server)) (ConnectionId [7, 8]) = None"
    "map_of (sr_addr_map (sv_routes address_server)) (SockV4 3 4) = Some sample_key" "sv_connections address_server = []"
    by (simp_all add: address_server_def sample_server_def routes_new_def)
  then show ?thesis using address_route_captures_initial [OF d] by metis
qed

end
