(* ===== verification/TokenProps.thy ===== *)
theory TokenProps
  imports ServerProps
begin

text \<open>
  The round trip of address validation tokens (\<^verbatim>\<open>Server::send_retry\<close>, \<^verbatim>\<open>submit_new_token\<close> and the token check of
  \<^verbatim>\<open>Server::handle_new_connection\<close> in \<^verbatim>\<open>src/tokio-ngtcp2/src/server.rs\<close>, over \<^verbatim>\<open>src/ngtcp2/src/retry.rs\<close>): a client that
  brings back the token it was given, from the same address and in time, is let in with the identity of
  its first packet.
\<close>

section \<open>What the C library promises\<close>

text \<open>A generated token verifies for the parameters it was generated for until the timeout has passed, and
  a Retry token then yields the connection ID that was put into it; it does not verify for another address.\<close>

definition in_time :: "u64 \<Rightarrow> u64 \<Rightarrow> u64 \<Rightarrow> bool" where
  "in_time ts timeout ts1 \<longleftrightarrow> unat ts \<le> unat ts1 \<and> unat ts1 < unat ts + unat timeout \<and> unat ts + unat timeout < 2 ^ 64"

definition retry_tokens_verify :: "('a stateless_api_scheme) \<Rightarrow> bool" where
  "retry_tokens_verify api \<longleftrightarrow>
    (\<forall>buf secret v addr r d ts rv tok addr1 timeout ts1.
       crypto_generate_retry_token2 api buf secret v (sockaddr_to_raw addr) (raw_of r) (raw_of d) ts = (rv, tok) \<and> 0 \<le> rv \<and> cid_ok d \<longrightarrow>
       (in_time ts timeout ts1 \<longrightarrow>
          crypto_verify_retry_token2 api (take (nat rv) tok) secret v (sockaddr_to_raw addr) (raw_of r) timeout ts1 = (0, raw_of d))
     \<and> (fst (sockaddr_to_raw addr1) \<noteq> fst (sockaddr_to_raw addr) \<longrightarrow>
          fst (crypto_verify_retry_token2 api (take (nat rv) tok) secret v (sockaddr_to_raw addr1) (raw_of r) timeout ts1) \<noteq> 0))"

definition regular_tokens_verify :: "('a stateless_api_scheme) \<Rightarrow> bool" where
  "regular_tokens_verify api \<longleftrightarrow>
    (\<forall>buf secret addr ts rv tok timeout ts1.
       crypto_generate_regular_token api buf secret (sockaddr_to_raw addr) ts = (rv, tok) \<and> 0 \<le> rv \<and> in_time ts timeout ts1 \<longrightarrow>
       crypto_verify_regular_token api (take (nat rv) tok) secret (sockaddr_to_raw addr) timeout ts1 = 0)"

lemma cid_new_raw: "cid_ok c \<Longrightarrow> cid_new (raw_cid_bytes (raw_of c)) = Some c"
  by (cases c) (simp add: raw_of_bytes cid_new_Some)

lemma accepted_cid_ok: "accept_initial_packet api data vs = Some (v, ai) \<Longrightarrow> cid_ok (ai_dcid ai)"
  by (auto simp: accept_initial_packet_def accept_initial_def cid_new_Some Let_def split: option.splits if_splits prod.splits)

lemma retry_token_verifies:
  assumes "retry_tokens_verify api" "generate_retry_token api secret v addr r d ts = Ok t" "cid_ok d"
  shows "in_time ts (word_of_nat timeout) ts1 \<Longrightarrow> verify_retry_token api secret (avt_bytes t) v addr r timeout ts1 = Ok d"
    and "fst (sockaddr_to_raw addr1) \<noteq> fst (sockaddr_to_raw addr) \<Longrightarrow>
      \<exists>e. verify_retry_token api secret (avt_bytes t) v addr1 r timeout ts1 = Err e"
proof -
  obtain rv tok where c: "crypto_generate_retry_token2 api (replicate MAX_RETRY_TOKEN_LEN 0) (retry_secret_bytes secret)
      (as_u32 v) (sockaddr_to_raw addr) (raw_of r) (raw_of d) ts = (rv, tok)" by fastforce
  with assms(2) have t: "0 \<le> rv" "avt_bytes t = take (nat rv) tok"
    by (auto simp: generate_retry_token_def split: if_splits)
  note k = assms(1) [unfolded retry_tokens_verify_def, rule_format, OF conjI [OF c conjI [OF t(1) assms(3)]]]
  show "verify_retry_token api secret (avt_bytes t) v addr r timeout ts1 = Ok d" if "in_time ts (word_of_nat timeout) ts1"
    using k that cid_new_raw [OF assms(3)] by (simp add: verify_retry_token_def t)
  show "\<exists>e. verify_retry_token api secret (avt_bytes t) v addr1 r timeout ts1 = Err e"
    if "fst (sockaddr_to_raw addr1) \<noteq> fst (sockaddr_to_raw addr)"
    using k [of "word_of_nat timeout" ts1 addr1] that by (auto simp: verify_retry_token_def t split: prod.split)
qed

section \<open>Retry\<close>

text \<open>What \<^const>\<open>send_retry\<close> does when it sends something: one packet to the client, with a fresh token.\<close>

lemma send_retry_sent:
  assumes "sv_sent (send_retry api io ai v secret to l ts s) \<noteq> sv_sent s"
  obtains retry_scid token n buf where
    "generate_retry_token api secret v to retry_scid (ai_dcid ai) ts = Ok token"
    "write_retry_packet api (sv_send_buf s) v (ai_scid ai) retry_scid (ai_dcid ai) (avt_bytes token) = (Ok n, buf)"
    "sv_sent (send_retry api io ai v secret to l ts s) = sv_sent s @ [outgoing (take n buf) l to]"
  using assms
  by (auto simp: send_retry_def send_packets_def Let_def split: option.splits sum.splits prod.splits if_splits)

text \<open>How the server takes a packet that carries a generated token.\<close>

definition lets_in :: "('c, 's, 'z) conn_api_scheme \<Rightarrow> bytes \<Rightarrow> AddressValidationTokenKind \<Rightarrow> QuicVersion \<Rightarrow> AcceptedInitial
    \<Rightarrow> cid \<Rightarrow> SocketAddr \<Rightarrow> u64 \<Rightarrow> ('c, 's) Server \<Rightarrow> bool" where
  "lets_in api token kind v ai odcid from ts s \<longleftrightarrow>
    (\<forall>io data l ecn. version_negotiation_info api data (cf_quic_versions (sv_config s)) = None \<longrightarrow>
       accept_initial_packet api data (cf_quic_versions (sv_config s)) = Some (v, ai) \<longrightarrow>
       handle_new_connection api io data from l ts ecn s
         = create_connection api io ai v odcid (Some \<lparr>avt_bytes = token, avt_kind = kind\<rparr>) (kind = RetryToken) data from l ts ecn s)"

definition turns_away :: "('c, 's, 'z) conn_api_scheme \<Rightarrow> QuicVersion \<Rightarrow> AcceptedInitial \<Rightarrow> SocketAddr \<Rightarrow> u64
    \<Rightarrow> ('c, 's) Server \<Rightarrow> bool" where
  "turns_away api v ai from ts s \<longleftrightarrow>
    (\<forall>io data l ecn. version_negotiation_info api data (cf_quic_versions (sv_config s)) = None \<longrightarrow>
       accept_initial_packet api data (cf_quic_versions (sv_config s)) = Some (v, ai) \<longrightarrow>
       handle_new_connection api io data from l ts ecn s = Some (send_invalid_token_close api io ai v from l s))"

lemma retry_token_taken:
  assumes con: "retry_tokens_verify api" "tokens_start_with_magic api"
    and g: "generate_retry_token api (effective_retry_secret s) v addr retry_scid odcid ts = Ok token" and ok: "cid_ok odcid"
    and ai: "ai_token ai = avt_bytes token" "ai_dcid ai = retry_scid"
  shows "in_time ts (word_of_nat (cf_retry_token_timeout (sv_config s))) ts1 \<Longrightarrow>
      lets_in api (avt_bytes token) RetryToken v ai odcid addr ts1 s"
    and "fst (sockaddr_to_raw addr1) \<noteq> fst (sockaddr_to_raw addr) \<Longrightarrow> turns_away api v ai addr1 ts1 s"
proof -
  have t: "token_from_packet (avt_bytes token) = Some token" "avt_kind token = RetryToken"
    using token_kind_roundtrip [OF con(2) disjI1 [OF g]] g
    by (auto simp: generate_retry_token_def split: if_splits prod.splits)
  then have tk: "token = \<lparr>avt_bytes = avt_bytes token, avt_kind = RetryToken\<rparr>" by simp
  show "lets_in api (avt_bytes token) RetryToken v ai odcid addr ts1 s"
    if "in_time ts (word_of_nat (cf_retry_token_timeout (sv_config s))) ts1"
    using retry_token_verifies(1) [OF con(1) g ok that] ai t
    by (simp add: lets_in_def handle_new_connection_def check_token_def tk [symmetric])
  show "turns_away api v ai addr1 ts1 s" if "fst (sockaddr_to_raw addr1) \<noteq> fst (sockaddr_to_raw addr)"
    using retry_token_verifies(2) [OF con(1) g ok that, of "cf_retry_token_timeout (sv_config s)" ts1] ai t
    by (auto simp: turns_away_def handle_new_connection_def check_token_def)
qed

text \<open>What a Retry token is worth: whoever sends it back from the same address and in time, to the ID the Retry
  named, is let in as the sender of the first packet, and nobody else is.\<close>

definition honours :: "('c, 's, 'z) conn_api_scheme \<Rightarrow> ServerConfig \<Rightarrow> QuicVersion \<Rightarrow> cid \<Rightarrow> SocketAddr \<Rightarrow> u64 \<Rightarrow> cid \<Rightarrow> bytes \<Rightarrow> bool" where
  "honours api cf v odcid from ts retry_scid token \<longleftrightarrow>
    (\<forall>ai ts1 s. sv_config s = cf \<longrightarrow> ai_token ai = token \<longrightarrow> ai_dcid ai = retry_scid \<longrightarrow>
       (in_time ts (word_of_nat (cf_retry_token_timeout cf)) ts1 \<longrightarrow>
          lets_in api token RetryToken v ai odcid from ts1 (s :: ('c, 's) Server))
     \<and> (\<forall>other. fst (sockaddr_to_raw other) \<noteq> fst (sockaddr_to_raw from) \<longrightarrow> turns_away api v ai other ts1 s))"

text \<open>C8. The Retry round trip: a server that validates addresses answers a first Initial without a token
  with nothing or one Retry packet, to the client, and keeps no state. When the client comes back
  with the token of that packet, from the same address and in time, to the connection ID the
  Retry named, the server creates the connection with the connection ID of the first packet as the
  original one; the same token from any other address is refused.\<close>

theorem retry_roundtrip:
  assumes "retry_tokens_verify api" and "tokens_start_with_magic api"
    and "cf_retry_secret (sv_config s) = Some secret"
    and "version_negotiation_info api data (cf_quic_versions (sv_config s)) = None"
    and "accept_initial_packet api data (cf_quic_versions (sv_config s)) = Some (v, ai)" and "ai_token ai = []"
    and "handle_new_connection api io data from l ts ecn s = Some s1"
  shows "sv_connections s1 = sv_connections s \<and> sv_cid_map s1 = sv_cid_map s \<and> (sv_sent s1 = sv_sent s \<or>
    (\<exists>retry_scid token n buf.
       write_retry_packet api (sv_send_buf s) v (ai_scid ai) retry_scid (ai_dcid ai) token = (Ok n, buf)
     \<and> sv_sent s1 = sv_sent s @ [outgoing (take n buf) l from]
     \<and> honours api (sv_config s) v (ai_dcid ai) from ts retry_scid token))"
proof -
  have s1: "s1 = send_retry api io ai v secret from l ts s"
    using assms(3-7) by (simp add: handle_new_connection_def check_token_def token_from_packet_def token_kind_def)
  have frame: "sv_connections s1 = sv_connections s \<and> sv_cid_map s1 = sv_cid_map s"
    by (simp add: s1 send_retry_def send_packets_def Let_def split: option.split sum.split prod.split)
  show ?thesis
  proof (cases "sv_sent s1 = sv_sent s")
    case True
    then show ?thesis using frame by simp
  next
    case False
    then obtain rs t n buf where g: "generate_retry_token api secret v from rs (ai_dcid ai) ts = Ok t"
      and w: "write_retry_packet api (sv_send_buf s) v (ai_scid ai) rs (ai_dcid ai) (avt_bytes t) = (Ok n, buf)"
      and p: "sv_sent s1 = sv_sent s @ [outgoing (take n buf) l from]"
      unfolding s1 by (rule send_retry_sent)
    have "effective_retry_secret s2 = secret" if "sv_config s2 = sv_config s" for s2 :: "('a, 'b) Server"
      using assms(3) that by (simp add: effective_retry_secret_def)
    then have "honours api (sv_config s) v (ai_dcid ai) from ts rs (avt_bytes t)"
      unfolding honours_def
      using retry_token_taken [OF assms(1,2) _ accepted_cid_ok [OF assms(5)], of _ v "from" rs ts t] g by metis
    then show ?thesis using w p frame by blast
  qed
qed

text \<open>Tokens for concrete runs: the address and the connection ID in the clear.\<close>

definition token_api :: "(unit, unit) conn_api" where
  "token_api = sample_conn_api\<lparr>
     crypto_generate_retry_token2 := (\<lambda>buf secret v a r d ts.
       (int (129 + length (raw_cid_bytes d)), NGTCP2_CRYPTO_TOKEN_MAGIC_RETRY2 # fst a @ raw_cid_bytes d)),
     crypto_verify_retry_token2 := (\<lambda>tok secret v a r timeout ts.
       (if take 128 (drop 1 tok) = fst a then 0 else - 1, raw_of (ConnectionId (drop 129 tok))))\<rparr>"

lemma length_sockaddr: "length (fst (sockaddr_to_raw addr)) = 128"
  by (cases addr) (simp_all add: pad_storage_def sizeof_sockaddr_storage_def le_bytes_def)

lemma token_api_contracts: "retry_tokens_verify token_api" "regular_tokens_verify token_api" "tokens_start_with_magic token_api"
proof -
  have r: "raw_of (ConnectionId (cid_bytes d)) = raw_of d" for d by (cases d) simp
  show "retry_tokens_verify token_api"
    by (auto simp: retry_tokens_verify_def token_api_def length_sockaddr raw_of_bytes r)
  show "regular_tokens_verify token_api"
    by (auto simp: regular_tokens_verify_def token_api_def sample_conn_api_simps)
  show "tokens_start_with_magic token_api"
    by (auto simp: tokens_start_with_magic_def token_api_def sample_conn_api_simps)
qed

definition retry_server :: "(unit, unit) Server" where
  "retry_server = sample_server\<lparr>sv_config := sample_config\<lparr>cf_retry_secret := Some (RetrySecret [1])\<rparr>\<rparr>"

lemma token_versions:
  "version_negotiation_info token_api first_packet (cf_quic_versions (sv_config retry_server)) = None"
  "accept_initial_packet token_api first_packet (cf_quic_versions (sv_config retry_server)) = Some (V1, sample_initial)"
  by (simp_all add: version_negotiation_info_def accept_initial_packet_def accept_initial_def decode_packet_version_def
      token_api_def retry_server_def sample_config_def server_config_new_def first_packet_def sample_conn_api_simps cid_new_def
      from_u32_def NGTCP2_PROTO_VER_V1_def raw_cid_bytes_def)

theorem retry_roundtrip_witness:
  "\<exists>s1 retry_scid token. handle_new_connection token_api sample_io first_packet (SockV4 3 4) (SockV4 1 2) 7 0 retry_server = Some s1
     \<and> sv_sent s1 \<noteq> [] \<and> sv_connections s1 = []
     \<and> honours token_api (sv_config retry_server) V1 (ConnectionId [7, 8]) (SockV4 3 4) 7 retry_scid token"
proof -
  let ?s1 = "send_retry token_api sample_io sample_initial V1 (RetrySecret [1]) (SockV4 3 4) (SockV4 1 2) 7 retry_server"
  have sec: "cf_retry_secret (sv_config retry_server) = Some (RetrySecret [1])" by (simp add: retry_server_def)
  have h: "handle_new_connection token_api sample_io first_packet (SockV4 3 4) (SockV4 1 2) 7 0 retry_server = Some ?s1"
    using token_versions sec by (simp add: handle_new_connection_def check_token_def token_from_packet_def token_kind_def)
  have e: "sv_sent retry_server = []" "sv_connections retry_server = []" by (simp_all add: retry_server_def sample_server_def)
  have "sv_sent ?s1 \<noteq> []"
    by (simp add: send_retry_def generate_scid_def cid_random_def sample_io_def generate_retry_token_def token_api_def
        write_retry_packet_def sample_conn_api_simps send_packets_def retry_server_def sample_config_def server_config_new_def
        cid_new_def DEFAULT_SCID_LEN_def Let_def)
  then show ?thesis
    using retry_roundtrip [OF token_api_contracts(1,3) sec token_versions _ h] h e by auto
qed

section \<open>NEW_TOKEN\<close>

lemma new_token_verifies:
  assumes "regular_tokens_verify api" "generate_new_token api secret addr ts = Ok t" "in_time ts (word_of_nat timeout) ts1"
  shows "verify_new_token api secret (avt_bytes t) addr timeout ts1 = Ok ()"
proof -
  obtain rv tok where c: "crypto_generate_regular_token api (replicate MAX_NEW_TOKEN_LEN 0) (retry_secret_bytes secret)
      (sockaddr_to_raw addr) ts = (rv, tok)" by fastforce
  with assms(2) have t: "0 \<le> rv" "avt_bytes t = take (nat rv) tok"
    by (auto simp: generate_new_token_def split: if_splits)
  show ?thesis
    using assms(1) [unfolded regular_tokens_verify_def, rule_format, OF conjI [OF c conjI [OF t(1) assms(3)]]]
    by (simp add: verify_new_token_def t(2))
qed

text \<open>C21. The NEW_TOKEN round trip: a token is handed to ngtcp2 at most once per connection and only for a client
  whose address is validated; when the client opens a later connection with it, from that address and in
  time, a server with the same secret takes the address as validated, without a Retry, and keeps the
  connection ID of the packet as the original one.\<close>

theorem new_token_roundtrip:
  assumes "regular_tokens_verify api" and "tokens_start_with_magic api"
    and "sc_new_token_secret sc = Some (effective_retry_secret s)"
    and "server_submit_new_token api io sc = sc1" and "sc1 \<noteq> sc"
  shows "\<not> sc_new_token_submitted sc \<and> sc_address_validated sc
    \<and> (\<exists>token r. submit_new_token api token (sc_conn sc) = (r, sc_conn sc1)
        \<and> (r = Ok () \<longrightarrow> server_submit_new_token api io1 sc1 = sc1)
        \<and> (\<forall>ai v ts1. ai_token ai = token \<longrightarrow>
             in_time (io_now io) (word_of_nat (cf_retry_token_timeout (sv_config s))) ts1 \<longrightarrow>
             lets_in api token NewToken v ai (ai_dcid ai) (sc_remote_addr sc) ts1 s))"
proof -
  have pre: "\<not> sc_new_token_submitted sc" "sc_address_validated sc"
    using assms(4,5) by (auto simp: server_submit_new_token_def split: if_splits)
  then obtain t where g: "generate_new_token api (effective_retry_secret s) (sc_remote_addr sc) (io_now io) = Ok t"
    using assms(3-5) by (auto simp: server_submit_new_token_def split: sum.splits)
  obtain r c where sub: "submit_new_token api (avt_bytes t) (sc_conn sc) = (r, c)" by fastforce
  have c: "sc_conn sc1 = c" "r = Ok () \<Longrightarrow> sc_new_token_submitted sc1"
    using assms(3,4) pre g sub by (auto simp: server_submit_new_token_def Let_def split: sum.splits)
  have "avt_kind t = NewToken" using g by (auto simp: generate_new_token_def split: if_splits prod.splits)
  then have tk: "t = \<lparr>avt_bytes = avt_bytes t, avt_kind = NewToken\<rparr>" "avt_kind t = NewToken" by simp_all
  have "lets_in api (avt_bytes t) NewToken v ai (ai_dcid ai) (sc_remote_addr sc) ts1 s"
    if "ai_token ai = avt_bytes t" "in_time (io_now io) (word_of_nat (cf_retry_token_timeout (sv_config s))) ts1" for ai v ts1
    using new_token_verifies [OF assms(1) g that(2)] token_kind_roundtrip [OF assms(2) disjI2 [OF g]] that(1) tk(2)
    by (simp add: lets_in_def handle_new_connection_def check_token_def tk(1) [symmetric])
  moreover have "r = Ok () \<Longrightarrow> server_submit_new_token api io1 sc1 = sc1"
    using c(2) by (simp add: server_submit_new_token_def)
  ultimately show ?thesis using pre sub c(1) by blast
qed

definition token_conn :: "(unit, unit) ServerConnection" where
  "token_conn = sample_server_conn\<lparr>sc_address_validated := True, sc_new_token_secret := Some (effective_retry_secret retry_server)\<rparr>"

theorem new_token_roundtrip_witness:
  "\<exists>token. lets_in token_api token NewToken V1 (sample_initial\<lparr>ai_token := token\<rparr>) (ConnectionId [7, 8]) (SockV4 3 4) 8 retry_server"
proof -
  have c: "sc_new_token_secret token_conn = Some (effective_retry_secret retry_server)" by (simp add: token_conn_def)
  have "sc_new_token_submitted (server_submit_new_token token_api sample_io token_conn)"
    by (simp add: server_submit_new_token_def token_conn_def sample_server_conn_def generate_new_token_def token_api_def
        submit_new_token_def sample_conn_api_simps check_ngtcp2_def)
  then have n: "server_submit_new_token token_api sample_io token_conn \<noteq> token_conn"
    by (auto simp: token_conn_def sample_server_conn_def)
  have "in_time (io_now sample_io) (word_of_nat (cf_retry_token_timeout (sv_config retry_server))) 8"
    by (simp add: in_time_def sample_io_def retry_server_def sample_config_def server_config_new_def DEFAULT_RETRY_TOKEN_TIMEOUT_def)
  moreover have "sc_remote_addr token_conn = SockV4 3 4" by (simp add: token_conn_def sample_server_conn_def)
  ultimately obtain token where "\<And>ai. ai_token ai = token \<Longrightarrow>
      lets_in token_api token NewToken V1 ai (ai_dcid ai) (SockV4 3 4) 8 retry_server"
    using new_token_roundtrip [OF token_api_contracts(2,3) c refl n, of sample_io] by auto
  from this [of "sample_initial\<lparr>ai_token := token\<rparr>"] show ?thesis by auto
qed

end
