(* ===== verification/AcceptProps.thy ===== *)
theory AcceptProps
  imports ServerProps
begin

text \<open>
  The accept loop (\<^verbatim>\<open>Server::accept\<close> in \<^verbatim>\<open>src/tokio-ngtcp2/src/server.rs\<close>) as a whole: it is a run of the system of
  \<open>System\<close>, every datagram and timer is handled to the end without a panic, and it hands out exactly
  established connections.
\<close>

section \<open>Connections in the table have no data waiting\<close>

text \<open>The application can write only after the hand-over, so that the table of pending streams of a
  connection is empty as long as the server owns it.\<close>

definition untouched :: "('c, 's) Server \<Rightarrow> bool" where
  "untouched s \<longleftrightarrow> (\<forall>sc \<in> snd ` set (sv_connections s). sc_pending sc = pending_new)"

lemma pending_submit [simp]: "sc_pending (server_submit_new_token api io sc) = sc_pending sc"
  by (simp add: server_submit_new_token_def Let_def split: option.split sum.split prod.split)

lemma pending_take_event [simp]: "sc_pending (take_event api io ev sc) = sc_pending sc"
  by (simp add: take_event_def Let_def split: ConnectionEvent.split)

lemma pending_drain [simp]: "sc_pending (drain_events api io sc) = sc_pending sc"
proof (induction api io sc rule: drain_events.induct)
  case (1 api io sc)
  then show ?case by (subst drain_events.simps) (auto split: prod.split option.split)
qed

lemma pending_read [simp]: "sc_pending (snd (read_packet api io l from data ts ecn sc)) = sc_pending sc"
  by (simp add: read_packet_def split: prod.split)

lemma write_nothing_pending:
  assumes "write_packets api pending_new buf ts c = Some (r, p1, buf1, c1)"
  shows "p1 = pending_new"
proof -
  have "ordered_ids pending_new = []" "pending_is_empty pending_new"
    by (simp_all add: ordered_ids_def pending_is_empty_def pending_new_def)
  then show ?thesis
    using assms unfolding write_packets_def
    by (subst (asm) write_loop.simps) (auto simp: bind_eq_Some_conv split: sum.splits, metis sum.exhaust)
qed

lemma flush_pending:
  assumes "flush_to_packets api io ts sc = Some (r, sc1)" "sc_pending sc = pending_new"
  shows "sc_pending sc1 = pending_new"
proof -
  obtain res p1 buf1 c1 where w: "write_packets api pending_new (sc_send_buf sc) ts (sc_conn sc) = Some (res, p1, buf1, c1)"
    using assms by (auto simp: flush_to_packets_def)
  show ?thesis using assms(1) w write_nothing_pending [OF w] by (auto simp: flush_to_packets_def assms(2) Let_def split: prod.splits)
qed

lemma flush_returns:
  assumes "write_contract api" "send_budget api budget" "reachable api ssl (sc_conn sc)" "sc_pending sc = pending_new"
  obtains r sc1 where "flush_to_packets api io ts sc = Some (r, sc1)" "sc_pending sc1 = pending_new"
proof -
  obtain y where "write_packets api (sc_pending sc) (sc_send_buf sc) ts (sc_conn sc) = Some y"
    using write_loop_returns [OF assms(1-3) pending_ok_new, of ts "[]" "sc_send_buf sc"] assms(4)
    by (auto simp: write_packets_def)
  then obtain r sc1 where "flush_to_packets api io ts sc = Some (r, sc1)"
    by (metis (no_types, lifting) flush_to_packets_def option.simps(9) surj_pair)
  then show ?thesis using that flush_pending [OF _ assms(4)] by blast
qed

lemma untouched_frame [simp]:
  "untouched (send_packets ps s) = untouched s" "untouched (s\<lparr>sv_send_buf := b\<rparr>) = untouched s"
  "untouched (fold (register_cid key) cs s) = untouched s" "untouched (remove_retired_cids cs key s) = untouched s"
  "untouched (s\<lparr>sv_heap := h\<rparr>) = untouched s" "untouched (s\<lparr>sv_routes := r\<rparr>) = untouched s"
  by (simp_all add: untouched_def send_packets_def)

lemma untouched_put: "untouched s \<Longrightarrow> sc_pending sc = pending_new \<Longrightarrow> untouched (put_connection key sc s)"
proof -
  assume "untouched s" "sc_pending sc = pending_new"
  then have "\<forall>sc \<in> snd ` set (AList.update key sc (sv_connections s)). sc_pending sc = pending_new"
    unfolding untouched_def by (rule ball_update)
  moreover have "sv_connections (put_connection key sc s) = AList.update key sc (sv_connections s)"
    by (simp add: put_connection_def)
  ultimately show ?thesis unfolding untouched_def by metis
qed

lemma untouched_insert: "untouched s \<Longrightarrow> sc_pending sc = pending_new \<Longrightarrow> untouched (insert_connection key sc s)"
proof -
  assume "untouched s" "sc_pending sc = pending_new"
  moreover have "untouched (drop_connection key s) = untouched s" by (simp add: drop_connection_def split: option.split)
  moreover have "insert_connection key sc s = put_connection key sc (drop_connection key s)"
    by (simp add: insert_connection_def put_connection_def Let_def)
  ultimately show ?thesis by (simp add: untouched_put)
qed

lemma untouched_remove: "untouched s \<Longrightarrow> untouched (remove_connection key s)"
  by (auto simp: untouched_def remove_connection_def drop_connection_def AList.delete_eq Let_def split: option.split)

lemma untouched_conn: "untouched s \<Longrightarrow> map_of (sv_connections s) key = Some sc \<Longrightarrow> sc_pending sc = pending_new"
  by (force simp: untouched_def dest: map_of_SomeD)

section \<open>Every handler returns\<close>

lemma close_packets_returns: "\<exists>ps. close_packets data l r ecn = Some ps"
  using sp.split_total [of data] by (auto simp: close_packets_def)

lemma conn_error_returns:
  assumes "untouched s"
  shows "\<exists>s1. handle_conn_error api io key e from l s = Some s1 \<and> untouched s1"
proof (cases "map_of (sv_connections s) key")
  case None
  then show ?thesis using assms untouched_remove by (auto simp: handle_conn_error_def Let_def)
next
  case (Some sc)
  have p: "untouched (put_connection key (sc\<lparr>sc_conn := c\<rparr>) (s\<lparr>sv_send_buf := b\<rparr>))" for c b
    using assms untouched_conn [OF assms Some] by (intro untouched_put) simp_all
  obtain r buf c where w: "conn_write_close api (sv_send_buf s)
      (case e of Ngtcp2 _ code \<Rightarrow> io_infer_error io code | _ \<Rightarrow> 0) [] (io_now io) (sc_conn sc) = (r, buf, c)" by (metis surj_pair)
  obtain ps where ps: "(case r of Inr written \<Rightarrow> if written > 0 then close_packets (take written buf) l from 0 else Some []
      | Inl _ \<Rightarrow> Some []) = Some ps"
    using close_packets_returns [of _ l "from" 0] by (cases r; fastforce)
  show ?thesis
    using assms untouched_remove p by (auto simp: handle_conn_error_def Some w ps Let_def)
qed

lemma existing_returns:
  assumes con: "write_contract api" "send_budget api budget" and s: "conns_all (reachable api ssl) s" "untouched s"
  shows "\<exists>s1. handle_existing_connection api io key data from l ts ecn s = Some s1 \<and> untouched s1"
proof (cases "map_of (sv_connections s) key")
  case None
  then show ?thesis using s(2) by (simp add: handle_existing_connection_def)
next
  case (Some sc)
  have r: "reachable api ssl (sc_conn sc)" using s(1) Some by (force simp: conns_all_def dest: map_of_SomeD)
  obtain result sc1 where p: "read_packet api io l from data ts ecn sc = (result, sc1)" by fastforce
  have c1: "reachable api ssl (sc_conn sc1)" "sc_pending sc1 = pending_new"
    using op_closed_read_packet [OF op_closed_reachable r, of io l "from" data ts ecn]
      pending_read [of api io l "from" data ts ecn sc] untouched_conn [OF s(2) Some] p by simp_all
  obtain pr sc2 where f: "flush_to_packets api io ts sc1 = Some (pr, sc2)" "sc_pending sc2 = pending_new"
    by (rule flush_returns [OF con c1])
  have u: "untouched (put_connection key (sc2\<lparr>sc_conn := c\<rparr>) s)" for c using s(2) f(2) by (intro untouched_put) simp_all
  show ?thesis
    using Some p f(1) u
    by (cases result) (auto simp: handle_existing_connection_def Let_def case_prod_beta intro!: conn_error_returns)
qed

lemma reset_connections: "sv_connections (send_stateless_reset api io data to l ts s) = sv_connections s"
proof -
  have "sv_connections (reset_loop api io secret data to l ns s) = sv_connections s" for secret ns and s :: "('a, 'b) Server"
    by (induction ns arbitrary: s) (auto simp: send_packets_def Let_def split: option.split sum.split prod.split)
  then show ?thesis by (simp add: send_stateless_reset_def Let_def split: option.split prod.split)
qed

lemma untouched_replies [simp]:
  "untouched (send_retry api io ai version secret to l ts s) = untouched s"
  "untouched (send_stateless_reset api io data to l ts s) = untouched s"
  by (simp_all add: untouched_def reset_connections)

lemma establish_returns:
  assumes con: "write_contract api" "send_budget api budget" and s: "untouched s"
    and sc: "reachable api ssl (sc_conn sc)" "sc_pending sc = pending_new"
  shows "\<exists>s1. establish api io ai version scid key odcid retried preferred data from l ts ecn sc s = Some s1 \<and> untouched s1"
proof -
  obtain result sc1 where p: "read_packet api io l from data ts ecn sc = (result, sc1)" by fastforce
  have c1: "reachable api ssl (sc_conn sc1)" "sc_pending sc1 = pending_new"
    using op_closed_read_packet [OF op_closed_reachable sc(1), of io l "from" data ts ecn]
      pending_read [of api io l "from" data ts ecn sc] sc(2) p by simp_all
  obtain pr sc2 where f: "flush_to_packets api io ts sc1 = Some (pr, sc2)" "sc_pending sc2 = pending_new"
    by (rule flush_returns [OF con c1])
  define s2 where "s2 = register_routes scid key odcid retried preferred from s"
  have s2: "untouched s2" using s by (simp add: untouched_def s2_def)
  have u: "untouched (put_connection key (sc2\<lparr>sc_conn := c\<rparr>) (fold (register_cid key) cs (insert_connection key sc2 s2)))" for c cs
    using untouched_insert [OF s2 f(2), of key] f(2) by (intro untouched_put) simp_all
  show ?thesis
    using p f(1) u s
    by (cases result) (auto simp: establish_def s2_def [symmetric] register_issued_cids_def Let_def case_prod_beta intro!: conn_error_returns)
qed

lemma start_returns:
  assumes con: "write_contract api" "send_budget api budget" and s: "untouched s"
  shows "\<exists>s1. start_connection api io ai version odcid token retried scid key data from l ts ecn s = Some s1 \<and> untouched s1"
proof (cases "create_session (io_new_ssl io) 1 (sv_tls_ctx s)")
  case (Inl e)
  then show ?thesis using s by (simp add: start_connection_def)
next
  case (Inr t)
  obtain params pc where n: "new_params api io odcid scid retried s = (params, pc)" by fastforce
  obtain r h where w: "server_new api (io_ssl io) empty_mem (ai_scid ai) scid l from version t params (new_settings ts token s) (sv_heap s)
      = (r, h)" by fastforce
  show ?thesis
  proof (cases r)
    case (Inl e)
    then show ?thesis using s Inr n w by (simp add: start_connection_def)
  next
    case c: (Inr c)
    have "reachable api (io_ssl io) c" by (rule new_connsD [OF new_conns_reachable w [unfolded c]])
    then show ?thesis
      using Inr n w c establish_returns [OF con, of "s\<lparr>sv_heap := h\<rparr>" "io_ssl io"] s
      by (simp add: start_connection_def new_server_connection_def)
  qed
qed

lemma new_connection_returns:
  assumes con: "write_contract api" "send_budget api budget" and s: "untouched s"
  shows "\<exists>s1. handle_new_connection api io data from l ts ecn s = Some s1 \<and> untouched s1"
  using s start_returns [OF con s]
  by (auto simp: handle_new_connection_def create_connection_def untouched_def split: option.split token_check.split)

lemma datagram_returns:
  assumes con: "write_contract api" "send_budget api budget" and s: "conns_all (reachable api ssl) s" "untouched s"
  shows "\<exists>s1. server_handle_datagram api io data from l ts ecn s = Some s1 \<and> untouched s1"
proof -
  have "untouched (snd (handoff_to_accepted data from l ecn s))" 
    using s(2) by (simp add: handoff_to_accepted_def Let_def split: option.split prod.split)
  then show ?thesis
    using existing_returns [OF con s] new_connection_returns [OF con] 
    by (auto simp: server_handle_datagram_def split: option.split prod.split list.split)
qed

section \<open>The loop\<close>

lemma fold_remove_connections:
  "sv_connections (fold remove_connection ks s) = filter (\<lambda>(k, _). k \<notin> set ks) (sv_connections s)"
  by (induction ks arbitrary: s)
     (auto simp: remove_connection_def drop_connection_def AList.delete_eq Let_def case_prod_unfold
        intro!: filter_cong split: option.split)

lemma remove_closed_set:
  "set (sv_connections (remove_closed_connections api s)) \<subseteq> set (sv_connections s)"
  "(k, sc) \<in> set (sv_connections (remove_closed_connections api s)) \<Longrightarrow>
    \<not> is_in_closing_period api (sc_conn sc) \<and> \<not> is_in_draining_period api (sc_conn sc)"
  by (auto simp: remove_closed_connections_def fold_remove_connections Let_def case_prod_unfold image_iff)

lemma untouched_subset: "set (sv_connections s1) \<subseteq> set (sv_connections s) \<Longrightarrow> untouched s \<Longrightarrow> untouched s1"
  by (auto simp: untouched_def)

lemma untouched_timers: "untouched s \<Longrightarrow> untouched (handle_timers api io s)"
proof -
  have t: "untouched (handle_timer api io key s)" if "untouched s" for key and s :: "('a, 'b) Server"
    using that untouched_conn [OF that]
    by (auto simp: handle_timer_def register_issued_cids_def Let_def case_prod_beta
        intro!: untouched_put untouched_remove split: option.split sum.split)
  have "untouched (fold (handle_timer api io) ks s)" if "untouched s" for ks and s :: "('a, 'b) Server"
    using that by (induction ks arbitrary: s) (simp_all add: t)
  then show "untouched s \<Longrightarrow> untouched (handle_timers api io s)" by (simp add: handle_timers_def)
qed

text \<open>One look at the table.\<close>

lemma accept_ready_cases:
  assumes d: "distinct (map fst (sv_connections s))"
  obtains (waiting) s1 where "accept_ready api s = Some (None, s1)" "s1 = remove_closed_connections api s"
      "\<forall>sc \<in> snd ` set (sv_connections s1). \<not> is_handshake_completed api (sc_conn sc)"
  | (taken) key a s1 where "accept_ready api s = Some (Some a, s1)"
      "take_connection key (remove_closed_connections api s) = Some (a, s1)"
      "is_handshake_completed api (ac_conn a)" "\<not> is_in_closing_period api (ac_conn a) \<and> \<not> is_in_draining_period api (ac_conn a)"
proof -
  let ?s = "remove_closed_connections api s"
  have d1: "distinct (map fst (sv_connections ?s))"
    using d by (simp add: remove_closed_connections_def fold_remove_connections Let_def distinct_map_filter)
  show ?thesis
  proof (cases "find (\<lambda>(_, sc). is_handshake_completed api (sc_conn sc)) (sv_connections ?s)")
    case None
    moreover from this have "\<forall>sc \<in> snd ` set (sv_connections ?s). \<not> is_handshake_completed api (sc_conn sc)"
      by (auto simp: find_None_iff)
    ultimately show ?thesis by (intro waiting [of ?s]) (simp_all add: accept_ready_def)
  next
    case (Some x)
    obtain key sc where x: "x = (key, sc)" by (cases x)
    have sc: "(key, sc) \<in> set (sv_connections ?s)" "is_handshake_completed api (sc_conn sc)"
      using Some x by (auto simp: find_Some_iff) (metis nth_mem)
    then have m: "map_of (sv_connections ?s) key = Some sc" using d1 by simp
    then obtain a s1 where t: "take_connection key ?s = Some (a, s1)" "ac_inner a = sc"
      by (auto simp: take_connection_def Let_def)
    show ?thesis
      by (rule taken [OF _ t(1)]) (use Some x t sc remove_closed_set(2) [OF sc(1)] in \<open>auto simp: accept_ready_def Let_def\<close>)
  qed
qed

lemma world_distinct: "world_reach api ssl (s, as) \<Longrightarrow> distinct (map fst (sv_connections s))"
  using world_reach_ok by (fastforce simp: world_ok_def server_ok_def tables_ok_def)

lemma world_reachable: "world_reach api ssl (s, as) \<Longrightarrow> conns_all (reachable api ssl) s"
  using world_reach_ok by (fastforce simp: world_ok_def server_ok_def)

lemma world_closed: "world_reach api ssl (s, as) \<Longrightarrow> world_reach api ssl (remove_closed_connections api s, as)"
  by (rule wr_step [OF _ ws_closed])

lemma world_taken:
  "world_reach api ssl (s, as) \<Longrightarrow> take_connection key (remove_closed_connections api s) = Some (a, s1) \<Longrightarrow>
    is_handshake_completed api (ac_conn a) \<Longrightarrow> world_reach api ssl (s1, a # as)"
  by (rule wr_step [OF world_closed ws_take])

lemma untouched_take: "untouched s \<Longrightarrow> take_connection key s = Some (a, s1) \<Longrightarrow> untouched s1"
  by (auto simp: take_connection_def untouched_def AList.delete_eq Let_def split: option.splits)

lemma world_untouched:
  assumes con: "write_contract api" "send_budget api budget" and "world_reach api ssl w"
  shows "untouched (fst w)"
  using assms(3)
proof (induction rule: world_reach.induct)
  case (wr_bind io calls cert key sockets cf chans h s h1)
  then show ?case by (auto simp: server_bind_def untouched_def Let_def split: if_splits prod.splits sum.splits option.splits)
next
  case (wr_step w w1)
  obtain s as where w: "w = (s, as)" by (cases w)
  note r = world_reachable [OF wr_step(1) [unfolded w]]
  show ?case
    using wr_step(2,3)
  proof cases
    case (ws_datagram io data "from" l ts ecn s0 s1 as0)
    then show ?thesis using datagram_returns [OF con r, of io data "from" l ts ecn] wr_step(3) w by auto
  next
    case (ws_closed s0 as0)
    then show ?thesis using wr_step(3) w by (auto intro: untouched_subset [OF remove_closed_set(1)])
  qed (use w in \<open>auto intro: untouched_timers untouched_take\<close>)
qed

definition accept_outcome :: "('c, 's, 'z) conn_api_scheme \<Rightarrow> 's ssl_api \<Rightarrow> ('c, 's) AcceptedConnection list
    \<Rightarrow> ('s io \<times> accept_input) list \<Rightarrow> ('c, 's) AcceptedConnection result poll \<Rightarrow> ('c, 's) Server \<Rightarrow> bool" where
  "accept_outcome api ssl as ins p s1 = (case p of
      Pending \<Rightarrow> world_reach api ssl (s1, as) \<and> (\<forall>sc \<in> snd ` set (sv_connections s1). \<not> is_handshake_completed api (sc_conn sc))
    | Ready (Inl e) \<Rightarrow> world_reach api ssl (s1, as) \<and>
        (\<exists>msg. e = InternalErr (''recv error: '' @ msg) \<and> AcceptRecv (Inl msg) \<in> snd ` set ins)
    | Ready (Inr a) \<Rightarrow> world_reach api ssl (s1, a # as) \<and> is_handshake_completed api (ac_conn a)
        \<and> \<not> is_in_closing_period api (ac_conn a) \<and> \<not> is_in_draining_period api (ac_conn a))"

lemma accept_outcome_Cons: "accept_outcome api ssl as ins p s1 \<Longrightarrow> accept_outcome api ssl as (x # ins) p s1"
  by (auto simp: accept_outcome_def split: poll.splits sum.splits)

text \<open>What one wake-up does to a server that waits: it ends the call with the error of the socket, or leads to
  another state of the system from which the loop goes on.\<close>

lemma accept_wakeup:
  assumes con: "write_contract api" "send_budget api budget" and w: "world_reach api ssl (s, as)" "untouched s"
    and r: "accept_ready api s0 = Some (None, s)" and ssl: "io_ssl io = ssl"
  obtains (error) msg where "i = AcceptRecv (Inl msg)"
      "server_accept api ((io, i) # ins) s0 = Some (Ready (Err (InternalErr (''recv error: '' @ msg))), s)"
  | (again) s1 where "world_reach api ssl (s1, as)" "untouched s1"
      "server_accept api ((io, i) # ins) s0 = server_accept api ins s1"
proof (cases i)
  case AcceptTimer
  have "world_reach api ssl (handle_timers api io s, as)" by (rule wr_step [OF w(1) ws_timers])
  from again [OF this untouched_timers [OF w(2)]] show thesis using AcceptTimer r by simp
next
  case (AcceptRecv m)
  show thesis
  proof (cases m)
    case (Inl msg)
    then show thesis using error AcceptRecv r by simp
  next
    case (Inr b)
    obtain data "from" l ecn where b: "b = (data, from, l, ecn)" by (cases b)
    obtain s2 where h: "server_handle_datagram api io data from l (io_now io) ecn s = Some s2" and u: "untouched s2"
      using datagram_returns [OF con world_reachable [OF w(1)] w(2)] by blast
    have "world_reach api ssl (s2, as)" by (rule wr_step [OF w(1) ws_datagram [OF h]]) (simp add: ssl)
    then show thesis using again [OF _ u] AcceptRecv Inr b h r by simp
  qed
qed

text \<open>C6. The accept loop is total and correct: from any state of the running system, whatever datagrams, timers and
  errors of the socket it is woken up with, it comes back or is still waiting, without a panic and
  without hanging as long as packets use up a budget. A connection it returns is established, neither
  closing nor draining, and handed over as a step of the system; it waits only while no
  connection in the table is established; it fails only when the socket fails.\<close>

theorem accept_total:
  assumes "write_contract api" and "send_budget api budget" and "world_reach api ssl (s, as)"
    and "\<forall>x \<in> set ins. io_ssl (fst x) = ssl"
  shows "\<exists>p s1. server_accept api ins s = Some (p, s1) \<and> accept_outcome api ssl as ins p s1"
proof -
  have "untouched s" using world_untouched [OF assms(1-3)] by simp
  with assms(3,4) show ?thesis
  proof (induction ins arbitrary: s)
    case Nil
    note a = accept_ready_cases [OF world_distinct [OF Nil(1)], of api]
    show ?case
      by (rule a) (use Nil(1) in \<open>auto simp: accept_outcome_def intro: world_closed world_taken\<close>)
  next
    case (Cons x ins)
    obtain io i where x: "x = (io, i)" by (cases x)
    show ?case
    proof (rule accept_ready_cases [OF world_distinct [OF Cons(2)], of api], goal_cases)
      case (2 key a s1)
      then show ?thesis using Cons(2) x by (auto simp: accept_outcome_def intro: world_taken)
    next
      case waiting: (1 s1)
      have w1: "world_reach api ssl (s1, as)" unfolding waiting(2) by (rule world_closed [OF Cons(2)])
      have u1: "untouched s1" unfolding waiting(2) by (rule untouched_subset [OF remove_closed_set(1) Cons(4)])
      have "io_ssl io = ssl" using Cons(3) x by simp
      from accept_wakeup [OF assms(1,2) w1 u1 waiting(1) this, of i ins] show ?thesis unfolding x
      proof cases
        case (1 msg)
        then show "\<exists>p s1. server_accept api ((io, i) # ins) s = Some (p, s1) \<and> accept_outcome api ssl as ((io, i) # ins) p s1"
          using w1 by (simp add: accept_outcome_def)
      next
        case (2 s2)
        then show "\<exists>p s1. server_accept api ((io, i) # ins) s = Some (p, s1) \<and> accept_outcome api ssl as ((io, i) # ins) p s1"
          using Cons(1) [OF 2(1) _ 2(2)] Cons(3) accept_outcome_Cons by (metis list.set_intros(2))
      qed
    qed
  qed
qed

abbreviation (input) sample_wakeups :: "(unit io \<times> accept_input) list" where
  "sample_wakeups \<equiv> [(sample_io, AcceptRecv (Inr (first_packet, SockV4 3 4, SockV4 1 2, 0))), (sample_io, AcceptTimer)]"

theorem accept_total_witness:
  "\<exists>p s1. server_accept quiet_api sample_wakeups sample_server = Some (p, s1)
     \<and> accept_outcome quiet_api sample_ssl [] sample_wakeups p s1"
  by (rule accept_total [OF quiet_contracts(1,4) wr_bind [OF sample_bind]]) (simp add: sample_io_def)



end
