(* ===== verification/Client.thy ===== *)
theory Client
  imports Endpoint
begin

text \<open>
  The client (\<^verbatim>\<open>ClientConfig\<close>, \<^verbatim>\<open>ClientConnection\<close> and \<^verbatim>\<open>Client\<close> in \<^verbatim>\<open>src/tokio-ngtcp2/src/client.rs\<close>). Operations
  that send return the packets they hand to the socket; errors of the socket are only logged in the
  code. The socket is its local address. \<open>None\<close> is a loop that does not end or a panic. A call that
  waits is given the outcome of every \<^verbatim>\<open>tokio::select!\<close>, with the world of the flush before it and that of
  its handler, and is still waiting when these are used up. The receive buffer has no model.
\<close>

section \<open>Configuration\<close>

definition CLIENT_SEND_BUFFER_SIZE :: nat where "CLIENT_SEND_BUFFER_SIZE = 65535"
definition DEFAULT_HANDSHAKE_TIMEOUT :: nat where "DEFAULT_HANDSHAKE_TIMEOUT = 10 * 10 ^ 9"
definition DEFAULT_ALPN :: bytes where "DEFAULT_ALPN = map of_char ''hq-interop''"

record ClientConfig =
  cc_alpn_protocols :: "bytes list"
  cc_verify_peer :: bool
  cc_transport_params :: TransportParams
  cc_datagram :: DatagramConfig
  cc_handshake_timeout :: nat
  cc_qlog_dir :: "string option"
  cc_ca_cert_pem :: "string list"
  cc_quic_version :: QuicVersion
  cc_settings :: Settings

definition client_config_new :: "raw_transport_params \<Rightarrow> raw_settings \<Rightarrow> bytes list \<Rightarrow> ClientConfig" where
  "client_config_new dflt_params dflt_settings alpn =
    \<lparr>cc_alpn_protocols = alpn, cc_verify_peer = True, cc_transport_params = transport_params_new dflt_params,
     cc_datagram = datagram_default, cc_handshake_timeout = DEFAULT_HANDSHAKE_TIMEOUT, cc_qlog_dir = None,
     cc_ca_cert_pem = [], cc_quic_version = V1, cc_settings = settings_new dflt_settings 0\<rparr>"

definition client_with_quic_version :: "QuicVersion \<Rightarrow> ClientConfig \<Rightarrow> ClientConfig" where
  "client_with_quic_version version cc = cc\<lparr>cc_quic_version := version\<rparr>"

definition client_with_settings :: "Settings \<Rightarrow> ClientConfig \<Rightarrow> ClientConfig" where
  "client_with_settings settings cc = cc\<lparr>cc_settings := settings\<rparr>"

definition client_with_verify_peer :: "bool \<Rightarrow> ClientConfig \<Rightarrow> ClientConfig" where
  "client_with_verify_peer b cc = cc\<lparr>cc_verify_peer := b\<rparr>"

definition client_with_transport_params :: "TransportParams \<Rightarrow> ClientConfig \<Rightarrow> ClientConfig" where
  "client_with_transport_params params cc = cc\<lparr>cc_transport_params := params\<rparr>"

definition client_with_datagram :: "DatagramConfig \<Rightarrow> ClientConfig \<Rightarrow> ClientConfig" where
  "client_with_datagram d cc = cc\<lparr>cc_datagram := d\<rparr>"

definition client_with_preferred_versions :: "QuicVersion list \<Rightarrow> ClientConfig \<Rightarrow> ClientConfig" where
  "client_with_preferred_versions versions cc =
    cc\<lparr>cc_settings := (cc_settings cc)\<lparr>s_preferred_versions := versions, s_available_versions := versions\<rparr>\<rparr>"

definition client_with_qlog_dir :: "string \<Rightarrow> ClientConfig \<Rightarrow> ClientConfig" where
  "client_with_qlog_dir dir cc = cc\<lparr>cc_qlog_dir := Some dir\<rparr>"

definition client_with_handshake_timeout :: "nat \<Rightarrow> ClientConfig \<Rightarrow> ClientConfig" where
  "client_with_handshake_timeout timeout cc = cc\<lparr>cc_handshake_timeout := timeout\<rparr>"

definition client_with_ca_cert_pem :: "string \<Rightarrow> ClientConfig \<Rightarrow> ClientConfig" where
  "client_with_ca_cert_pem pem cc = cc\<lparr>cc_ca_cert_pem := cc_ca_cert_pem cc @ [pem]\<rparr>"

definition client_effective_transport_params :: "ClientConfig \<Rightarrow> TransportParams" where
  "client_effective_transport_params cc =
    (if datagram_is_enabled (cc_datagram cc)
     then with_datagram (dg_max_datagram_frame_size (cc_datagram cc)) (cc_transport_params cc)
     else with_datagram 0 (cc_transport_params cc))"

section \<open>Connections\<close>

record ('c, 's) ClientConnection =
  cl_local_addr :: SocketAddr
  cl_remote_addr :: SocketAddr
  cl_tls_ctx :: TlsContext
  cl_conn :: "('c, 's) Connection"
  cl_pending :: PendingStreams
  cl_events :: "TokioEvent list"
  cl_closed :: bool
  cl_send_buf :: bytes
  cl_datagram :: DatagramConfig
  cl_qlog :: QlogWriter

definition client_connection_new :: "SocketAddr \<Rightarrow> SocketAddr \<Rightarrow> TlsContext \<Rightarrow> ('c, 's) Connection \<Rightarrow> DatagramConfig
    \<Rightarrow> QlogWriter \<Rightarrow> ('c, 's) ClientConnection" where
  "client_connection_new local_addr remote_addr ctx c datagram qlog =
    \<lparr>cl_local_addr = local_addr, cl_remote_addr = remote_addr, cl_tls_ctx = ctx, cl_conn = c,
     cl_pending = pending_new, cl_events = [], cl_closed = False,
     cl_send_buf = replicate CLIENT_SEND_BUFFER_SIZE 0, cl_datagram = datagram, cl_qlog = qlog\<rparr>"

text \<open>Queries that are forwarded to the connection.\<close>

definition client_local_addr :: "('c, 's) ClientConnection \<Rightarrow> SocketAddr" where
  "client_local_addr cl = cl_local_addr cl"

definition client_remote_addr :: "('c, 's) ClientConnection \<Rightarrow> SocketAddr" where
  "client_remote_addr cl = cl_remote_addr cl"

definition client_is_handshake_completed :: "('c, 's, 'z) conn_api_scheme \<Rightarrow> ('c, 's) ClientConnection \<Rightarrow> bool" where
  "client_is_handshake_completed api cl = is_handshake_completed api (cl_conn cl)"

definition client_is_in_early_data :: "'s ssl_api \<Rightarrow> ('c, 's) ClientConnection \<Rightarrow> bool" where
  "client_is_in_early_data ssl cl = is_in_early_data ssl (cl_conn cl)"

definition client_is_early_data_accepted :: "'s ssl_api \<Rightarrow> ('c, 's) ClientConnection \<Rightarrow> bool" where
  "client_is_early_data_accepted ssl cl = is_early_data_accepted ssl (cl_conn cl)"

definition client_is_early_data_rejected :: "('c, 's, 'z) conn_api_scheme \<Rightarrow> ('c, 's) ClientConnection \<Rightarrow> bool" where
  "client_is_early_data_rejected api cl = is_early_data_rejected api (cl_conn cl)"

definition client_selected_alpn_protocol :: "'s ssl_api \<Rightarrow> ('c, 's) ClientConnection \<Rightarrow> bytes option" where
  "client_selected_alpn_protocol ssl cl = selected_alpn_protocol ssl (cl_conn cl)"

definition client_negotiated_version :: "('c, 's, 'z) conn_api_scheme \<Rightarrow> ('c, 's) ClientConnection \<Rightarrow> QuicVersion option" where
  "client_negotiated_version api cl = negotiated_version api (cl_conn cl)"

definition client_stats :: "('c, 's, 'z) conn_api_scheme \<Rightarrow> ('c, 's) ClientConnection \<Rightarrow> ConnStats" where
  "client_stats api cl = conn_stats api (cl_conn cl)"

definition client_cwnd_left :: "('c, 's, 'z) conn_api_scheme \<Rightarrow> ('c, 's) ClientConnection \<Rightarrow> u64" where
  "client_cwnd_left api cl = get_cwnd_left api (cl_conn cl)"

definition client_max_stream_data_left :: "('c, 's, 'z) conn_api_scheme \<Rightarrow> StreamId \<Rightarrow> ('c, 's) ClientConnection \<Rightarrow> u64" where
  "client_max_stream_data_left api stream_id cl = get_max_stream_data_left api stream_id (cl_conn cl)"

definition client_max_data_left :: "('c, 's, 'z) conn_api_scheme \<Rightarrow> ('c, 's) ClientConnection \<Rightarrow> u64" where
  "client_max_data_left api cl = get_max_data_left api (cl_conn cl)"

definition client_streams_bidi_left :: "('c, 's, 'z) conn_api_scheme \<Rightarrow> ('c, 's) ClientConnection \<Rightarrow> u64" where
  "client_streams_bidi_left api cl = get_streams_bidi_left api (cl_conn cl)"

definition client_streams_uni_left :: "('c, 's, 'z) conn_api_scheme \<Rightarrow> ('c, 's) ClientConnection \<Rightarrow> u64" where
  "client_streams_uni_left api cl = get_streams_uni_left api (cl_conn cl)"

definition client_remote_transport_params :: "('c, 's, 'z) conn_api_scheme \<Rightarrow> ('c, 's) ClientConnection \<Rightarrow> RemoteTransportParams option" where
  "client_remote_transport_params api cl = remote_transport_params api (cl_conn cl)"

definition client_supports_reset_stream_at :: "('c, 's, 'z) conn_api_scheme \<Rightarrow> ('c, 's) ClientConnection \<Rightarrow> bool" where
  "client_supports_reset_stream_at api cl = supports_reset_stream_at api (cl_conn cl)"

definition client_is_closed :: "('c, 's, 'z) conn_api_scheme \<Rightarrow> ('c, 's) ClientConnection \<Rightarrow> bool" where
  "client_is_closed api cl =
    (cl_closed cl \<or> is_in_closing_period api (cl_conn cl) \<or> is_in_draining_period api (cl_conn cl))"

definition client_has_pending_data :: "('c, 's) ClientConnection \<Rightarrow> bool" where
  "client_has_pending_data cl = (\<not> pending_is_empty (cl_pending cl))"

definition client_remote_max_datagram_frame_size :: "('c, 's, 'z) conn_api_scheme \<Rightarrow> ('c, 's) ClientConnection \<Rightarrow> u64" where
  "client_remote_max_datagram_frame_size api cl =
    (case remote_transport_params api (cl_conn cl) of None \<Rightarrow> 0 | Some p \<Rightarrow> rp_max_datagram_frame_size p)"

definition client_local_max_datagram_frame_size :: "('c, 's) ClientConnection \<Rightarrow> u64" where
  "client_local_max_datagram_frame_size cl =
    (if datagram_is_enabled (cl_datagram cl) then dg_max_datagram_frame_size (cl_datagram cl) else 0)"

definition client_can_send_datagram :: "('c, 's, 'z) conn_api_scheme \<Rightarrow> ('c, 's) ClientConnection \<Rightarrow> bool" where
  "client_can_send_datagram api cl = (datagram_is_enabled (cl_datagram cl) \<and> can_send_datagram api (cl_conn cl))"

text \<open>An operation that only forwards to the connection.\<close>

definition on_conn :: "(('c, 's) Connection \<Rightarrow> 'a \<times> ('c, 's) Connection) \<Rightarrow> ('c, 's) ClientConnection
    \<Rightarrow> 'a \<times> ('c, 's) ClientConnection" where
  "on_conn f cl = (let (x, c) = f (cl_conn cl) in (x, cl\<lparr>cl_conn := c\<rparr>))"

definition client_take_session_ticket :: "('c, 's, 'z) conn_api_scheme \<Rightarrow> ('c, 's) ClientConnection
    \<Rightarrow> SessionTicket option result \<times> ('c, 's) ClientConnection" where
  "client_take_session_ticket api = on_conn (take_session_ticket api)"

definition client_open_bidi_stream :: "('c, 's, 'z) conn_api_scheme \<Rightarrow> ('c, 's) ClientConnection
    \<Rightarrow> StreamId result \<times> ('c, 's) ClientConnection" where
  "client_open_bidi_stream api = on_conn (open_bidi_stream api)"

definition client_open_uni_stream :: "('c, 's, 'z) conn_api_scheme \<Rightarrow> ('c, 's) ClientConnection
    \<Rightarrow> StreamId result \<times> ('c, 's) ClientConnection" where
  "client_open_uni_stream api = on_conn (open_uni_stream api)"

definition client_write_stream :: "('c, 's, 'z) conn_api_scheme \<Rightarrow> StreamId \<Rightarrow> bytes \<Rightarrow> bool \<Rightarrow> ('c, 's) ClientConnection
    \<Rightarrow> nat result \<times> ('c, 's) ClientConnection" where
  "client_write_stream api stream_id data fin cl =
    (if client_is_closed api cl then (Err ConnectionClosedErr, cl)
     else (Ok (length data), cl\<lparr>cl_pending := pending_push stream_id data fin (cl_pending cl)\<rparr>))"

definition client_poll_event :: "('c, 's) ClientConnection \<Rightarrow> TokioEvent option \<times> ('c, 's) ClientConnection" where
  "client_poll_event cl =
    (case cl_events cl of [] \<Rightarrow> (None, cl) | e # es \<Rightarrow> (Some e, cl\<lparr>cl_events := es\<rparr>))"

definition client_flush :: "('c, 's, 'z) conn_api_scheme \<Rightarrow> 's io \<Rightarrow> ('c, 's) ClientConnection
    \<Rightarrow> (unit result \<times> OutgoingPacket list \<times> ('c, 's) ClientConnection) option" where
  "client_flush api io cl =
    (case write_packets api (cl_pending cl) (cl_send_buf cl) (io_now io) (cl_conn cl) of
       None \<Rightarrow> None
     | Some (r, pending, buf, c) \<Rightarrow>
       (let cl = cl\<lparr>cl_conn := c, cl_pending := pending, cl_send_buf := buf\<rparr> in
        case r of
          Inl e \<Rightarrow> Some (Err e, [], cl)
        | Inr packets \<Rightarrow>
          (let cl = (case get_path api (cl_conn cl) of None \<Rightarrow> cl | Some path \<Rightarrow> cl\<lparr>cl_remote_addr := path_remote path\<rparr>);
               (q, c) = qlog_write (io_fs io) (cl_qlog cl) (cl_conn cl)
           in Some (Ok (), packets, cl\<lparr>cl_qlog := q, cl_conn := c\<rparr>))))"

text \<open>The body of the loop of \<^verbatim>\<open>drain_events\<close> for one event.\<close>

definition client_take_event :: "ConnectionEvent \<Rightarrow> ('c, 's) ClientConnection \<Rightarrow> ('c, 's) ClientConnection" where
  "client_take_event ev cl =
    (let cl = (case ev of PathValidated path success \<Rightarrow> if success then cl\<lparr>cl_remote_addr := path_remote path\<rparr> else cl
               | _ \<Rightarrow> cl)
     in cl\<lparr>cl_events := cl_events cl @ [event_from ev]\<rparr>)"

lemma client_take_event_conn [simp]: "cl_conn (client_take_event ev cl) = cl_conn cl"
  by (simp add: client_take_event_def Let_def split: ConnectionEvent.split)

function client_drain_events :: "('c, 's) ClientConnection \<Rightarrow> ('c, 's) ClientConnection" where
  "client_drain_events cl =
    (case poll_event (cl_conn cl) of
       (None, c) \<Rightarrow> cl
     | (Some ev, c) \<Rightarrow> client_drain_events (client_take_event ev (cl\<lparr>cl_conn := c\<rparr>)))"
  by pat_completeness auto

termination
  by (relation "measure (\<lambda>cl. length (queued (cl_conn cl)))") (auto simp: poll_event_def split: list.splits)

declare client_drain_events.simps [simp del]

definition client_push_connection_closed :: "('c, 's, 'z) conn_api_scheme \<Rightarrow> ('c, 's) ClientConnection
    \<Rightarrow> ('c, 's) ClientConnection" where
  "client_push_connection_closed api cl =
    (if cl_closed cl then cl
     else cl\<lparr>cl_closed := True,
             cl_events := cl_events cl @ [closed_event (get_connection_error api (cl_conn cl))]\<rparr>)"

definition client_handle_packet :: "('c, 's, 'z) conn_api_scheme \<Rightarrow> SocketAddr \<Rightarrow> bytes \<Rightarrow> u64 \<Rightarrow> byte
    \<Rightarrow> ('c, 's) ClientConnection \<Rightarrow> ('c, 's) ClientConnection" where
  "client_handle_packet api from data ts ecn cl =
    (let (result, c) = read_pkt api \<lparr>path_local = cl_local_addr cl, path_remote = from\<rparr> \<lparr>pi_ecn = ecn\<rparr> data ts (cl_conn cl);
         cl = client_drain_events (cl\<lparr>cl_conn := c\<rparr>)
     in case result of
          Inr _ \<Rightarrow> cl
        | Inl e \<Rightarrow>
          if classify_connection_error e = Internal
             \<and> (case e of StreamDataBlocked _ \<Rightarrow> False | StreamShutWr _ \<Rightarrow> False | _ \<Rightarrow> True)
          then client_push_connection_closed api cl else cl)"

definition client_extend_max_stream_offset :: "('c, 's, 'z) conn_api_scheme \<Rightarrow> StreamId \<Rightarrow> u64 \<Rightarrow> ('c, 's) ClientConnection
    \<Rightarrow> unit result \<times> ('c, 's) ClientConnection" where
  "client_extend_max_stream_offset api stream_id consumed cl =
    (case extend_max_stream_offset api stream_id consumed (cl_conn cl) of
       (Inl e, c) \<Rightarrow> (Err e, cl\<lparr>cl_conn := c\<rparr>)
     | (Inr _, c) \<Rightarrow> (Ok (), cl\<lparr>cl_conn := extend_max_offset api consumed c\<rparr>))"

definition client_extend_max_streams_bidi :: "('c, 's, 'z) conn_api_scheme \<Rightarrow> nat \<Rightarrow> ('c, 's) ClientConnection
    \<Rightarrow> ('c, 's) ClientConnection" where
  "client_extend_max_streams_bidi api n cl = cl\<lparr>cl_conn := extend_max_streams_bidi api n (cl_conn cl)\<rparr>"

definition client_extend_max_streams_uni :: "('c, 's, 'z) conn_api_scheme \<Rightarrow> nat \<Rightarrow> ('c, 's) ClientConnection
    \<Rightarrow> ('c, 's) ClientConnection" where
  "client_extend_max_streams_uni api n cl = cl\<lparr>cl_conn := extend_max_streams_uni api n (cl_conn cl)\<rparr>"

definition client_forget_pending :: "StreamId \<Rightarrow> ('c, 's) ClientConnection \<Rightarrow> ('c, 's) ClientConnection" where
  "client_forget_pending stream_id cl = cl\<lparr>cl_pending := pending_remove stream_id (cl_pending cl)\<rparr>"

definition client_reset_stream :: "('c, 's, 'z) conn_api_scheme \<Rightarrow> StreamId \<Rightarrow> u64 \<Rightarrow> ('c, 's) ClientConnection
    \<Rightarrow> unit result \<times> ('c, 's) ClientConnection" where
  "client_reset_stream api stream_id error_code cl =
    on_conn (shutdown_stream_write api stream_id error_code) (client_forget_pending stream_id cl)"

definition client_reset_stream_reliable :: "('c, 's, 'z) conn_api_scheme \<Rightarrow> StreamId \<Rightarrow> u64 \<Rightarrow> ('c, 's) ClientConnection
    \<Rightarrow> unit result \<times> ('c, 's) ClientConnection" where
  "client_reset_stream_reliable api stream_id error_code cl =
    on_conn (shutdown_stream_write_reliable api stream_id error_code) (client_forget_pending stream_id cl)"

definition client_stop_sending :: "('c, 's, 'z) conn_api_scheme \<Rightarrow> StreamId \<Rightarrow> u64 \<Rightarrow> ('c, 's) ClientConnection
    \<Rightarrow> unit result \<times> ('c, 's) ClientConnection" where
  "client_stop_sending api stream_id error_code = on_conn (shutdown_stream_read api stream_id error_code)"

definition client_close_stream :: "('c, 's, 'z) conn_api_scheme \<Rightarrow> StreamId \<Rightarrow> u64 \<Rightarrow> ('c, 's) ClientConnection
    \<Rightarrow> unit result \<times> ('c, 's) ClientConnection" where
  "client_close_stream api stream_id error_code cl =
    on_conn (shutdown_stream api stream_id error_code) (client_forget_pending stream_id cl)"

definition client_send_datagram :: "('c, 's, 'z) conn_api_scheme \<Rightarrow> 's io \<Rightarrow> bytes \<Rightarrow> ('c, 's) ClientConnection
    \<Rightarrow> (unit result \<times> OutgoingPacket list \<times> ('c, 's) ClientConnection) option" where
  "client_send_datagram api io data cl =
    (if length data > dg_max_tx_datagram_size (cl_datagram cl)
     then Some (Err (InvalidArgument (''datagram size '' @ show_nat (length data) @ '' exceeds max_tx_datagram_size ''
                 @ show_nat (dg_max_tx_datagram_size (cl_datagram cl)))), [], cl)
     else
       let (r, buf, c) = write_datagram api (cl_send_buf cl) data (io_now io) (cl_conn cl);
           cl = cl\<lparr>cl_conn := c, cl_send_buf := buf\<rparr>
       in case r of
         Inl e \<Rightarrow> Some (Err e, [], cl)
       | Inr (written, was_accepted, path, info) \<Rightarrow>
         if \<not> was_accepted then Some (Ok (), [], cl)
         else if written > 0 then
           (case from_written (take written buf) path (pi_ecn info) of
              Inl e \<Rightarrow> Some (Err e, [], cl)
            | Inr p \<Rightarrow> Some (Ok (), [p], cl))
         else
           map_option (\<lambda>(r, buf, c). let cl = cl\<lparr>cl_conn := c, cl_send_buf := buf\<rparr> in
               case r of Inl e \<Rightarrow> (Err e, [], cl) | Inr ps \<Rightarrow> (Ok (), ps, cl))
             (write_control_packets api (cl_send_buf cl) (io_now io) (cl_conn cl)))"

text \<open>\<open>bound\<close> is the outcome of binding the new socket.\<close>

definition client_migrate :: "('c, 's, 'z) conn_api_scheme \<Rightarrow> 's io \<Rightarrow> 's io \<Rightarrow> string + SocketAddr \<Rightarrow> ('c, 's) ClientConnection
    \<Rightarrow> (unit result \<times> OutgoingPacket list \<times> ('c, 's) ClientConnection) option" where
  "client_migrate api io1 io2 bound cl =
    (case bound of
       Inl msg \<Rightarrow> Some (Err (InternalErr (''failed to bind socket: '' @ msg)), [], cl)
     | Inr addr \<Rightarrow>
       (case initiate_immediate_migration api \<lparr>path_local = addr, path_remote = cl_remote_addr cl\<rparr> (io_now io1) (cl_conn cl) of
          (Inl e, c) \<Rightarrow> Some (Err e, [], cl\<lparr>cl_conn := c\<rparr>)
        | (Inr _, c) \<Rightarrow> client_flush api io2 (cl\<lparr>cl_conn := c, cl_local_addr := addr\<rparr>)))"

definition client_take_new_token :: "('c, 's) ClientConnection \<Rightarrow> bytes option result \<times> ('c, 's) ClientConnection" where
  "client_take_new_token cl = (let (t, cl) = on_conn take_new_token cl in (Ok t, cl))"

definition client_initiate_key_update :: "('c, 's, 'z) conn_api_scheme \<Rightarrow> 's io \<Rightarrow> ('c, 's) ClientConnection
    \<Rightarrow> unit result \<times> ('c, 's) ClientConnection" where
  "client_initiate_key_update api io = on_conn (initiate_key_update api (io_now io))"

definition client_close :: "('c, 's, 'z) conn_api_scheme \<Rightarrow> 's io \<Rightarrow> u64 \<Rightarrow> bytes \<Rightarrow> ('c, 's) ClientConnection
    \<Rightarrow> (unit result \<times> OutgoingPacket list \<times> ('c, 's) ClientConnection) option" where
  "client_close api io error_code reason cl =
    (if client_is_closed api cl then Some (Ok (), [], cl)
     else
       let (r, buf, c) = write_connection_close_app api (cl_send_buf cl) error_code reason (io_now io) (cl_conn cl);
           cl = cl\<lparr>cl_conn := c, cl_send_buf := buf\<rparr>
       in case r of
         Inl e \<Rightarrow> Some (Err e, [], cl)
       | Inr written \<Rightarrow>
         if written > 0
         then map_option (\<lambda>ps. (Ok (), ps, cl\<lparr>cl_closed := True\<rparr>))
                (close_packets (take written buf) (cl_local_addr cl) (cl_remote_addr cl) 0)
         else Some (Ok (), [], cl\<lparr>cl_closed := True\<rparr>))"

text \<open>Dropping a connection frees the C connection and the TLS context.\<close>

definition client_drop :: "('c, 's) ClientConnection \<Rightarrow> conn_heap \<times> tls_heap \<Rightarrow> conn_heap \<times> tls_heap" where
  "client_drop cl h = (conn_drop (cl_conn cl) (fst h), tls_context_drop (cl_tls_ctx cl) (snd h))"

section \<open>Waiting for an event\<close>

datatype client_wakeup =
    ClSocket "string + (bytes \<times> SocketAddr \<times> byte)"
  | ClTimer

text \<open>The handlers of the socket and of the timer, which \<^verbatim>\<open>recv_event\<close> and \<^verbatim>\<open>connect_inner\<close> share: \<open>Inl\<close> ends the
  call with the error of the socket.\<close>

definition client_wake :: "('c, 's, 'z) conn_api_scheme \<Rightarrow> 's io \<Rightarrow> client_wakeup \<Rightarrow> ('c, 's) ClientConnection
    \<Rightarrow> unit result \<times> ('c, 's) ClientConnection" where
  "client_wake api io w cl =
    (case w of
       ClSocket (Inl msg) \<Rightarrow> (Err (InternalErr (''recv error: '' @ msg)), cl)
     | ClSocket (Inr (data, from, ecn)) \<Rightarrow> (Ok (), client_handle_packet api from data (io_now io) ecn cl)
     | ClTimer \<Rightarrow>
       (let (result, c) = handle_expiry api (io_now io) (cl_conn cl) in (Ok (), client_drain_events (cl\<lparr>cl_conn := c\<rparr>))))"

definition client_announce :: "('c, 's, 'z) conn_api_scheme \<Rightarrow> ('c, 's) ClientConnection
    \<Rightarrow> TokioEvent result \<times> ('c, 's) ClientConnection" where
  "client_announce api cl =
    (case client_poll_event (client_push_connection_closed api cl) of
       (Some ev, cl) \<Rightarrow> (Ok ev, cl)
     | (None, cl) \<Rightarrow> (Err ConnectionClosedErr, cl))"

definition client_ready :: "('c, 's, 'z) conn_api_scheme \<Rightarrow> ('c, 's) ClientConnection
    \<Rightarrow> (TokioEvent result \<times> ('c, 's) ClientConnection) option" where
  "client_ready api cl =
    (case client_poll_event cl of
       (Some ev, cl) \<Rightarrow> Some (Ok ev, cl)
     | (None, cl) \<Rightarrow>
       if is_in_closing_period api (cl_conn cl) \<or> is_in_draining_period api (cl_conn cl)
       then Some (client_announce api cl) else None)"

text \<open>One iteration after the check at the head of the loop; \<open>Some\<close> result ends the call.\<close>

definition client_iteration :: "('c, 's, 'z) conn_api_scheme \<Rightarrow> 's io \<Rightarrow> 's io \<Rightarrow> client_wakeup \<Rightarrow> ('c, 's) ClientConnection
    \<Rightarrow> (OutgoingPacket list \<times> TokioEvent result option \<times> ('c, 's) ClientConnection) option" where
  "client_iteration api io1 io2 w cl =
    (case client_flush api io1 cl of
       None \<Rightarrow> None
     | Some (Inl e, sent, cl) \<Rightarrow> Some (sent, Some (Err e), cl)
     | Some (Inr _, sent, cl) \<Rightarrow>
       (case client_poll_event (client_drain_events cl) of
          (Some ev, cl) \<Rightarrow> Some (sent, Some (Ok ev), cl)
        | (None, cl) \<Rightarrow>
          (case client_wake api io2 w cl of
             (Inl e, cl) \<Rightarrow> Some (sent, Some (Err e), cl)
           | (Inr _, cl) \<Rightarrow> Some (sent, None, cl))))"

fun client_recv_loop :: "('c, 's, 'z) conn_api_scheme \<Rightarrow> ('s io \<times> 's io \<times> client_wakeup) list \<Rightarrow> ('c, 's) ClientConnection
    \<Rightarrow> (TokioEvent result poll \<times> OutgoingPacket list \<times> ('c, 's) ClientConnection) option" where
  "client_recv_loop api [] cl =
    (case client_ready api cl of Some (x, cl) \<Rightarrow> Some (Ready x, [], cl) | None \<Rightarrow> Some (Pending, [], cl))"
| "client_recv_loop api ((io1, io2, w) # ins) cl =
    (case client_ready api cl of
       Some (x, cl) \<Rightarrow> Some (Ready x, [], cl)
     | None \<Rightarrow>
       (case client_iteration api io1 io2 w cl of
          None \<Rightarrow> None
        | Some (sent, Some x, cl) \<Rightarrow> Some (Ready x, sent, cl)
        | Some (sent, None, cl) \<Rightarrow>
          map_option (\<lambda>(x, ps, cl). (x, sent @ ps, cl)) (client_recv_loop api ins cl)))"

definition client_recv_event :: "('c, 's, 'z) conn_api_scheme \<Rightarrow> ('s io \<times> 's io \<times> client_wakeup) list \<Rightarrow> ('c, 's) ClientConnection
    \<Rightarrow> (TokioEvent result poll \<times> OutgoingPacket list \<times> ('c, 's) ClientConnection) option" where
  "client_recv_event api ins cl =
    (case client_poll_event cl of
       (Some ev, cl) \<Rightarrow> Some (Ready (Ok ev), [], cl)
     | (None, cl) \<Rightarrow>
       if client_is_closed api cl
       then (let (x, cl) = client_announce api cl in Some (Ready x, [], cl))
       else client_recv_loop api ins cl)"

section \<open>Connecting\<close>

text \<open>The calls of the operating system and of the TLS library: the context, the outcome of adding a CA
  certificate, attaching the ticket slot, parsing an IP address, and binding a socket.\<close>

record connect_calls =
  cn_ctx :: ctx_calls
  cn_pem :: "string \<Rightarrow> bool \<times> bool \<times> bool \<times> int"
  cn_ex_data_rv :: int
  cn_parse_ip :: "string \<Rightarrow> bytes option"
  cn_bind :: "SocketAddr \<Rightarrow> string + SocketAddr"

datatype connect_wakeup =
    ConnWake client_wakeup
  | ConnDeadline

fun add_ca_certs :: "connect_calls \<Rightarrow> string list \<Rightarrow> TlsContext \<Rightarrow> unit result" where
  "add_ca_certs calls [] ctx = Ok ()"
| "add_ca_certs calls (pem # pems) ctx =
    (let (bio_ok, x509_ok, store_ok, add_rv) = cn_pem calls pem in
     case add_ca_cert_pem bio_ok x509_ok store_ok add_rv ctx of
       Inl e \<Rightarrow> Err e
     | Inr _ \<Rightarrow> add_ca_certs calls pems ctx)"

definition default_local_addr :: "SocketAddr \<Rightarrow> SocketAddr" where
  "default_local_addr remote_addr = (case remote_addr of SockV4 _ _ \<Rightarrow> SockV4 0 0 | SockV6 _ _ _ _ \<Rightarrow> SockV6 0 0 0 0)"

text \<open>The C connection, with or without a session ticket.\<close>

definition connect_new :: "('c, 's, 'z) conn_api_scheme \<Rightarrow> 's io \<Rightarrow> connect_calls \<Rightarrow> SocketAddr \<Rightarrow> SocketAddr \<Rightarrow> string
    \<Rightarrow> ClientConfig \<Rightarrow> SessionTicket option \<Rightarrow> cid \<Rightarrow> cid \<Rightarrow> 's TlsSession \<Rightarrow> conn_heap
    \<Rightarrow> ('c, 's) Connection result \<times> conn_heap" where
  "connect_new api io calls remote_addr bound server_name cc ticket dcid scid t h =
    (let params = client_effective_transport_params cc;
         settings = (cc_settings cc)\<lparr>s_initial_ts := io_now io, s_qlog := (cc_qlog_dir cc \<noteq> None)\<rparr>
     in case ticket of
          Some tk \<Rightarrow> client_new_with_0rtt api (io_ssl io) (cn_parse_ip calls) empty_mem dcid scid bound remote_addr
            (cc_quic_version cc) server_name t params settings tk h
        | None \<Rightarrow> client_new api (io_ssl io) (cn_parse_ip calls) empty_mem dcid scid bound remote_addr
            (cc_quic_version cc) server_name t params settings h)"

text \<open>\<^verbatim>\<open>connect_inner\<close> up to the loop of the handshake: every early return drops the TLS context.\<close>

definition connect_start :: "('c, 's, 'z) conn_api_scheme \<Rightarrow> 's io \<Rightarrow> connect_calls \<Rightarrow> SocketAddr \<Rightarrow> SocketAddr \<Rightarrow> string
    \<Rightarrow> ClientConfig \<Rightarrow> SessionTicket option \<Rightarrow> conn_heap \<times> tls_heap
    \<Rightarrow> ('c, 's) ClientConnection result \<times> conn_heap \<times> tls_heap" where
  "connect_start api io calls remote_addr local_addr server_name cc ticket h =
    (case new_client_with_options (cn_ctx calls) (cc_alpn_protocols cc) (cc_verify_peer cc) (snd h) of
       (Inl e, th) \<Rightarrow> (Err e, fst h, th)
     | (Inr ctx, th) \<Rightarrow>
       (let fail = (\<lambda>e. (Err e, fst h, tls_context_drop ctx th)) in
        case add_ca_certs calls (cc_ca_cert_pem cc) ctx of Inl e \<Rightarrow> fail e | Inr _ \<Rightarrow>
        case create_session (io_new_ssl io) (cn_ex_data_rv calls) ctx of Inl e \<Rightarrow> fail e | Inr t \<Rightarrow>
        case cn_bind calls local_addr of Inl msg \<Rightarrow> fail (InternalErr (''failed to bind socket: '' @ msg)) | Inr bound \<Rightarrow>
        case cid_random (io_rnd io 0) 16 of None \<Rightarrow> fail (InternalErr ''failed to generate dcid'') | Some dcid \<Rightarrow>
        case cid_random (io_rnd io 1) 16 of None \<Rightarrow> fail (InternalErr ''failed to generate scid'') | Some scid \<Rightarrow>
          (let (r, ch) = connect_new api io calls remote_addr bound server_name cc ticket dcid scid t (fst h)
           in case r of
                Inl e \<Rightarrow> (Err e, ch, tls_context_drop ctx th)
              | Inr c \<Rightarrow>
                (Ok (client_connection_new bound remote_addr ctx c (cc_datagram cc)
                   (case cc_qlog_dir cc of None \<Rightarrow> qlog_disabled
                    | Some dir \<Rightarrow> qlog_new (io_fs io) dir (file_name ''client-'' scid))), ch, th))))"

text \<open>The loop of the handshake. An error drops the connection.\<close>

fun connect_loop :: "('c, 's, 'z) conn_api_scheme \<Rightarrow> ('s io \<times> 's io \<times> connect_wakeup) list \<Rightarrow> ('c, 's) ClientConnection
    \<Rightarrow> conn_heap \<times> tls_heap
    \<Rightarrow> (('c, 's) ClientConnection result poll \<times> OutgoingPacket list \<times> conn_heap \<times> tls_heap) option" where
  "connect_loop api [] cl h = Some (Pending, [], h)"
| "connect_loop api ((io1, io2, w) # ins) cl h =
    (case client_flush api io1 cl of
       None \<Rightarrow> None
     | Some (Inl e, sent, cl) \<Rightarrow> Some (Ready (Err e), sent, client_drop cl h)
     | Some (Inr _, sent, cl) \<Rightarrow>
       if is_in_early_data (io_ssl io1) (cl_conn cl) \<or> is_handshake_completed api (cl_conn cl)
       then Some (Ready (Ok cl), sent, h)
       else if client_is_closed api cl then Some (Ready (Err ConnectionClosedErr), sent, client_drop cl h)
       else case w of
         ConnDeadline \<Rightarrow> Some (Ready (Err (InternalErr ''handshake timeout'')), sent, client_drop cl h)
       | ConnWake w \<Rightarrow>
         (case client_wake api io2 w cl of
            (Inl e, cl) \<Rightarrow> Some (Ready (Err e), sent, client_drop cl h)
          | (Inr _, cl) \<Rightarrow> map_option (\<lambda>(x, ps, h). (x, sent @ ps, h)) (connect_loop api ins cl h)))"

definition connect_inner :: "('c, 's, 'z) conn_api_scheme \<Rightarrow> 's io \<Rightarrow> connect_calls \<Rightarrow> SocketAddr \<Rightarrow> SocketAddr \<Rightarrow> string
    \<Rightarrow> ClientConfig \<Rightarrow> SessionTicket option \<Rightarrow> ('s io \<times> 's io \<times> connect_wakeup) list \<Rightarrow> conn_heap \<times> tls_heap
    \<Rightarrow> (('c, 's) ClientConnection result poll \<times> OutgoingPacket list \<times> conn_heap \<times> tls_heap) option" where
  "connect_inner api io calls remote_addr local_addr server_name cc ticket ins h =
    (case connect_start api io calls remote_addr local_addr server_name cc ticket h of
       (Inl e, h) \<Rightarrow> Some (Ready (Err e), [], h)
     | (Inr cl, h) \<Rightarrow> connect_loop api ins cl h)"

definition connect_with_config :: "('c, 's, 'z) conn_api_scheme \<Rightarrow> 's io \<Rightarrow> connect_calls \<Rightarrow> SocketAddr \<Rightarrow> SocketAddr \<Rightarrow> string
    \<Rightarrow> ClientConfig \<Rightarrow> ('s io \<times> 's io \<times> connect_wakeup) list \<Rightarrow> conn_heap \<times> tls_heap
    \<Rightarrow> (('c, 's) ClientConnection result poll \<times> OutgoingPacket list \<times> conn_heap \<times> tls_heap) option" where
  "connect_with_config api io calls remote_addr local_addr server_name cc ins h =
    connect_inner api io calls remote_addr local_addr server_name cc None ins h"

definition connect_with_early_data :: "('c, 's, 'z) conn_api_scheme \<Rightarrow> 's io \<Rightarrow> connect_calls \<Rightarrow> SocketAddr \<Rightarrow> SocketAddr
    \<Rightarrow> string \<Rightarrow> ClientConfig \<Rightarrow> SessionTicket \<Rightarrow> ('s io \<times> 's io \<times> connect_wakeup) list \<Rightarrow> conn_heap \<times> tls_heap
    \<Rightarrow> (('c, 's) ClientConnection result poll \<times> OutgoingPacket list \<times> conn_heap \<times> tls_heap) option" where
  "connect_with_early_data api io calls remote_addr local_addr server_name cc ticket ins h =
    connect_inner api io calls remote_addr local_addr server_name cc (Some ticket) ins h"

definition client_connect :: "('c, 's, 'z) conn_api_scheme \<Rightarrow> raw_transport_params \<Rightarrow> 's io \<Rightarrow> connect_calls \<Rightarrow> SocketAddr
    \<Rightarrow> string \<Rightarrow> ('s io \<times> 's io \<times> connect_wakeup) list \<Rightarrow> conn_heap \<times> tls_heap
    \<Rightarrow> (('c, 's) ClientConnection result poll \<times> OutgoingPacket list \<times> conn_heap \<times> tls_heap) option" where
  "client_connect api dflt_params io calls remote_addr server_name ins h =
    connect_with_config api io calls remote_addr (default_local_addr remote_addr) server_name
      (client_with_verify_peer False (client_config_new dflt_params (default_settings api) [DEFAULT_ALPN])) ins h"

end
