(* ===== verification/ClientProps.thy ===== *)
theory ClientProps
  imports Client
begin

text \<open>
  Properties of the client: what taking over events does, that the end of a connection is announced once,
  and what connecting owns and guarantees.
\<close>

section \<open>Taking over events\<close>

lemma client_take_event_frame [simp]:
  "cl_events (client_take_event ev cl) = cl_events cl @ [event_from ev]"
  "cl_closed (client_take_event ev cl) = cl_closed cl"
  "cl_remote_addr (client_take_event ev cl) = validated_addr ev (cl_remote_addr cl)"
  "cl_tls_ctx (client_take_event ev cl) = cl_tls_ctx cl"
  "cl_pending (client_take_event ev cl) = cl_pending cl"
  by (simp_all add: client_take_event_def Let_def split: ConnectionEvent.split)

lemma client_drain_frame:
  "queued (cl_conn (client_drain_events cl)) = []
   \<and> cl_events (client_drain_events cl) = cl_events cl @ map event_from (queued (cl_conn cl))
   \<and> cl_closed (client_drain_events cl) = cl_closed cl
   \<and> cl_remote_addr (client_drain_events cl) = fold validated_addr (queued (cl_conn cl)) (cl_remote_addr cl)
   \<and> cl_tls_ctx (client_drain_events cl) = cl_tls_ctx cl \<and> cl_pending (client_drain_events cl) = cl_pending cl"
proof (induction cl rule: client_drain_events.induct)
  case (1 cl)
  show ?case
  proof (cases "queued (cl_conn cl)")
    case Nil
    then show ?thesis by (subst (1 2 3 4 5 6) client_drain_events.simps) (simp add: poll_event_def)
  next
    case (Cons ev evs)
    define c where "c = (cl_conn cl)\<lparr>c_user_data := (c_user_data (cl_conn cl))\<lparr>ud_events := evs\<rparr>\<rparr>"
    have p: "poll_event (cl_conn cl) = (Some ev, c)" using Cons by (simp add: poll_event_def c_def)
    have d: "client_drain_events cl = client_drain_events (client_take_event ev (cl\<lparr>cl_conn := c\<rparr>))"
      by (subst client_drain_events.simps) (simp add: p)
    have q: "queued c = evs" by (simp add: c_def)
    show ?thesis using 1 [OF p [symmetric] refl] unfolding d by (simp add: q Cons)
  qed
qed

lemmas client_drain_simps [simp] = client_drain_frame [THEN conjunct1] client_drain_frame [THEN conjunct2, THEN conjunct1]
  client_drain_frame [THEN conjunct2, THEN conjunct2, THEN conjunct1]
  client_drain_frame [THEN conjunct2, THEN conjunct2, THEN conjunct2, THEN conjunct1]
  client_drain_frame [THEN conjunct2, THEN conjunct2, THEN conjunct2, THEN conjunct2, THEN conjunct1]
  client_drain_frame [THEN conjunct2, THEN conjunct2, THEN conjunct2, THEN conjunct2, THEN conjunct2]

section \<open>The end of a connection is announced once\<close>

interpretation ce: closing_endpoint cl_closed cl_events "client_push_connection_closed api" client_poll_event
  for api :: "('c, 's, 'z) conn_api_scheme"
proof unfold_locales
  fix e :: "('c, 's) ClientConnection" and x xs
  show "cl_closed e \<Longrightarrow> client_push_connection_closed api e = e" by (simp add: client_push_connection_closed_def)
  show "cl_closed (client_push_connection_closed api e)" by (simp add: client_push_connection_closed_def)
  show "\<not> cl_closed e \<Longrightarrow> \<exists>x. is_close x \<and> cl_events (client_push_connection_closed api e) = cl_events e @ [x]"
    by (simp add: client_push_connection_closed_def)
  show "cl_events e = [] \<Longrightarrow> client_poll_event e = (None, e)" by (simp add: client_poll_event_def)
  show "cl_events e = x # xs \<Longrightarrow> fst (client_poll_event e) = Some x
      \<and> cl_events (snd (client_poll_event e)) = xs \<and> cl_closed (snd (client_poll_event e)) = cl_closed e"
    by (simp add: client_poll_event_def)
qed

abbreviation client_runs :: "('c, 's, 'z) conn_api_scheme \<Rightarrow> ('c, 's) ClientConnection \<Rightarrow> TokioEvent list
    \<Rightarrow> ('c, 's) ClientConnection \<Rightarrow> bool" where
  "client_runs api \<equiv> closing_endpoint.run cl_closed cl_events (client_push_connection_closed api) client_poll_event"

lemma client_quiet_same: "cl_events e1 = cl_events e \<Longrightarrow> cl_closed e1 = cl_closed e \<Longrightarrow> ce.quiet e e1"
  by (simp add: ce.quiet_def)

lemma client_quiet_drain: "ce.quiet e (client_drain_events (e\<lparr>cl_conn := c\<rparr>))"
  by (simp add: ce.quiet_def list_all_iff)

lemma client_quiet_drain' [simp]: "ce.quiet e (client_drain_events e)"
  by (simp add: ce.quiet_def list_all_iff)

lemma client_quiet_flush: "client_flush api io e = Some (r, ps, e1) \<Longrightarrow> ce.quiet e e1"
  by (auto simp: client_flush_def ce.quiet_def Let_def case_prod_beta split: option.splits sum.splits)

lemma client_run_poll:
  "client_runs api e0 del e \<Longrightarrow> client_poll_event e = (x, e1) \<Longrightarrow>
    client_runs api e0 (del @ (case x of None \<Rightarrow> [] | Some y \<Rightarrow> [y])) e1"
  by (rule ce.run_poll)

lemma client_run_announce:
  assumes "client_runs api e0 [] e" "client_announce api e = (x, e1)"
  shows "client_runs api e0 (handed (Ready x)) e1"
proof -
  obtain y e2 where p: "client_poll_event (client_push_connection_closed api e) = (y, e2)" by fastforce
  from client_run_poll [OF ce.run_push [OF assms(1)] p] show ?thesis
    using assms(2) p by (auto simp: client_announce_def split: option.splits)
qed

lemma client_run_ready:
  assumes "client_runs api e0 [] e" "client_ready api e = Some (x, e1)"
  shows "client_runs api e0 (handed (Ready x)) e1"
proof -
  obtain y e2 where p: "client_poll_event e = (y, e2)" by fastforce
  show ?thesis
  proof (cases y)
    case None
    then have "client_runs api e0 [] e2" using client_run_poll [OF assms(1) p] by simp
    then show ?thesis using assms(2) p None client_run_announce by (fastforce simp: client_ready_def split: if_splits)
  next
    case (Some ev)
    then show ?thesis using client_run_poll [OF assms(1) p] assms(2) p by (auto simp: client_ready_def)
  qed
qed

lemma client_run_packet:
  assumes "client_runs api e0 [] e"
  shows "client_runs api e0 [] (client_handle_packet api from data ts ecn e)"
proof -
  obtain res c where r: "read_pkt api \<lparr>path_local = cl_local_addr e, path_remote = from\<rparr> \<lparr>pi_ecn = ecn\<rparr> data ts (cl_conn e) = (res, c)"
    by fastforce
  have d: "client_runs api e0 [] (client_drain_events (e\<lparr>cl_conn := c\<rparr>))"
    by (rule ce.run_quiet [OF assms client_quiet_drain])
  show ?thesis using d ce.run_push [OF d] by (simp add: client_handle_packet_def r Let_def split: sum.split)
qed

lemma client_run_wake:
  assumes "client_runs api e0 [] e" "client_wake api io w e = (x, e1)"
  shows "client_runs api e0 [] e1"
  using assms client_run_packet [OF assms(1)] ce.run_quiet [OF assms(1) client_quiet_drain]
  by (auto simp: client_wake_def Let_def split: client_wakeup.splits sum.splits prod.splits)

definition handed_ended :: "TokioEvent result option \<Rightarrow> TokioEvent list" where
  "handed_ended x = (case x of None \<Rightarrow> [] | Some y \<Rightarrow> handed (Ready y))"

lemma client_run_iteration:
  assumes "client_iteration api io1 io2 w e = Some (sent, x, e1)" and "client_runs api e0 [] e"
  shows "client_runs api e0 (handed_ended x) e1"
proof -
  obtain res ps e2 where f: "client_flush api io1 e = Some (res, ps, e2)"
    using assms(1) by (auto simp: client_iteration_def split: option.splits)
  have s2: "client_runs api e0 [] e2" by (rule ce.run_quiet [OF assms(2) client_quiet_flush [OF f]])
  have s3: "client_runs api e0 [] (client_drain_events e2)" by (rule ce.run_quiet [OF s2 client_quiet_drain'])
  obtain ev e4 where p: "client_poll_event (client_drain_events e2) = (ev, e4)" by fastforce
  note s4 = client_run_poll [OF s3 p]
  show ?thesis
  proof (cases res)
    case (Inl e)
    then show ?thesis using assms(1) f s2 by (auto simp: client_iteration_def handed_ended_def)
  next
    case (Inr u)
    show ?thesis
    proof (cases ev)
      case None
      then have "client_runs api e0 [] e4" using s4 by simp
      from client_run_wake [OF this] show ?thesis
        using assms(1) f Inr p None by (auto simp: client_iteration_def handed_ended_def split: prod.splits sum.splits)
    next
      case (Some y)
      then show ?thesis using assms(1) f Inr p s4 by (auto simp: client_iteration_def handed_ended_def)
    qed
  qed
qed

lemma client_run_recv_loop:
  "client_recv_loop api ins e = Some (x, ps, e1) \<Longrightarrow> client_runs api e0 [] e \<Longrightarrow> client_runs api e0 (handed x) e1"
proof (induction ins arbitrary: e x ps e1)
  case Nil
  then show ?case using client_run_ready by (fastforce split: option.splits simp del: handed.simps(1))
next
  case (Cons i ins)
  obtain io1 io2 w where i: "i = (io1, io2, w)" by (cases i)
  show ?case
  proof (cases "client_ready api e")
    case (Some y)
    then show ?thesis using Cons(2,3) i client_run_ready [of api e0 e "fst y" "snd y"] by (cases y) (auto simp del: handed.simps(1))
  next
    case None
    then obtain sent y e2 where it: "client_iteration api io1 io2 w e = Some (sent, y, e2)"
      using Cons(2) i by (auto split: option.splits)
    note s = client_run_iteration [OF it Cons(3)]
    show ?thesis using Cons(1) [of e2] Cons(2) s i None it by (cases y) (auto simp: handed_ended_def)
  qed
qed

lemma client_run_recv:
  assumes "client_recv_event api ins e = Some (x, ps, e1)"
  shows "client_runs api e (handed x) e1"
proof -
  obtain y e2 where p: "client_poll_event e = (y, e2)" by fastforce
  note s = client_run_poll [OF ce.run_start p]
  show ?thesis
  proof (cases y)
    case None
    then have s2: "client_runs api e [] e2" using s by simp
    show ?thesis
      using assms p None client_run_announce [OF s2 surjective_pairing] client_run_recv_loop [OF _ s2]
      by (auto simp: client_recv_event_def Let_def case_prod_beta simp del: handed.simps(1) split: if_splits)
  next
    case (Some ev)
    then show ?thesis using assms p s by (auto simp: client_recv_event_def)
  qed
qed

text \<open>The operations of a client connection, with the events they hand to the application.\<close>

datatype 's client_op =
    ClFlush "'s io"
  | ClRecv "('s io \<times> 's io \<times> client_wakeup) list"
  | ClPoll
  | ClSendDatagram "'s io" bytes
  | ClMigrate "'s io" "'s io" "string + SocketAddr"
  | ClClose "'s io" u64 bytes
  | ClWrite StreamId bytes bool
  | ClReset StreamId u64
  | ClResetReliable StreamId u64
  | ClStopSending StreamId u64
  | ClCloseStream StreamId u64
  | ClOpenBidi
  | ClOpenUni
  | ClExtend StreamId u64
  | ClExtendBidi nat
  | ClExtendUni nat
  | ClKeyUpdate "'s io"
  | ClTicket
  | ClToken

fun client_run_op :: "('c, 's, 'z) conn_api_scheme \<Rightarrow> 's client_op \<Rightarrow> ('c, 's) ClientConnection
    \<Rightarrow> (TokioEvent list \<times> ('c, 's) ClientConnection) option" where
  "client_run_op api (ClFlush io) cl = map_option (\<lambda>(x, ps, cl). ([], cl)) (client_flush api io cl)"
| "client_run_op api (ClRecv ins) cl = map_option (\<lambda>(x, ps, cl). (handed x, cl)) (client_recv_event api ins cl)"
| "client_run_op api ClPoll cl = (let (e, cl) = client_poll_event cl in Some (case e of None \<Rightarrow> [] | Some ev \<Rightarrow> [ev], cl))"
| "client_run_op api (ClSendDatagram io data) cl = map_option (\<lambda>(x, ps, cl). ([], cl)) (client_send_datagram api io data cl)"
| "client_run_op api (ClMigrate io1 io2 bound) cl = map_option (\<lambda>(x, ps, cl). ([], cl)) (client_migrate api io1 io2 bound cl)"
| "client_run_op api (ClClose io e reason) cl = map_option (\<lambda>(x, ps, cl). ([], cl)) (client_close api io e reason cl)"
| "client_run_op api (ClWrite s data fin) cl = Some ([], snd (client_write_stream api s data fin cl))"
| "client_run_op api (ClReset s e) cl = Some ([], snd (client_reset_stream api s e cl))"
| "client_run_op api (ClResetReliable s e) cl = Some ([], snd (client_reset_stream_reliable api s e cl))"
| "client_run_op api (ClStopSending s e) cl = Some ([], snd (client_stop_sending api s e cl))"
| "client_run_op api (ClCloseStream s e) cl = Some ([], snd (client_close_stream api s e cl))"
| "client_run_op api ClOpenBidi cl = Some ([], snd (client_open_bidi_stream api cl))"
| "client_run_op api ClOpenUni cl = Some ([], snd (client_open_uni_stream api cl))"
| "client_run_op api (ClExtend s n) cl = Some ([], snd (client_extend_max_stream_offset api s n cl))"
| "client_run_op api (ClExtendBidi n) cl = Some ([], client_extend_max_streams_bidi api n cl)"
| "client_run_op api (ClExtendUni n) cl = Some ([], client_extend_max_streams_uni api n cl)"
| "client_run_op api (ClKeyUpdate io) cl = Some ([], snd (client_initiate_key_update api io cl))"
| "client_run_op api ClTicket cl = Some ([], snd (client_take_session_ticket api cl))"
| "client_run_op api ClToken cl = Some ([], snd (client_take_new_token cl))"

fun client_run :: "('c, 's, 'z) conn_api_scheme \<Rightarrow> 's client_op list \<Rightarrow> ('c, 's) ClientConnection
    \<Rightarrow> (TokioEvent list \<times> ('c, 's) ClientConnection) option" where
  "client_run api [] cl = Some ([], cl)"
| "client_run api (op # ops) cl =
    (case client_run_op api op cl of None \<Rightarrow> None
     | Some (evs, cl) \<Rightarrow> map_option (\<lambda>(es, cl). (evs @ es, cl)) (client_run api ops cl))"

lemma client_on_conn [simp]:
  "cl_events (snd (on_conn f cl)) = cl_events cl" "cl_closed (snd (on_conn f cl)) = cl_closed cl"
  "cl_conn (snd (on_conn f cl)) = snd (f (cl_conn cl))" "cl_tls_ctx (snd (on_conn f cl)) = cl_tls_ctx cl"
  by (simp_all add: on_conn_def Let_def case_prod_beta)

lemmas client_simple_defs = client_write_stream_def client_reset_stream_def client_reset_stream_reliable_def
  client_stop_sending_def client_close_stream_def client_open_bidi_stream_def client_open_uni_stream_def
  client_extend_max_stream_offset_def client_extend_max_streams_bidi_def client_extend_max_streams_uni_def
  client_initiate_key_update_def client_take_session_ticket_def client_take_new_token_def client_forget_pending_def

lemma client_quiet_datagram:
  assumes "client_send_datagram api io data e = Some (r, ps, e1)"
  shows "\<exists>c buf. e1 = e \<or> e1 = e\<lparr>cl_conn := c, cl_send_buf := buf\<rparr>"
  using assms by (auto simp: client_send_datagram_def Let_def split: if_splits sum.splits prod.splits) (metis sum.exhaust)

lemma client_quiet_migrate: "client_migrate api io1 io2 bound e = Some (r, ps, e1) \<Longrightarrow> ce.quiet e e1"
  using client_quiet_flush [of api io2 _ r ps e1]
  by (fastforce simp: client_migrate_def ce.quiet_def split: sum.splits prod.splits)

lemma client_quiet_close: "client_close api io e reason cl = Some (x, ps, cl1) \<Longrightarrow> ce.quiet cl cl1"
  by (auto simp: client_close_def ce.quiet_def Let_def case_prod_beta split: if_splits sum.splits)

lemma client_simple_frame [simp]:
  "cl_events (snd (client_write_stream api s data fin cl)) = cl_events cl"
  "cl_closed (snd (client_write_stream api s data fin cl)) = cl_closed cl"
  "cl_events (snd (client_extend_max_stream_offset api s n cl)) = cl_events cl"
  "cl_closed (snd (client_extend_max_stream_offset api s n cl)) = cl_closed cl"
  "cl_events (client_extend_max_streams_bidi api k cl) = cl_events cl"
  "cl_closed (client_extend_max_streams_bidi api k cl) = cl_closed cl"
  "cl_events (client_extend_max_streams_uni api k cl) = cl_events cl"
  "cl_closed (client_extend_max_streams_uni api k cl) = cl_closed cl"
  by (simp_all add: client_simple_defs case_prod_beta split: sum.split)

lemma client_run_op_ok:
  assumes "client_run_op api op cl = Some (evs, cl1)"
  shows "client_runs api cl evs cl1"
proof -
  have quiet: "client_runs api cl [] cl1" if "ce.quiet cl cl1" by (rule ce.run_quiet [OF ce.run_start that])
  have same: "client_runs api cl [] cl1" if "cl_events cl1 = cl_events cl" "cl_closed cl1 = cl_closed cl"
    by (rule quiet [OF client_quiet_same [OF that]])
  show ?thesis
  proof (cases op)
    case (ClRecv ins)
    then show ?thesis using assms client_run_recv by fastforce
  next
    case (ClFlush io)
    then show ?thesis using assms quiet client_quiet_flush by fastforce
  next
    case ClPoll
    then show ?thesis using assms client_run_poll [OF ce.run_start, of cl _ cl1] by (auto simp: Let_def split: prod.splits)
  next
    case (ClSendDatagram io data)
    then show ?thesis using assms same client_quiet_datagram [of api io data cl _ _ cl1] by fastforce
  next
    case (ClMigrate io1 io2 bound)
    then show ?thesis using assms quiet client_quiet_migrate by fastforce
  next
    case (ClClose io e reason)
    then show ?thesis using assms quiet client_quiet_close by fastforce
  qed (use assms same in \<open>auto simp: client_reset_stream_def client_reset_stream_reliable_def
      client_stop_sending_def client_close_stream_def client_open_bidi_stream_def client_open_uni_stream_def
      client_initiate_key_update_def client_take_session_ticket_def client_take_new_token_def client_forget_pending_def
      Let_def case_prod_beta\<close>)
qed

lemma client_run_ok: "client_run api ops cl = Some (evs, cl1) \<Longrightarrow> client_runs api cl evs cl1"
proof (induction ops arbitrary: cl evs)
  case Nil
  then show ?case by (simp add: ce.run_start)
next
  case (Cons op ops)
  then obtain e1 cl2 e2 where o: "client_run_op api op cl = Some (e1, cl2)"
    and rest: "client_run api ops cl2 = Some (e2, cl1)" and e: "evs = e1 @ e2"
    by (auto split: option.splits)
  show ?case unfolding e by (rule ce.run_append [OF Cons.IH [OF rest] client_run_op_ok [OF o]])
qed


definition sample_client :: "(unit, unit) ClientConnection" where
  "sample_client = client_connection_new (SockV4 1 2) (SockV4 3 4)
     \<lparr>tc_ctx = 0, tc_is_server = False, tc_verify_peer = True, tc_alpn_data = None, tc_accept_early_data = False\<rparr>
     sample_conn datagram_default qlog_disabled"

abbreviation (input) ended_api :: "(unit, unit) conn_api" where
  "ended_api \<equiv> sample_conn_api\<lparr>conn_in_draining_period := (\<lambda>_. True)\<rparr>"


section \<open>What every operation keeps\<close>

lemma client_kept_drain: "op_closed api P \<Longrightarrow> P (cl_conn cl) \<Longrightarrow> P (cl_conn (client_drain_events cl))"
proof (induction cl rule: client_drain_events.induct)
  case (1 cl)
  obtain e c where p: "poll_event (cl_conn cl) = (e, c)" by fastforce
  have c: "P c" using op_closedD [OF 1(2,3), of OpPollEvent] p by simp
  show ?case
  proof (cases e)
    case None
    then show ?thesis using 1(3) p by (subst client_drain_events.simps) simp
  next
    case (Some ev)
    then show ?thesis using 1(1) [OF p [symmetric] Some 1(2)] p c by (subst client_drain_events.simps) simp
  qed
qed

lemma client_kept_flush:
  assumes P: "op_closed api P" "P (cl_conn cl)" and f: "client_flush api io cl = Some (r, ps, cl1)"
  shows "P (cl_conn cl1) \<and> cl_tls_ctx cl1 = cl_tls_ctx cl"
proof -
  obtain r1 p buf c where w: "write_packets api (cl_pending cl) (cl_send_buf cl) (io_now io) (cl_conn cl) = Some (r1, p, buf, c)"
    using f by (auto simp: client_flush_def split: option.splits)
  have c: "P c" by (rule op_closed_write_packets [OF w P])
  show ?thesis
    using f w c op_closed_qlog [OF P(1) c]
    by (auto simp: client_flush_def Let_def case_prod_beta split: sum.splits option.splits)
qed

lemma client_kept_packet:
  assumes P: "op_closed api P" "P (cl_conn cl)"
  shows "P (cl_conn (client_handle_packet api from data ts ecn cl))"
    "cl_tls_ctx (client_handle_packet api from data ts ecn cl) = cl_tls_ctx cl"
proof -
  let ?p = "\<lparr>path_local = cl_local_addr cl, path_remote = from\<rparr>"
  obtain res c where r: "read_pkt api ?p \<lparr>pi_ecn = ecn\<rparr> data ts (cl_conn cl) = (res, c)" by fastforce
  have "P c" using op_closedD [OF P, of "OpRead ?p \<lparr>pi_ecn = ecn\<rparr> data ts"] r by simp
  then have "P (cl_conn (client_drain_events (cl\<lparr>cl_conn := c\<rparr>)))" by (intro client_kept_drain [OF P(1)]) simp
  then show "P (cl_conn (client_handle_packet api from data ts ecn cl))"
    "cl_tls_ctx (client_handle_packet api from data ts ecn cl) = cl_tls_ctx cl"
    by (simp_all add: client_handle_packet_def r Let_def client_push_connection_closed_def split: sum.split)
qed

lemma client_kept_wake:
  assumes P: "op_closed api P" "P (cl_conn cl)" and w: "client_wake api io w cl = (x, cl1)"
  shows "P (cl_conn cl1) \<and> cl_tls_ctx cl1 = cl_tls_ctx cl"
proof -
  obtain res c where e: "handle_expiry api (io_now io) (cl_conn cl) = (res, c)" by fastforce
  have "P c" using op_closedD [OF P, of "OpExpiry (io_now io)"] e by simp
  then have "P (cl_conn (client_drain_events (cl\<lparr>cl_conn := c\<rparr>)))" by (intro client_kept_drain [OF P(1)]) simp
  then show ?thesis
    using w e P(2) client_kept_packet [OF P]
    by (auto simp: client_wake_def Let_def split: client_wakeup.splits sum.splits)
qed

section \<open>Connecting\<close>

text \<open>What a call of \<^verbatim>\<open>connect_inner\<close> leaves behind, relative to the heaps before it.\<close>

definition connect_outcome :: "('c, 's, 'z) conn_api_scheme \<Rightarrow> 's ssl_api \<Rightarrow> ('s io \<times> 's io \<times> connect_wakeup) list
    \<Rightarrow> conn_heap \<times> tls_heap \<Rightarrow> ('c, 's) ClientConnection result \<Rightarrow> conn_heap \<times> tls_heap \<Rightarrow> bool" where
  "connect_outcome api ssl ins h x h1 = (case x of
     Inl e \<Rightarrow> live_conn (fst h1) = live_conn (fst h) \<and> live_ctx (snd h1) = live_ctx (snd h)
   | Inr cl \<Rightarrow> live_conn (fst h1) = c_handle (cl_conn cl) # live_conn (fst h)
       \<and> live_ctx (snd h1) = tc_ctx (cl_tls_ctx cl) # live_ctx (snd h)
       \<and> reachable api ssl (cl_conn cl)
       \<and> (is_handshake_completed api (cl_conn cl) \<or> (\<exists>(io1, _) \<in> set ins. is_in_early_data (io_ssl io1) (cl_conn cl))))"

definition started :: "('c, 's, 'z) conn_api_scheme \<Rightarrow> 's ssl_api \<Rightarrow> conn_heap \<times> tls_heap \<Rightarrow> conn_heap \<times> tls_heap
    \<Rightarrow> nat \<Rightarrow> nat \<Rightarrow> ('c, 's) ClientConnection \<Rightarrow> bool" where
  "started api ssl h h1 handle ctx cl \<longleftrightarrow> reachable api ssl (cl_conn cl) \<and> c_handle (cl_conn cl) = handle \<and> tc_ctx (cl_tls_ctx cl) = ctx
     \<and> live_conn (fst h1) = handle # live_conn (fst h) \<and> handle \<notin> set (live_conn (fst h))
     \<and> live_ctx (snd h1) = ctx # live_ctx (snd h) \<and> ctx \<notin> set (live_ctx (snd h))"

lemma started_drop:
  "started api ssl h h1 handle ctx cl \<Longrightarrow> live_conn (fst (client_drop cl h1)) = live_conn (fst h)
     \<and> live_ctx (snd (client_drop cl h1)) = live_ctx (snd h)"
  by (simp add: started_def client_drop_def conn_drop_def conn_del_def tls_context_drop_def ctx_free_def)

lemma started_ops:
  assumes "started api ssl h h1 handle ctx cl"
  shows "client_flush api io cl = Some (r, ps, cl1) \<Longrightarrow> started api ssl h h1 handle ctx cl1"
    and "client_wake api io w cl = (x, cl2) \<Longrightarrow> started api ssl h h1 handle ctx cl2"
proof -
  have r: "reachable api ssl (cl_conn cl)" and c: "c_handle (cl_conn cl) = handle" using assms by (simp_all add: started_def)
  show "client_flush api io cl = Some (r, ps, cl1) \<Longrightarrow> started api ssl h h1 handle ctx cl1"
    using client_kept_flush [OF op_closed_reachable r] client_kept_flush [of api, OF op_closed_handle c] assms
    by (auto simp: started_def)
  show "client_wake api io w cl = (x, cl2) \<Longrightarrow> started api ssl h h1 handle ctx cl2"
    using client_kept_wake [OF op_closed_reachable r] client_kept_wake [of api, OF op_closed_handle c] assms
    by (auto simp: started_def)
qed

lemma connect_loop_outcome:
  assumes "started api ssl h h1 handle ctx cl" "connect_loop api ins cl h1 = Some (Ready x, ps, h2)"
  shows "connect_outcome api ssl ins h x h2"
  using assms
proof (induction ins arbitrary: cl ps)
  case (Cons i ins)
  obtain io1 io2 w where i: "i = (io1, io2, w)" by (cases i)
  obtain r sent cl1 where f: "client_flush api io1 cl = Some (r, sent, cl1)"
    using Cons(3) i by (auto split: option.splits)
  have s1: "started api ssl h h1 handle ctx cl1" by (rule started_ops(1) [OF Cons(2) f])
  note drop = started_drop [OF s1]
  show ?case
  proof (cases "\<exists>u v cl2. r = Inr u \<and> w = ConnWake v \<and> \<not> is_in_early_data (io_ssl io1) (cl_conn cl1)
      \<and> \<not> is_handshake_completed api (cl_conn cl1) \<and> \<not> client_is_closed api cl1 \<and> client_wake api io2 v cl1 = (Inr (), cl2)")
    case True
    then obtain u v cl2 where t: "r = Inr u" "w = ConnWake v" "\<not> is_in_early_data (io_ssl io1) (cl_conn cl1)"
      "\<not> is_handshake_completed api (cl_conn cl1)" "\<not> client_is_closed api cl1" "client_wake api io2 v cl1 = (Inr (), cl2)"
      by blast
    then obtain ps2 where "connect_loop api ins cl2 h1 = Some (Ready x, ps2, h2)" using Cons(3) i f by auto
    from Cons.IH [OF started_ops(2) [OF s1 t(6)] this] show ?thesis
      using i by (auto simp: connect_outcome_def split: sum.splits)
  next
    case False
    obtain y cl2 where w: "\<And>v. w = ConnWake v \<Longrightarrow> client_wake api io2 v cl1 = (y, cl2)"
      by (metis (no_types, lifting) connect_wakeup.inject surj_pair)
    show ?thesis
      using False Cons(3) i f drop s1 w started_drop [OF started_ops(2) [OF s1 w]]
      by (auto simp: connect_outcome_def started_def split: sum.splits if_splits connect_wakeup.splits)
  qed
qed simp

lemma new_client_ctx:
  assumes "new_client_with_options calls alpn verify th = (x, th1)" and "next_ctx th \<notin> set (live_ctx th)"
  shows "case x of Inl e \<Rightarrow> live_ctx th1 = live_ctx th
    | Inr ctx \<Rightarrow> live_ctx th1 = tc_ctx ctx # live_ctx th \<and> tc_ctx ctx \<notin> set (live_ctx th)
        \<and> live_ctx (tls_context_drop ctx th1) = live_ctx th"
  using assms
  by (auto simp: new_client_with_options_def ctx_alloc_def ctx_free_def tls_context_drop_def Let_def split: if_splits)

lemma connect_new_owned:
  assumes "\<forall>n \<in> set (live_conn h). n < next_conn h"
  shows "owned_result (connect_new api io calls remote_addr bound server_name cc ticket dcid scid t h) h"
  by (cases ticket) (simp_all add: connect_new_def client_new_owned [OF assms] client_new_0rtt_owned [OF assms])

lemma connect_new_reachable:
  "connect_new api io calls remote_addr bound server_name cc ticket dcid scid t h = (Inr k, ch) \<Longrightarrow> reachable api (io_ssl io) k"
proof (cases ticket)
  case None
  assume "connect_new api io calls remote_addr bound server_name cc ticket dcid scid t h = (Inr k, ch)"
  then show ?thesis using None by (auto simp: connect_new_def reachable_def intro: reach_client)
next
  case (Some tk)
  assume "connect_new api io calls remote_addr bound server_name cc ticket dcid scid t h = (Inr k, ch)"
  then show ?thesis using Some by (auto simp: connect_new_def reachable_def intro: reach_0rtt)
qed

lemma connect_start_outcome:
  assumes s: "connect_start api io calls remote_addr local_addr server_name cc ticket (h, th) = (x, h1)"
    and fresh: "\<forall>n \<in> set (live_conn h). n < next_conn h" "next_ctx th \<notin> set (live_ctx th)"
  shows "(\<exists>e. x = Inl e \<and> live_conn (fst h1) = live_conn h \<and> live_ctx (snd h1) = live_ctx th)
    \<or> (\<exists>cl handle ctx. x = Inr cl \<and> started api (io_ssl io) (h, th) h1 handle ctx cl)"
proof -
  obtain y th1 where n: "new_client_with_options (cn_ctx calls) (cc_alpn_protocols cc) (cc_verify_peer cc) th = (y, th1)"
    by fastforce
  note c = new_client_ctx [OF n fresh(2)]
  show ?thesis
  proof (cases "\<exists>ctx t bound dcid scid. y = Inr ctx \<and> add_ca_certs calls (cc_ca_cert_pem cc) ctx = Ok ()
      \<and> create_session (io_new_ssl io) (cn_ex_data_rv calls) ctx = Ok t \<and> cn_bind calls local_addr = Inr bound
      \<and> cid_random (io_rnd io 0) 16 = Some dcid \<and> cid_random (io_rnd io 1) 16 = Some scid")
    case False
    then show ?thesis using s n c by (auto simp: connect_start_def Let_def split: sum.splits option.splits)
  next
    case True
    then obtain ctx t bound dcid scid where g: "y = Inr ctx" "add_ca_certs calls (cc_ca_cert_pem cc) ctx = Ok ()"
      "create_session (io_new_ssl io) (cn_ex_data_rv calls) ctx = Ok t" "cn_bind calls local_addr = Inr bound"
      "cid_random (io_rnd io 0) 16 = Some dcid" "cid_random (io_rnd io 1) 16 = Some scid" by blast
    obtain r ch where r: "connect_new api io calls remote_addr bound server_name cc ticket dcid scid t h = (r, ch)" by fastforce
    have o: "owned_result (r, ch) h" using connect_new_owned [OF fresh(1)] unfolding r [symmetric] .
    have x: "(x, h1) = (case r of Inl e \<Rightarrow> (Err e, ch, tls_context_drop ctx th1)
        | Inr c \<Rightarrow> (Ok (client_connection_new bound remote_addr ctx c (cc_datagram cc)
            (case cc_qlog_dir cc of None \<Rightarrow> qlog_disabled | Some dir \<Rightarrow> qlog_new (io_fs io) dir (file_name ''client-'' scid))), ch, th1))"
      using s n g r by (simp add: connect_start_def split: sum.split)
    show ?thesis
    proof (cases r)
      case (Inl e)
      then show ?thesis using x c g(1) o by (auto simp: owned_result_def)
    next
      case (Inr k)
      have "reachable api (io_ssl io) k" using connect_new_reachable r Inr by blast
      moreover have "c_handle k \<notin> set (live_conn h)"
        using o Inr by (auto simp: owned_result_def conn_drop_def conn_del_def) (metis set_removeAll Diff_iff singletonI)
      ultimately show ?thesis
        using x c g(1) o Inr by (auto simp: owned_result_def started_def client_connection_new_def)
    qed
  qed
qed

text \<open>C11. Connecting returns a connection only when its handshake is complete or 0-RTT data can be sent; that
  connection and its TLS context are then the only new live objects, and the connection has only been
  driven by its operations. Every error, before or during the handshake, frees everything that was
  allocated.\<close>

theorem connect_owns:
  assumes "connect_inner api io calls remote_addr local_addr server_name cc ticket ins (h, th) = Some (Ready x, ps, h1)"
    and "\<forall>n \<in> set (live_conn h). n < next_conn h" and "next_ctx th \<notin> set (live_ctx th)"
  shows "connect_outcome api (io_ssl io) ins (h, th) x h1"
proof -
  obtain y h2 where s: "connect_start api io calls remote_addr local_addr server_name cc ticket (h, th) = (y, h2)" by (metis surj_pair)
  consider e where "y = Inl e" "live_conn (fst h2) = live_conn h" "live_ctx (snd h2) = live_ctx th"
    | cl handle ctx where "y = Inr cl" "started api (io_ssl io) (h, th) h2 handle ctx cl"
    using connect_start_outcome [OF s assms(2,3)] by blast
  then show ?thesis
  proof cases
    case 1
    then show ?thesis using assms(1) s by (auto simp: connect_inner_def connect_outcome_def)
  next
    case 2
    then show ?thesis using assms(1) s connect_loop_outcome [OF 2(2)] by (auto simp: connect_inner_def)
  qed
qed

definition client_io :: "unit io" where
  "client_io = \<lparr>io_ssl = sample_ssl, io_new_ssl = Some (), io_rnd = (\<lambda>i n. Some (replicate n (word_of_nat (i + 1)))),
     io_now = 7, io_fs = \<lparr>fs_create_dir = (\<lambda>_. True), fs_create_file = (\<lambda>_. True), fs_write = (\<lambda>_. True)\<rparr>,
     io_infer_error = (\<lambda>_. 1)\<rparr>"

definition client_calls :: connect_calls where
  "client_calls = \<lparr>cn_ctx = sample_calls, cn_pem = (\<lambda>_. (True, True, True, 1)), cn_ex_data_rv = 1,
     cn_parse_ip = (\<lambda>_. None), cn_bind = (\<lambda>a. Inr a)\<rparr>"

definition client_sample_config :: ClientConfig where
  "client_sample_config = client_config_new zero_params zero_settings [[104, 51]]"

lemma idle_flush_client: "cl_pending cl = pending_new \<Longrightarrow> cl_qlog cl = qlog_disabled
    \<Longrightarrow> \<exists>cl1. client_flush sample_conn_api io cl = Some (Ok (), [], cl1) \<and> cl_conn cl1 = cl_conn cl"
  for cl :: "(unit, unit) ClientConnection"
  by (auto simp: client_flush_def write_nothing qlog_write_def qlog_disabled_def Let_def split: option.split)

lemma sample_start:
  "\<exists>cl h. connect_start sample_conn_api client_io client_calls (SockV4 3 4) (SockV4 0 0) ''a.example'' client_sample_config None
      (\<lparr>live_conn = [], next_conn = 0\<rparr>, \<lparr>live_ctx = [], next_ctx = 0\<rparr>) = (Ok cl, h)
      \<and> cl_pending cl = pending_new \<and> cl_qlog cl = qlog_disabled"
proof -
  have "\<exists>c h. connect_new sample_conn_api client_io client_calls (SockV4 3 4) (SockV4 0 0) ''a.example'' client_sample_config None
      (ConnectionId (replicate 16 1)) (ConnectionId (replicate 16 2))
      \<lparr>ts_ssl = (), ts_is_server = False, ts_peer_ip = None, ts_accept_early_data = False, ts_ticket_slot = Some slot_new\<rparr>
      \<lparr>live_conn = [], next_conn = 0\<rparr> = (Ok c, h)"
    by (simp add: connect_new_def client_new_def has_original_dcid_def client_effective_transport_params_def with_datagram_def
        client_sample_config_def client_config_new_def transport_params_new_def zero_params_def client_io_def client_calls_def
        set_server_name_def configure_peer_ip_verification_def sample_ssl_def sample_conn_api_simps cstring_new_def
        finish_new_def conn_alloc_def set_quic_transport_params_def settings_new_def zero_settings_def)
  then show ?thesis
    by (auto simp: connect_start_def new_client_with_options_def client_calls_def sample_calls_def client_sample_config_def
        client_config_new_def ctx_alloc_def create_session_def client_io_def cid_random_def client_connection_new_def)
qed

theorem connect_owns_witness:
  "\<exists>cl ps h1. connect_inner sample_conn_api client_io client_calls (SockV4 3 4) (SockV4 0 0) ''a.example'' client_sample_config None
      [(client_io, client_io, ConnDeadline)] (\<lparr>live_conn = [], next_conn = 0\<rparr>, \<lparr>live_ctx = [], next_ctx = 0\<rparr>)
      = Some (Ready (Ok cl), ps, h1)
    \<and> live_conn (fst h1) = [c_handle (cl_conn cl)] \<and> live_ctx (snd h1) = [tc_ctx (cl_tls_ctx cl)]"
proof -
  obtain cl0 h0 where s: "connect_start sample_conn_api client_io client_calls (SockV4 3 4) (SockV4 0 0) ''a.example''
      client_sample_config None (\<lparr>live_conn = [], next_conn = 0\<rparr>, \<lparr>live_ctx = [], next_ctx = 0\<rparr>) = (Ok cl0, h0)"
    "cl_pending cl0 = pending_new" "cl_qlog cl0 = qlog_disabled" using sample_start by blast
  obtain cl where f: "client_flush sample_conn_api client_io cl0 = Some (Ok (), [], cl)" using idle_flush_client [OF s(2,3)] by blast
  have "is_handshake_completed sample_conn_api (cl_conn cl)" by (simp add: is_handshake_completed_def sample_conn_api_simps)
  then have c: "connect_inner sample_conn_api client_io client_calls (SockV4 3 4) (SockV4 0 0) ''a.example'' client_sample_config None
      [(client_io, client_io, ConnDeadline)] (\<lparr>live_conn = [], next_conn = 0\<rparr>, \<lparr>live_ctx = [], next_ctx = 0\<rparr>)
      = Some (Ready (Ok cl), [], h0)"
    using s(1) f by (simp add: connect_inner_def)
  show ?thesis using connect_owns [OF c] c by (simp add: connect_outcome_def)
qed

text \<open>A CA certificate without verification of the peer is an error: whatever certificates are
  configured, connecting with \<^verbatim>\<open>verify_peer\<close> switched off fails as soon as there is one, instead of ignoring
  them.\<close>

lemma ca_without_verification_fails:
  assumes "new_client_with_options (cn_ctx calls) (cc_alpn_protocols cc) False (snd h) = (Ok ctx, th)"
    and "\<not> cc_verify_peer cc" and "cc_ca_cert_pem cc \<noteq> []"
  shows "\<exists>h1. connect_inner api io calls remote_addr local_addr server_name cc ticket ins h
    = Some (Ready (Err (InvalidArgument ''cannot add CA cert when verify_peer is false'')), [], h1)"
proof -
  have "\<not> tc_is_server ctx" "\<not> tc_verify_peer ctx"
    using assms(1) by (auto simp: new_client_with_options_def Let_def split: if_splits prod.splits)
  then have "add_ca_certs calls (cc_ca_cert_pem cc) ctx = Err (InvalidArgument ''cannot add CA cert when verify_peer is false'')"
    using assms(3) by (cases "cc_ca_cert_pem cc") (simp_all add: add_ca_cert_pem_def split: prod.split)
  then show ?thesis using assms(1,2) by (simp add: connect_inner_def connect_start_def)
qed

section \<open>Rejected early data\<close>

text \<open>Receiving a packet never discards stream data that is still waiting, not even one that tells the
  application that its early data was rejected: what the application writes to the stream it has opened
  again under the same ID is appended to the rest of the old data.\<close>

lemma rejected_data_stays:
  assumes "client_write_stream api sid data fin (client_handle_packet api from packet ts ecn cl) = (Ok n, cl1)"
  shows "pdata (cl_pending cl1) sid = pdata (cl_pending cl) sid @ data"
proof -
  have "cl_pending (client_handle_packet api from packet ts ecn cl) = cl_pending cl"
    by (simp add: client_handle_packet_def client_push_connection_closed_def Let_def split: prod.split sum.split)
  then show ?thesis
    using assms by (auto simp: client_write_stream_def split: if_splits)
qed

end
