(* ===== verification/ClientSession.thy ===== *)
theory ClientSession
  imports ClientProps
begin

text \<open>
  A client connection from connecting to its drop: what every operation of a C connection keeps is kept by
  every operation of the client, so that the memory of the connection is safe over the whole session and
  dropping it frees exactly what connecting has allocated.
\<close>

section \<open>What operations keep\<close>

definition client_kept :: "(('c, 's) Connection \<Rightarrow> bool) \<Rightarrow> TlsContext \<Rightarrow> ('c, 's) ClientConnection \<Rightarrow> bool" where
  "client_kept P ctx cl \<longleftrightarrow> P (cl_conn cl) \<and> cl_tls_ctx cl = ctx"

lemma client_kept_poll: "client_kept P ctx cl \<Longrightarrow> client_poll_event cl = (e, cl1) \<Longrightarrow> client_kept P ctx cl1"
  by (auto simp: client_poll_event_def client_kept_def split: list.splits)

lemma client_kept_drained: "op_closed api P \<Longrightarrow> client_kept P ctx cl \<Longrightarrow> client_kept P ctx (client_drain_events cl)"
  by (simp add: client_kept_def client_kept_drain)

lemma client_kept_announce: "client_kept P ctx cl \<Longrightarrow> client_announce api cl = (x, cl1) \<Longrightarrow> client_kept P ctx cl1"
  using client_kept_poll [of P ctx "client_push_connection_closed api cl"]
  by (fastforce simp: client_announce_def client_push_connection_closed_def client_kept_def split: prod.splits option.splits if_splits)

lemma client_kept_ready: "client_kept P ctx cl \<Longrightarrow> client_ready api cl = Some (x, cl1) \<Longrightarrow> client_kept P ctx cl1"
  by (auto simp: client_ready_def split: prod.splits option.splits if_splits dest: client_kept_poll intro: client_kept_announce)

lemma client_kept_flushed:
  "op_closed api P \<Longrightarrow> client_kept P ctx cl \<Longrightarrow> client_flush api io cl = Some (r, ps, cl1) \<Longrightarrow> client_kept P ctx cl1"
  using client_kept_flush [of api P cl] by (auto simp: client_kept_def)

lemma client_kept_woken:
  "op_closed api P \<Longrightarrow> client_kept P ctx cl \<Longrightarrow> client_wake api io w cl = (r, cl1) \<Longrightarrow> client_kept P ctx cl1"
  using client_kept_wake [of api P cl] by (auto simp: client_kept_def)

lemma client_kept_iteration:
  assumes P: "op_closed api P" and k: "client_kept P ctx cl" and h: "client_iteration api io1 io2 w cl = Some (sent, x, cl1)"
  shows "client_kept P ctx cl1"
proof -
  obtain r ps cl2 where f: "client_flush api io1 cl = Some (r, ps, cl2)"
    using h by (auto simp: client_iteration_def split: option.splits)
  have k2: "client_kept P ctx cl2" by (rule client_kept_flushed [OF P k f])
  obtain e cl3 where p: "client_poll_event (client_drain_events cl2) = (e, cl3)" by fastforce
  have k3: "client_kept P ctx cl3" by (rule client_kept_poll [OF client_kept_drained [OF P k2] p])
  show ?thesis
    using h f p k2 k3 client_kept_woken [OF P k3]
    by (auto simp: client_iteration_def split: sum.splits option.splits prod.splits)
qed

lemma client_kept_recv_loop:
  "op_closed api P \<Longrightarrow> client_kept P ctx cl \<Longrightarrow> client_recv_loop api ins cl = Some (x, ps, cl1) \<Longrightarrow> client_kept P ctx cl1"
proof (induction ins arbitrary: cl x ps cl1)
  case Nil
  then show ?case using client_kept_ready [OF Nil(2)] by (auto split: option.splits)
next
  case (Cons i ins)
  obtain io1 io2 w where i: "i = (io1, io2, w)" by (cases i)
  show ?case
  proof (cases "client_ready api cl")
    case (Some y)
    then show ?thesis using Cons(4) i client_kept_ready [OF Cons(3)] by (cases y) auto
  next
    case None
    then obtain sent y cl2 where it: "client_iteration api io1 io2 w cl = Some (sent, y, cl2)"
      using Cons(4) i by (auto split: option.splits)
    show ?thesis
      using Cons(1) [OF Cons(2) client_kept_iteration [OF Cons(2,3) it]] client_kept_iteration [OF Cons(2,3) it] Cons(4) i None it
      by (cases y) auto
  qed
qed

lemma client_kept_recv:
  assumes P: "op_closed api P" and k: "client_kept P ctx cl" and h: "client_recv_event api ins cl = Some (x, ps, cl1)"
  shows "client_kept P ctx cl1"
proof -
  obtain y cl2 where p: "client_poll_event cl = (y, cl2)" by fastforce
  have k2: "client_kept P ctx cl2" by (rule client_kept_poll [OF k p])
  show ?thesis using h p k2 client_kept_announce [OF k2] client_kept_recv_loop [OF P k2]
    by (auto simp: client_recv_event_def Let_def split: option.splits if_splits prod.splits)
qed

lemma client_kept_datagram:
  assumes P: "op_closed api P" "client_kept P ctx cl" and h: "client_send_datagram api io data cl = Some (x, ps, cl1)"
  shows "client_kept P ctx cl1"
proof -
  obtain r buf c where w: "write_datagram api (cl_send_buf cl) data (io_now io) (cl_conn cl) = (r, buf, c)"
    by (metis prod.collapse)
  have p: "P (cl_conn cl)" "cl_tls_ctx cl = ctx" using P(2) by (simp_all add: client_kept_def)
  have c: "P c" using op_closedD [OF P(1) p(1), of "OpDatagram (cl_send_buf cl) data (io_now io)"] w by simp
  have t: "cl_tls_ctx cl1 = ctx"
    using h w p(2) by (auto simp: client_send_datagram_def Let_def split: if_split_asm sum.split_asm) (case_tac ac; auto)
  consider "cl_conn cl1 = cl_conn cl" | "cl_conn cl1 = c"
    | r2 buf2 where "write_control_packets api buf (io_now io) c = Some (r2, buf2, cl_conn cl1)"
    using h w by (auto simp: client_send_datagram_def Let_def split: if_split_asm sum.split_asm) (case_tac ac; auto)
  then show ?thesis
  proof cases
    case (3 r2 buf2)
    then show ?thesis
      using op_closed_control [OF 3 [unfolded write_control_packets_def] P(1) c] t by (simp add: client_kept_def)
  qed (use p(1) c t in \<open>simp_all add: client_kept_def\<close>)
qed

lemma client_kept_close:
  "op_closed api P \<Longrightarrow> client_kept P ctx cl \<Longrightarrow> client_close api io e reason cl = Some (x, ps, cl1) \<Longrightarrow> client_kept P ctx cl1"
  using op_closedD [of api P "cl_conn cl" "OpCloseApp (cl_send_buf cl) e reason (io_now io)"]
  by (auto simp: client_close_def client_kept_def Let_def case_prod_beta split: if_splits sum.splits)

lemma client_kept_migrate:
  assumes P: "op_closed api P" and k: "client_kept P ctx cl" and h: "client_migrate api io1 io2 bound cl = Some (x, ps, cl1)"
  shows "client_kept P ctx cl1"
proof (cases bound)
  case (Inl msg)
  then show ?thesis using h k by (auto simp: client_migrate_def)
next
  case (Inr addr)
  let ?p = "\<lparr>path_local = addr, path_remote = cl_remote_addr cl\<rparr>"
  obtain r c where m: "initiate_immediate_migration api ?p (io_now io1) (cl_conn cl) = (r, c)" by fastforce
  have c: "P c" using op_closedD [OF P, of "cl_conn cl" "OpMigrateNow ?p (io_now io1)"] k m by (simp add: client_kept_def)
  then have k1: "client_kept P ctx (cl\<lparr>cl_conn := c\<rparr>)" "client_kept P ctx (cl\<lparr>cl_conn := c, cl_local_addr := addr\<rparr>)"
    using k by (simp_all add: client_kept_def)
  show ?thesis
    using h m Inr k1 client_kept_flushed [OF P k1(2)] by (auto simp: client_migrate_def split: sum.splits)
qed

lemma client_kept_forward:
  "op_closed api P \<Longrightarrow> client_kept P ctx cl \<Longrightarrow> (\<And>c. snd (f c) = conn_run_op api op c) \<Longrightarrow> client_kept P ctx (snd (on_conn f cl))"
  by (simp add: client_kept_def on_conn_def Let_def case_prod_beta op_closedD)

lemma client_kept_forget: "client_kept P ctx cl \<Longrightarrow> client_kept P ctx (client_forget_pending s cl)"
  by (simp add: client_kept_def client_forget_pending_def)

lemma client_kept_extend:
  assumes P: "op_closed api P" and k: "client_kept P ctx cl"
  shows "client_kept P ctx (snd (client_extend_max_stream_offset api s n cl))"
proof -
  obtain r c where e: "extend_max_stream_offset api s n (cl_conn cl) = (r, c)" by fastforce
  have "P c" using op_closedD [OF P, of "cl_conn cl" "OpExtendStream s n"] k e by (simp add: client_kept_def)
  then show ?thesis using op_closedD [OF P, of c "OpExtend n"] e k
    by (simp add: client_extend_max_stream_offset_def client_kept_def split: sum.split)
qed

text \<open>The operations that call the connection once.\<close>

lemma client_kept_simple:
  assumes P: "op_closed api P" and k: "client_kept P ctx cl"
  shows "client_kept P ctx (snd (client_write_stream api s data fin cl))"
    and "client_kept P ctx (snd (client_reset_stream api s e cl))"
    and "client_kept P ctx (snd (client_reset_stream_reliable api s e cl))"
    and "client_kept P ctx (snd (client_stop_sending api s e cl))"
    and "client_kept P ctx (snd (client_close_stream api s e cl))"
    and "client_kept P ctx (snd (client_open_bidi_stream api cl))"
    and "client_kept P ctx (snd (client_open_uni_stream api cl))"
    and "client_kept P ctx (client_extend_max_streams_bidi api n cl)"
    and "client_kept P ctx (client_extend_max_streams_uni api n cl)"
    and "client_kept P ctx (snd (client_initiate_key_update api io cl))"
    and "client_kept P ctx (snd (client_take_session_ticket api cl))"
    and "client_kept P ctx (snd (client_take_new_token cl))"
proof -
  note fwd = client_kept_forward [OF P k] and cut = client_kept_forward [OF P client_kept_forget [OF k]]
  note c = k [unfolded client_kept_def]
  show "client_kept P ctx (snd (client_write_stream api s data fin cl))"
    using c by (simp add: client_write_stream_def client_kept_def)
  show "client_kept P ctx (snd (client_reset_stream api s e cl))"
    unfolding client_reset_stream_def by (rule cut [of _ "OpShutdownWrite s e"]) simp
  show "client_kept P ctx (snd (client_reset_stream_reliable api s e cl))"
    unfolding client_reset_stream_reliable_def by (rule cut [of _ "OpShutdownReliable s e"]) simp
  show "client_kept P ctx (snd (client_stop_sending api s e cl))"
    unfolding client_stop_sending_def by (rule fwd [of _ "OpShutdownRead s e"]) simp
  show "client_kept P ctx (snd (client_close_stream api s e cl))"
    unfolding client_close_stream_def by (rule cut [of _ "OpShutdown s e"]) simp
  show "client_kept P ctx (snd (client_open_bidi_stream api cl))" "client_kept P ctx (snd (client_open_uni_stream api cl))"
    unfolding client_open_bidi_stream_def client_open_uni_stream_def
    by (rule fwd [of _ OpOpenBidi], simp, rule fwd [of _ OpOpenUni], simp)
  show "client_kept P ctx (client_extend_max_streams_bidi api n cl)" "client_kept P ctx (client_extend_max_streams_uni api n cl)"
    using c op_closedD [OF P, of "cl_conn cl" "OpExtendBidi n"] op_closedD [OF P, of "cl_conn cl" "OpExtendUni n"]
    by (simp_all add: client_extend_max_streams_bidi_def client_extend_max_streams_uni_def client_kept_def)
  show "client_kept P ctx (snd (client_initiate_key_update api io cl))"
    unfolding client_initiate_key_update_def by (rule fwd [of _ "OpKeyUpdate (io_now io)"]) simp
  show "client_kept P ctx (snd (client_take_session_ticket api cl))"
    unfolding client_take_session_ticket_def by (rule fwd [of _ OpTicket]) simp
  show "client_kept P ctx (snd (client_take_new_token cl))"
    using fwd [of take_new_token OpTakeToken] by (simp add: client_take_new_token_def Let_def case_prod_beta)
qed

lemma client_kept_op:
  assumes P: "op_closed api P" and k: "client_kept P ctx cl" and h: "client_run_op api op cl = Some (evs, cl1)"
  shows "client_kept P ctx cl1"
proof (cases op)
  case (ClFlush io)
  then show ?thesis using h client_kept_flushed [OF P k] by auto
next
  case (ClRecv ins)
  then show ?thesis using h client_kept_recv [OF P k] by auto
next
  case ClPoll
  then show ?thesis using h client_kept_poll [OF k] by (auto simp: Let_def split: prod.splits)
next
  case (ClSendDatagram io data)
  then show ?thesis using h client_kept_datagram [OF P k] by auto
next
  case (ClMigrate io1 io2 bound)
  then show ?thesis using h client_kept_migrate [OF P k] by auto
next
  case (ClClose io e reason)
  then show ?thesis using h client_kept_close [OF P k] by auto
qed (use h client_kept_simple [OF P k] client_kept_extend [OF P k] in auto)

lemma client_kept_run:
  "op_closed api P \<Longrightarrow> client_kept P ctx cl \<Longrightarrow> client_run api ops cl = Some (evs, cl1) \<Longrightarrow> client_kept P ctx cl1"
proof (induction ops arbitrary: cl evs)
  case (Cons op ops)
  then obtain e1 cl2 e2 where o: "client_run_op api op cl = Some (e1, cl2)" "client_run api ops cl2 = Some (e2, cl1)"
    by (auto split: option.splits)
  show ?case by (rule Cons.IH [OF Cons(2) client_kept_op [OF Cons(2,3) o(1)] o(2)])
qed simp

section \<open>From connecting to the drop\<close>

lemma connect_loop_started:
  "started api ssl h h1 handle ctx cl \<Longrightarrow> connect_loop api ins cl h1 = Some (Ready (Inr cl2), ps, h2)
    \<Longrightarrow> started api ssl h h2 handle ctx cl2"
proof (induction ins arbitrary: cl ps)
  case (Cons i ins)
  obtain io1 io2 w where i: "i = (io1, io2, w)" by (cases i)
  obtain r sent cl1 where f: "client_flush api io1 cl = Some (r, sent, cl1)"
    using Cons(3) i by (auto split: option.splits)
  have s1: "started api ssl h h1 handle ctx cl1" by (rule started_ops(1) [OF Cons(2) f])
  show ?case
    using Cons(3) i f s1 Cons.IH started_ops(2) [OF s1]
    by (fastforce split: sum.splits if_splits connect_wakeup.splits prod.splits)
qed simp

lemma connect_inner_started:
  assumes "connect_inner api io calls remote_addr local_addr server_name cc ticket ins (h, th) = Some (Ready (Inr cl), ps, h1)"
    and fresh: "\<forall>n \<in> set (live_conn h). n < next_conn h" "next_ctx th \<notin> set (live_ctx th)"
  obtains handle ctx where "started api (io_ssl io) (h, th) h1 handle ctx cl"
proof -
  obtain y h2 where s: "connect_start api io calls remote_addr local_addr server_name cc ticket (h, th) = (y, h2)" by (metis surj_pair)
  obtain cl0 handle ctx where "y = Inr cl0" "started api (io_ssl io) (h, th) h2 handle ctx cl0"
    using connect_start_outcome [OF s fresh] assms(1) s by (auto simp: connect_inner_def)
  then show thesis using that assms(1) s connect_loop_started by (fastforce simp: connect_inner_def)
qed

lemma connect_inner_failed:
  assumes "connect_inner api io calls remote_addr local_addr server_name cc ticket ins (h, th) = Some (Ready (Inl e), ps, h1)"
    and fresh: "\<forall>n \<in> set (live_conn h). n < next_conn h" "next_ctx th \<notin> set (live_ctx th)"
  shows "live_conn (fst h1) = live_conn h \<and> live_ctx (snd h1) = live_ctx th"
proof -
  obtain y h2 where s: "connect_start api io calls remote_addr local_addr server_name cc ticket (h, th) = (y, h2)" by (metis surj_pair)
  show ?thesis
    using connect_start_outcome [OF s fresh] assms(1) s connect_loop_outcome
    by (fastforce simp: connect_inner_def connect_outcome_def split: sum.splits)
qed

lemma started_run:
  assumes "started api ssl h h1 handle ctx cl" "client_run api ops cl = Some (evs, cl1)"
  shows "started api ssl h h1 handle ctx cl1"
proof -
  have "client_kept (reachable api ssl) (cl_tls_ctx cl) cl1"
    by (rule client_kept_run [OF op_closed_reachable _ assms(2)]) (use assms(1) in \<open>simp add: started_def client_kept_def\<close>)
  moreover have "client_kept (\<lambda>c. c_handle c = handle) (cl_tls_ctx cl) cl1"
    by (rule client_kept_run [OF op_closed_handle _ assms(2)]) (use assms(1) in \<open>simp add: started_def client_kept_def\<close>)
  ultimately show ?thesis using assms(1) by (simp add: started_def client_kept_def)
qed



end
