(* ===== verification/Socket.thy ===== *)
theory Socket
  imports Streams
begin

unbundle bit_operations_syntax

text \<open>
  UDP sockets with ECN and the sockets of a server (\<^verbatim>\<open>src/tokio-ngtcp2/src/socket.rs\<close>). The system calls
  \<^verbatim>\<open>sendmsg\<close> and \<^verbatim>\<open>recvmsg\<close> are arguments: the first gets the message that the code builds, the second yields
  what the kernel has filled in. Control messages are a list in the order in which \<^verbatim>\<open>CMSG_NXTHDR\<close> walks
  them, with the constants and the byte order of Linux on a little-endian machine, as in \<open>Sockaddr\<close>.
\<close>

section \<open>ECN\<close>

definition NOT_ECT :: byte where "NOT_ECT = 0"
definition ECT1 :: byte where "ECT1 = 1"
definition ECT0 :: byte where "ECT0 = 2"
definition CE :: byte where "CE = 3"
definition ECN_MASK :: byte where "ECN_MASK = 3"
definition CONTROL_BUFFER_SIZE :: nat where "CONTROL_BUFFER_SIZE = 64"

definition IPPROTO_IP :: nat where "IPPROTO_IP = 0"
definition IPPROTO_IPV6 :: nat where "IPPROTO_IPV6 = 41"
definition IP_TOS :: nat where "IP_TOS = 1"
definition IP_RECVTOS :: nat where "IP_RECVTOS = 13"
definition IPV6_TCLASS :: nat where "IPV6_TCLASS = 67"
definition IPV6_RECVTCLASS :: nat where "IPV6_RECVTCLASS = 66"

record cmsg =
  cm_level :: nat
  cm_type :: nat
  cm_data :: bytes

definition is_tos :: "cmsg \<Rightarrow> bool" where
  "is_tos m \<longleftrightarrow> (cm_level m = IPPROTO_IP \<and> (cm_type m = IP_TOS \<or> cm_type m = IP_RECVTOS))
     \<or> (cm_level m = IPPROTO_IPV6 \<and> (cm_type m = IPV6_TCLASS \<or> cm_type m = IPV6_RECVTCLASS))"

text \<open>\<^verbatim>\<open>*CMSG_DATA(cmsg)\<close> is the first byte of the data.\<close>

fun parse_ecn :: "cmsg list \<Rightarrow> byte" where
  "parse_ecn [] = NOT_ECT"
| "parse_ecn (m # ms) = (if is_tos m then hd (cm_data m) AND ECN_MASK else parse_ecn ms)"

section \<open>Messages\<close>

record msghdr =
  mh_name :: "bytes \<times> nat"
  mh_data :: bytes
  mh_control :: "cmsg list"

text \<open>The message that \<^verbatim>\<open>send_to_sync\<close> passes to \<^verbatim>\<open>sendmsg\<close>; the TOS value is an \<^verbatim>\<open>int\<close>. The conversions of socket
  addresses are the same as in \<^verbatim>\<open>conn.rs\<close>.\<close>

definition socket_addr_to_raw :: "SocketAddr \<Rightarrow> bytes \<times> nat" where
  "socket_addr_to_raw addr = sockaddr_to_raw addr"

definition socket_addr_from_raw :: "bytes \<Rightarrow> nat \<Rightarrow> SocketAddr option" where
  "socket_addr_from_raw storage len = sockaddr_from_raw (Some storage) len"

definition send_message :: "bytes \<Rightarrow> SocketAddr \<Rightarrow> byte \<Rightarrow> msghdr" where
  "send_message buf target ecn =
    \<lparr>mh_name = socket_addr_to_raw target, mh_data = buf,
     mh_control = (if ecn \<noteq> NOT_ECT
       then [(case target of
           SockV4 _ _ \<Rightarrow> \<lparr>cm_level = IPPROTO_IP, cm_type = IP_TOS, cm_data = le_bytes 4 (unat ecn)\<rparr>
         | SockV6 _ _ _ _ \<Rightarrow> \<lparr>cm_level = IPPROTO_IPV6, cm_type = IPV6_TCLASS, cm_data = le_bytes 4 (unat ecn)\<rparr>)]
       else [])\<rparr>"

datatype io_error = WouldBlock | InvalidData string | OsError string

definition send_to_sync :: "(msghdr \<Rightarrow> io_error + nat) \<Rightarrow> bytes \<Rightarrow> SocketAddr \<Rightarrow> byte \<Rightarrow> io_error + nat" where
  "send_to_sync sendmsg buf target ecn = sendmsg (send_message buf target ecn)"

text \<open>What \<^verbatim>\<open>recvmsg\<close> has filled in: the first bytes of the buffer, the name and the control messages.\<close>

definition recv_from_sync :: "io_error + msghdr \<Rightarrow> io_error + (bytes \<times> SocketAddr \<times> byte)" where
  "recv_from_sync received =
    (case received of
       Inl e \<Rightarrow> Inl e
     | Inr m \<Rightarrow>
       (case socket_addr_from_raw (fst (mh_name m)) (snd (mh_name m)) of
          None \<Rightarrow> Inl (InvalidData ''unsupported address family'')
        | Some from \<Rightarrow> Inr (mh_data m, from, parse_ecn (mh_control m))))"

text \<open>The loops of \<^verbatim>\<open>send_to\<close> and \<^verbatim>\<open>recv_from\<close> over the attempts that \<^verbatim>\<open>try_io\<close> makes; \<open>None\<close> is still waiting.\<close>

fun retry_io :: "(io_error + 'a) list \<Rightarrow> (io_error + 'a) option" where
  "retry_io [] = None"
| "retry_io (Inl WouldBlock # rs) = retry_io rs"
| "retry_io (r # rs) = Some r"

definition send_to :: "(msghdr \<Rightarrow> io_error + nat) list \<Rightarrow> bytes \<Rightarrow> SocketAddr \<Rightarrow> byte \<Rightarrow> (io_error + nat) option" where
  "send_to sendmsgs buf target ecn = retry_io (map (\<lambda>sendmsg. send_to_sync sendmsg buf target ecn) sendmsgs)"

definition recv_from :: "(io_error + msghdr) list \<Rightarrow> (io_error + (bytes \<times> SocketAddr \<times> byte)) option" where
  "recv_from received = retry_io (map recv_from_sync received)"

text \<open>\<^verbatim>\<open>start.elapsed().as_nanos() as u64\<close>.\<close>

definition timestamp :: "nat \<Rightarrow> u64" where
  "timestamp elapsed = word_of_nat elapsed"

section \<open>Binding\<close>

text \<open>A bound socket is its file descriptor and the address it is bound to. The operating system binds a
  descriptor and names its address; the calls of \<^verbatim>\<open>setsockopt\<close>, whose results the code ignores, are recorded
  in order as descriptor, level, option and value.\<close>

record os_sockets =
  os_bind :: "SocketAddr \<Rightarrow> io_error + nat"
  os_local_addr :: "nat \<Rightarrow> io_error + SocketAddr"

type_synonym sockopt = "nat \<times> nat \<times> nat \<times> nat"

record Socket =
  so_fd :: nat
  so_local_addr :: SocketAddr

definition enable_ecn :: "Socket \<Rightarrow> sockopt list" where
  "enable_ecn s = [(so_fd s, IPPROTO_IP, IP_RECVTOS, 1), (so_fd s, IPPROTO_IPV6, IPV6_RECVTCLASS, 1)]"

definition socket_bind :: "os_sockets \<Rightarrow> SocketAddr \<Rightarrow> (io_error + Socket) \<times> sockopt list" where
  "socket_bind os addr =
    (case os_bind os addr of
       Inl e \<Rightarrow> (Inl e, [])
     | Inr inner \<Rightarrow>
       (case os_local_addr os inner of
          Inl e \<Rightarrow> (Inl e, [])
        | Inr local_addr \<Rightarrow>
          (let socket = \<lparr>so_fd = inner, so_local_addr = local_addr\<rparr> in (Inr socket, enable_ecn socket))))"

section \<open>The sockets of a server\<close>

record ServerSockets =
  ss_primary :: Socket
  ss_primary_addr :: SocketAddr
  ss_preferred :: "(SocketAddr \<times> Socket) option"

definition sockets_bind :: "os_sockets \<Rightarrow> SocketAddr \<Rightarrow> SocketAddr option \<Rightarrow> (io_error + ServerSockets) \<times> sockopt list" where
  "sockets_bind os addr preferred_addr =
    (case socket_bind os addr of
       (Inl e, opts) \<Rightarrow> (Inl e, opts)
     | (Inr primary, opts) \<Rightarrow>
       (let primary_addr = so_local_addr primary in
        case preferred_addr of
          None \<Rightarrow> (Inr \<lparr>ss_primary = primary, ss_primary_addr = primary_addr, ss_preferred = None\<rparr>, opts)
        | Some addr \<Rightarrow>
          (case socket_bind os addr of
             (Inl e, opts1) \<Rightarrow> (Inl e, opts @ opts1)
           | (Inr socket, opts1) \<Rightarrow>
             (Inr \<lparr>ss_primary = primary, ss_primary_addr = primary_addr,
                   ss_preferred = Some (so_local_addr socket, socket)\<rparr>, opts @ opts1))))"

definition sockets_local_addr :: "ServerSockets \<Rightarrow> SocketAddr" where
  "sockets_local_addr ss = ss_primary_addr ss"

definition sockets_preferred_addr :: "ServerSockets \<Rightarrow> SocketAddr option" where
  "sockets_preferred_addr ss = map_option fst (ss_preferred ss)"

text \<open>Which socket is ready first, with what \<^verbatim>\<open>recv_from\<close> yields for it. The payload is in the buffer of that
  socket; the code finds out which one by the local address. Only a server with a preferred address
  waits for the second socket.\<close>

datatype sockets_ready =
    OnPrimary "io_error + (bytes \<times> SocketAddr \<times> byte)"
  | OnPreferred "io_error + (bytes \<times> SocketAddr \<times> byte)"

definition fill :: "bytes \<Rightarrow> bytes \<Rightarrow> bytes" where
  "fill payload buf = payload @ drop (length payload) buf"

definition sockets_recv_from :: "ServerSockets \<Rightarrow> sockets_ready \<Rightarrow> bytes \<Rightarrow> bytes
    \<Rightarrow> (io_error + (bytes \<times> SocketAddr \<times> SocketAddr \<times> byte)) option \<times> bytes \<times> bytes" where
  "sockets_recv_from ss ready buf alt_buf =
    (let pick = (\<lambda>len local buf alt_buf. if local = ss_primary_addr ss then take len buf else take len alt_buf) in
     case ready of
       OnPrimary (Inl e) \<Rightarrow> (Some (Inl e), buf, alt_buf)
     | OnPrimary (Inr (payload, from, ecn)) \<Rightarrow>
       (let buf = fill payload buf
        in (Some (Inr (pick (length payload) (ss_primary_addr ss) buf alt_buf, from, ss_primary_addr ss, ecn)), buf, alt_buf))
     | OnPreferred r \<Rightarrow>
       (case ss_preferred ss of
          None \<Rightarrow> (None, buf, alt_buf)
        | Some (addr, _) \<Rightarrow>
          (case r of
             Inl e \<Rightarrow> (Some (Inl e), buf, alt_buf)
           | Inr (payload, from, ecn) \<Rightarrow>
             (let alt_buf = fill payload alt_buf
              in (Some (Inr (pick (length payload) addr buf alt_buf, from, addr, ecn)), buf, alt_buf)))))"

text \<open>The socket that a packet with the local address \<open>local\<close> leaves from.\<close>

definition sockets_send_to :: "ServerSockets \<Rightarrow> SocketAddr \<Rightarrow> Socket" where
  "sockets_send_to ss local =
    (case ss_preferred ss of
       Some (addr, preferred) \<Rightarrow> if addr = local then preferred else ss_primary ss
     | None \<Rightarrow> ss_primary ss)"

text \<open>The messages of \<^verbatim>\<open>send_packets\<close> with the socket of each; errors are only logged.\<close>

definition sockets_send_packets :: "ServerSockets \<Rightarrow> OutgoingPacket list \<Rightarrow> (Socket \<times> msghdr) list" where
  "sockets_send_packets ss packets =
    map (\<lambda>p. (sockets_send_to ss (op_local p), send_message (op_data p) (op_remote p) (op_ecn p))) packets"

text \<open>\<^verbatim>\<open>send_packets\<close> of the client: one socket.\<close>

definition socket_send_packets :: "Socket \<Rightarrow> OutgoingPacket list \<Rightarrow> (Socket \<times> msghdr) list" where
  "socket_send_packets s packets = map (\<lambda>p. (s, send_message (op_data p) (op_remote p) (op_ecn p))) packets"

section \<open>Properties\<close>

lemma hd_le_bytes: "hd (le_bytes (Suc k) n) = word_of_nat (n mod 256)"
  by (simp add: le_bytes_def)

lemma ecn_mask: "unat (ecn :: byte) < 4 \<Longrightarrow> ecn AND 3 = ecn"
proof -
  assume "unat ecn < 4"
  then have "unat ecn = 0 \<or> unat ecn = 1 \<or> unat ecn = 2 \<or> unat ecn = 3" by linarith
  moreover have k: "ecn = word_of_nat k" if "unat ecn = k" for k using that by auto
  ultimately have "ecn = 0 \<or> ecn = 1 \<or> ecn = 2 \<or> ecn = 3" using k [of 0] k [of 1] k [of 2] k [of 3] by auto
  then show ?thesis by auto
qed

lemma parse_send_message: "unat ecn < 4 \<Longrightarrow> parse_ecn (mh_control (send_message buf target ecn)) = ecn"
proof -
  assume e: "unat ecn < 4"
  have "hd (le_bytes 4 (unat ecn)) = ecn" using hd_le_bytes [of 3 "unat ecn"] e by simp
  then show ?thesis
    using ecn_mask [OF e] by (cases target) (simp_all add: send_message_def is_tos_def ECN_MASK_def NOT_ECT_def)
qed



text \<open>The sockets of a server keep local addresses apart: after binding, with a preferred address that is not
  the primary one, what arrives on a socket is its payload, tagged with the address of that socket, and a
  reply with that local address leaves from the same socket; both sockets are asked to report ECN.\<close>

lemma sockets_symmetric:
  assumes "sockets_bind os addr preferred = (Inr ss, opts)" and "sockets_preferred_addr ss \<noteq> Some (sockets_local_addr ss)"
    and "ready = OnPrimary (Inr (payload, from, ecn)) \<and> socket = ss_primary ss
      \<or> ready = OnPreferred (Inr (payload, from, ecn)) \<and> map_option snd (ss_preferred ss) = Some socket"
  shows "fst (sockets_recv_from ss ready buf alt_buf) = Some (Inr (payload, from, so_local_addr socket, ecn))
    \<and> sockets_send_to ss (so_local_addr socket) = socket \<and> set (enable_ecn socket) \<subseteq> set opts"
  using assms
  by (auto simp: sockets_bind_def socket_bind_def sockets_recv_from_def sockets_send_to_def sockets_preferred_addr_def
      sockets_local_addr_def fill_def Let_def split: option.splits sum.splits)

definition sample_os :: os_sockets where
  "sample_os = \<lparr>os_bind = (\<lambda>a. case a of SockV4 ip port \<Rightarrow> Inr (unat port) | _ \<Rightarrow> Inl WouldBlock),
     os_local_addr = (\<lambda>fd. Inr (SockV4 1 (word_of_nat fd)))\<rparr>"

end
