(* ===== verification/Interop.thy ===== *)
theory Interop
  imports ServerProps ClientSession
begin

text \<open>
  The drivers of the interoperability tests (\<^verbatim>\<open>src/interop/src/lib.rs\<close>): a server that echoes what it receives, and clients
  that send data and read the echo. They are sequences of calls of the client and of the server, every
  call followed by \<^verbatim>\<open>expect\<close>: an error is a panic. A driver returns, waits for more input than it was given, or
  panics; it also yields the packets it has sent. A call that waits is given its wake-ups as in the
  models of client and server. The test certificates are in \<^verbatim>\<open>TestCert\<close>; the third-party stacks on the other side have no model.
\<close>

section \<open>Sequences of calls\<close>

datatype 'a outcome = Done 'a | Waits | Panics

type_synonym ('e, 'a) driver = "'e \<Rightarrow> ('a outcome \<times> OutgoingPacket list \<times> 'e) option"

definition yields :: "'a \<Rightarrow> ('e, 'a) driver" where
  "yields x e = Some (Done x, [], e)"

definition waits :: "('e, 'a) driver" where
  "waits e = Some (Waits, [], e)"

definition panics :: "('e, 'a) driver" where
  "panics e = Some (Panics, [], e)"

definition seq :: "('e, 'a) driver \<Rightarrow> ('a \<Rightarrow> ('e, 'b) driver) \<Rightarrow> ('e, 'b) driver" where
  "seq m f e =
    (case m e of
       None \<Rightarrow> None
     | Some (Done x, sent, e) \<Rightarrow> map_option (\<lambda>(y, ps, e). (y, sent @ ps, e)) (f x e)
     | Some (Waits, sent, e) \<Rightarrow> Some (Waits, sent, e)
     | Some (Panics, sent, e) \<Rightarrow> Some (Panics, sent, e))"

text \<open>The results of a call, of one that sends and of one that waits, followed by \<^verbatim>\<open>expect\<close>.\<close>

definition expect_ok :: "'a result \<Rightarrow> 'a outcome" where
  "expect_ok r = (case r of Inl e \<Rightarrow> Panics | Inr x \<Rightarrow> Done x)"

definition call :: "('e \<Rightarrow> 'a result \<times> 'e) \<Rightarrow> ('e, 'a) driver" where
  "call f e = (let (r, e) = f e in Some (expect_ok r, [], e))"

definition call_send :: "('e \<Rightarrow> (unit result \<times> OutgoingPacket list \<times> 'e) option) \<Rightarrow> ('e, unit) driver" where
  "call_send f e = map_option (\<lambda>(r, ps, e). (expect_ok r, ps, e)) (f e)"

definition call_wait :: "('e \<Rightarrow> ('a result poll \<times> OutgoingPacket list \<times> 'e) option) \<Rightarrow> ('e, 'a) driver" where
  "call_wait f e = map_option (\<lambda>(r, ps, e). (case r of Pending \<Rightarrow> Waits | Ready x \<Rightarrow> expect_ok x, ps, e)) (f e)"

section \<open>The server\<close>

definition ALPN :: bytes where "ALPN = map of_char ''hq-interop''"

definition TEST_TIMEOUT :: nat where "TEST_TIMEOUT = 30 * 10 ^ 9"

definition ephemeral_addr :: SocketAddr where "ephemeral_addr = SockV4 0x7F000001 0"

text \<open>\<open>sockets\<close> is the outcome of binding a socket for an address.\<close>

definition bind_server :: "raw_transport_params \<Rightarrow> raw_settings \<Rightarrow> 's io \<Rightarrow> ctx_calls \<Rightarrow> string \<Rightarrow> string
    \<Rightarrow> (SocketAddr \<Rightarrow> string + (SocketAddr \<times> SocketAddr option)) \<Rightarrow> ServerConfig option \<Rightarrow> (nat \<Rightarrow> channel) \<Rightarrow> conn_heap \<Rightarrow> tls_heap
    \<Rightarrow> ('c, 's) Server outcome \<times> tls_heap" where
  "bind_server dflt_params dflt_settings io calls cert_path key_path sockets config chans heap h =
    (let cf = (case config of Some cf \<Rightarrow> cf | None \<Rightarrow> server_config_new dflt_params dflt_settings [ALPN]);
         (r, h) = server_bind io calls cert_path key_path (sockets ephemeral_addr) cf chans heap h
     in (expect_ok r, h))"

record Echoed =
  ec_data :: bytes
  ec_received_early_data :: bool
  ec_path_validated :: bool
  ec_echo_sent :: bool

definition on_handle :: "(('c, 's) AcceptedConnection \<Rightarrow> 'a \<times> ('c, 's) AcceptedConnection) \<Rightarrow> ('c, 's) accepted_state
    \<Rightarrow> 'a \<times> ('c, 's) accepted_state" where
  "on_handle f = (\<lambda>(a, r). let (x, a) = f a in (x, (a, r)))"

definition echo_back :: "('c, 's, 'z) conn_api_scheme \<Rightarrow> 's io \<Rightarrow> StreamId \<Rightarrow> bytes \<Rightarrow> (('c, 's) accepted_state, unit) driver" where
  "echo_back api io stream_id data =
    seq (call (on_handle (accepted_write_stream api stream_id data True))) (\<lambda>_.
    call_send (\<lambda>(a, r). accepted_flush api io a r))"

definition echoed :: "bytes \<Rightarrow> bool \<Rightarrow> bool \<Rightarrow> (('c, 's) accepted_state, Echoed) driver" where
  "echoed received path_validated echo_sent =
    (\<lambda>(a, r). yields \<lparr>ec_data = received, ec_received_early_data = accepted_received_early_data a,
       ec_path_validated = path_validated, ec_echo_sent = echo_sent\<rparr> (a, r))"

text \<open>An iteration is given the wake-ups of its \<^verbatim>\<open>recv_event\<close> and the world in which it sends an echo.\<close>

fun drive_loop :: "('c, 's, 'z) conn_api_scheme \<Rightarrow> bool \<Rightarrow> (('s io \<times> 's io \<times> wakeup) list \<times> 's io) list \<Rightarrow> bytes \<Rightarrow> bool \<Rightarrow> bool
    \<Rightarrow> (('c, 's) accepted_state, Echoed) driver" where
  "drive_loop api until_closed [] received path_validated echo_sent = waits"
| "drive_loop api until_closed ((ins, io) # steps) received path_validated echo_sent =
    seq (call_wait (\<lambda>(a, r). recv_event api ins a r)) (\<lambda>event. case event of
       EvStreamData stream_id data fin \<Rightarrow>
         seq (call (on_handle (accepted_extend_max_stream_offset api stream_id (of_nat (length data))))) (\<lambda>_.
         if fin then
           seq (echo_back api io stream_id (received @ data)) (\<lambda>_.
           if \<not> until_closed then echoed (received @ data) path_validated True
           else drive_loop api until_closed steps (received @ data) path_validated True)
         else drive_loop api until_closed steps (received @ data) path_validated echo_sent)
     | EvPathValidated path success \<Rightarrow> drive_loop api until_closed steps received (path_validated \<or> success) echo_sent
     | EvConnectionClosed code reason kind \<Rightarrow> echoed received path_validated echo_sent
     | _ \<Rightarrow> drive_loop api until_closed steps received path_validated echo_sent)"

definition drive_until_closed :: "('c, 's, 'z) conn_api_scheme \<Rightarrow> bool \<Rightarrow> (('s io \<times> 's io \<times> wakeup) list \<times> 's io) list
    \<Rightarrow> (('c, 's) accepted_state, Echoed) driver" where
  "drive_until_closed api until_closed steps = drive_loop api until_closed steps [] False False"

text \<open>Accepting one connection and driving it; it is dropped in the end, also by a panic.\<close>

definition accept_and_drive :: "('c, 's, 'z) conn_api_scheme \<Rightarrow> bool \<Rightarrow> ('s io \<times> accept_input) list
    \<Rightarrow> (('s io \<times> 's io \<times> wakeup) list \<times> 's io) list \<Rightarrow> ('c, 's) Server \<Rightarrow> (Echoed outcome \<times> ('c, 's) Server) option" where
  "accept_and_drive api until_closed accepts steps s =
    (case server_accept api accepts s of
       None \<Rightarrow> None
     | Some (Pending, s) \<Rightarrow> Some (Waits, s)
     | Some (Ready (Inl e), s) \<Rightarrow> Some (Panics, s)
     | Some (Ready (Inr a), s) \<Rightarrow>
       map_option (\<lambda>(x, sent, a, r). let s = send_packets sent s in
           case x of
             Waits \<Rightarrow> (x, s\<lparr>sv_routes := r\<rparr>)
           | _ \<Rightarrow> (let (r, h) = accepted_drop a r (sv_heap s) in (x, s\<lparr>sv_routes := r, sv_heap := h\<rparr>)))
         (drive_until_closed api until_closed steps (a, sv_routes s)))"

definition accept_and_echo_one :: "('c, 's, 'z) conn_api_scheme \<Rightarrow> ('s io \<times> accept_input) list
    \<Rightarrow> (('s io \<times> 's io \<times> wakeup) list \<times> 's io) list \<Rightarrow> ('c, 's) Server \<Rightarrow> (Echoed outcome \<times> ('c, 's) Server) option" where
  "accept_and_echo_one api = accept_and_drive api False"

definition accept_and_echo_until_closed :: "('c, 's, 'z) conn_api_scheme \<Rightarrow> ('s io \<times> accept_input) list
    \<Rightarrow> (('s io \<times> 's io \<times> wakeup) list \<times> 's io) list \<Rightarrow> ('c, 's) Server \<Rightarrow> (Echoed outcome \<times> ('c, 's) Server) option" where
  "accept_and_echo_until_closed api = accept_and_drive api True"

text \<open>The inputs are those of the \<open>count\<close> iterations.\<close>

fun accept_and_echo_n :: "('c, 's, 'z) conn_api_scheme
    \<Rightarrow> (('s io \<times> accept_input) list \<times> (('s io \<times> 's io \<times> wakeup) list \<times> 's io) list) list
    \<Rightarrow> Echoed list \<Rightarrow> ('c, 's) Server \<Rightarrow> (Echoed list outcome \<times> ('c, 's) Server) option" where
  "accept_and_echo_n api [] results s = Some (Done results, s)"
| "accept_and_echo_n api ((accepts, steps) # ins) results s =
    (case accept_and_echo_one api accepts steps s of
       None \<Rightarrow> None
     | Some (Done e, s) \<Rightarrow> accept_and_echo_n api ins (results @ [e]) s
     | Some (Waits, s) \<Rightarrow> Some (Waits, s)
     | Some (Panics, s) \<Rightarrow> Some (Panics, s))"

definition accept_and_echo :: "('c, 's, 'z) conn_api_scheme \<Rightarrow> ('s io \<times> accept_input) list
    \<Rightarrow> (('s io \<times> 's io \<times> wakeup) list \<times> 's io) list \<Rightarrow> ('c, 's) Server \<Rightarrow> (Echoed outcome \<times> ('c, 's) Server) option" where
  "accept_and_echo api accepts steps s =
    map_option (\<lambda>(x, s). (case x of Done (e # es) \<Rightarrow> Done e | Done [] \<Rightarrow> Panics | Waits \<Rightarrow> Waits | Panics \<Rightarrow> Panics, s))
      (accept_and_echo_n api [(accepts, steps)] [] s)"

section \<open>The client\<close>

type_synonym 's wait = "('s io \<times> 's io \<times> client_wakeup) list"

definition client_config :: "raw_transport_params \<Rightarrow> raw_settings \<Rightarrow> string \<Rightarrow> ClientConfig" where
  "client_config dflt_params dflt_settings ca_cert_pem =
    client_with_ca_cert_pem ca_cert_pem (client_with_verify_peer True (client_config_new dflt_params dflt_settings [ALPN]))"

fun read_loop :: "('c, 's, 'z) conn_api_scheme \<Rightarrow> 's wait list \<Rightarrow> bytes \<Rightarrow> (('c, 's) ClientConnection, bytes) driver" where
  "read_loop api [] received = waits"
| "read_loop api (ins # steps) received =
    seq (call_wait (client_recv_event api ins)) (\<lambda>event. case event of
       EvStreamData stream_id data f \<Rightarrow>
         seq (call (client_extend_max_stream_offset api stream_id (of_nat (length data)))) (\<lambda>_.
         if f then yields (received @ data) else read_loop api steps (received @ data))
     | _ \<Rightarrow> read_loop api steps received)"

definition read_until_fin :: "('c, 's, 'z) conn_api_scheme \<Rightarrow> 's wait list \<Rightarrow> 's io \<Rightarrow> (('c, 's) ClientConnection, bytes) driver" where
  "read_until_fin api steps io =
    seq (read_loop api steps []) (\<lambda>received. seq (call_send (client_flush api io)) (\<lambda>_. yields received))"

fun fetch_session_ticket :: "('c, 's, 'z) conn_api_scheme \<Rightarrow> 's wait list \<Rightarrow> (('c, 's) ClientConnection, SessionTicket) driver" where
  "fetch_session_ticket api [] =
    seq (call (client_take_session_ticket api)) (\<lambda>t. case t of Some ticket \<Rightarrow> yields ticket | None \<Rightarrow> waits)"
| "fetch_session_ticket api (ins # steps) =
    seq (call (client_take_session_ticket api)) (\<lambda>t. case t of
       Some ticket \<Rightarrow> yields ticket
     | None \<Rightarrow> seq (call_wait (client_recv_event api ins)) (\<lambda>_. fetch_session_ticket api steps))"

text \<open>Opening a stream, sending the payload with the end of the stream.\<close>

definition send_payload :: "('c, 's, 'z) conn_api_scheme \<Rightarrow> 's io \<Rightarrow> bytes \<Rightarrow> (('c, 's) ClientConnection, unit) driver" where
  "send_payload api io payload =
    seq (call (client_open_bidi_stream api)) (\<lambda>stream_id.
    seq (call (client_write_stream api stream_id payload True)) (\<lambda>_.
    call_send (client_flush api io)))"

text \<open>A connection, if there is one, is dropped when its driver returns or panics.\<close>

definition with_connection :: "(('c, 's) ClientConnection result poll \<times> OutgoingPacket list \<times> conn_heap \<times> tls_heap) option
    \<Rightarrow> (('c, 's) ClientConnection \<times> conn_heap \<times> tls_heap, 'a) driver
    \<Rightarrow> ('a outcome \<times> OutgoingPacket list \<times> conn_heap \<times> tls_heap) option" where
  "with_connection connected body =
    (case connected of
       None \<Rightarrow> None
     | Some (Pending, sent, h) \<Rightarrow> Some (Waits, sent, h)
     | Some (Ready (Inl e), sent, h) \<Rightarrow> Some (Panics, sent, h)
     | Some (Ready (Inr cl), sent, h) \<Rightarrow>
       map_option (\<lambda>(x, ps, cl, h). (x, sent @ ps, case x of Waits \<Rightarrow> h | _ \<Rightarrow> client_drop cl h)) (body (cl, h)))"

definition on_client :: "(('c, 's) ClientConnection, 'a) driver \<Rightarrow> (('c, 's) ClientConnection \<times> 'h, 'a) driver" where
  "on_client body = (\<lambda>(cl, h). map_option (\<lambda>(x, ps, cl). (x, ps, cl, h)) (body cl))"

record 's roundtrip_input =
  rt_start :: "'s io"
  rt_connect :: "('s io \<times> 's io \<times> connect_wakeup) list"
  rt_send :: "'s io"
  rt_read :: "'s wait list"
  rt_ack :: "'s io"
  rt_close :: "'s io"

definition close_done :: "('c, 's, 'z) conn_api_scheme \<Rightarrow> 's io \<Rightarrow> (('c, 's) ClientConnection, unit) driver" where
  "close_done api io = call_send (client_close api io 0 (map of_char ''done''))"

definition read_and_close :: "('c, 's, 'z) conn_api_scheme \<Rightarrow> ('s, 'x) roundtrip_input_scheme
    \<Rightarrow> (('c, 's) ClientConnection, bytes) driver" where
  "read_and_close api i =
    seq (read_until_fin api (rt_read i) (rt_ack i)) (\<lambda>echo. seq (close_done api (rt_close i)) (\<lambda>_. yields echo))"

definition client_roundtrip :: "('c, 's, 'z) conn_api_scheme \<Rightarrow> raw_transport_params \<Rightarrow> raw_settings \<Rightarrow> connect_calls
    \<Rightarrow> ('s, 'x) roundtrip_input_scheme \<Rightarrow> SocketAddr \<Rightarrow> string \<Rightarrow> bytes \<Rightarrow> conn_heap \<times> tls_heap
    \<Rightarrow> (bytes outcome \<times> OutgoingPacket list \<times> conn_heap \<times> tls_heap) option" where
  "client_roundtrip api dflt_params dflt_settings calls i server_addr ca_cert_pem payload h =
    with_connection
      (connect_with_config api (rt_start i) calls server_addr ephemeral_addr ''localhost''
        (client_config dflt_params dflt_settings ca_cert_pem) (rt_connect i) h)
      (on_client (seq (send_payload api (rt_send i) payload) (\<lambda>_. read_and_close api i)))"

record EarlyDataEcho =
  ee_echoed :: bytes
  ee_accepted :: bool

fun await_handshake :: "('c, 's, 'z) conn_api_scheme \<Rightarrow> 's wait list \<Rightarrow> (('c, 's) ClientConnection, unit) driver" where
  "await_handshake api [] = (\<lambda>cl. (if client_is_handshake_completed api cl then yields () else waits) cl)"
| "await_handshake api (ins # steps) =
    (\<lambda>cl. (if client_is_handshake_completed api cl then yields ()
           else seq (call_wait (client_recv_event api ins)) (\<lambda>_. await_handshake api steps)) cl)"

record 's early_input = "'s roundtrip_input" +
  ei_tickets :: "'s wait list"
  ei_first_close :: "'s io"
  ei_second :: "'s io"
  ei_second_connect :: "('s io \<times> 's io \<times> connect_wakeup) list"
  ei_handshake :: "'s wait list"

text \<open>The part on the second connection; \<^verbatim>\<open>assert!\<close> panics.\<close>

definition early_echo :: "('c, 's, 'z) conn_api_scheme \<Rightarrow> 's early_input \<Rightarrow> bytes \<Rightarrow> (('c, 's) ClientConnection, EarlyDataEcho) driver" where
  "early_echo api i payload =
    (\<lambda>cl. (if \<not> client_is_in_early_data (io_ssl (ei_second i)) cl then panics
      else
        seq (send_payload api (rt_send i) payload) (\<lambda>_.
        seq (await_handshake api (ei_handshake i)) (\<lambda>_.
        seq (\<lambda>cl. yields (client_is_early_data_accepted (io_ssl (rt_ack i)) cl) cl) (\<lambda>accepted.
        seq (read_and_close api i) (\<lambda>echo.
        yields \<lparr>ee_echoed = echo, ee_accepted = accepted\<rparr>))))) cl)"

text \<open>The first connection is dropped after the second.\<close>

definition client_roundtrip_early_data :: "('c, 's, 'z) conn_api_scheme \<Rightarrow> raw_transport_params \<Rightarrow> raw_settings \<Rightarrow> connect_calls
    \<Rightarrow> 's early_input \<Rightarrow> SocketAddr \<Rightarrow> string \<Rightarrow> bytes \<Rightarrow> conn_heap \<times> tls_heap
    \<Rightarrow> (EarlyDataEcho outcome \<times> OutgoingPacket list \<times> conn_heap \<times> tls_heap) option" where
  "client_roundtrip_early_data api dflt_params dflt_settings calls i server_addr ca_cert_pem payload h =
    (let config = client_config dflt_params dflt_settings ca_cert_pem in
     with_connection
       (connect_with_config api (rt_start i) calls server_addr ephemeral_addr ''localhost'' config (rt_connect i) h)
       (seq (on_client (seq (fetch_session_ticket api (ei_tickets i)) (\<lambda>ticket.
              seq (close_done api (ei_first_close i)) (\<lambda>_. yields ticket)))) (\<lambda>ticket (cl, h).
          map_option (\<lambda>(x, ps, h). (x, ps, cl, h))
            (with_connection
              (connect_with_early_data api (ei_second i) calls server_addr ephemeral_addr ''localhost'' config ticket
                (ei_second_connect i) h)
              (on_client (early_echo api i payload))))))"

fun await_confirmed :: "('c, 's, 'z) conn_api_scheme \<Rightarrow> 's wait list \<Rightarrow> (('c, 's) ClientConnection, unit) driver" where
  "await_confirmed api [] = waits"
| "await_confirmed api (ins # steps) =
    seq (call_wait (client_recv_event api ins)) (\<lambda>event.
      if event = EvHandshakeConfirmed then yields () else await_confirmed api steps)"

text \<open>\<open>for _ in 0..10\<close>: every attempt is given the worlds of \<^verbatim>\<open>migrate\<close>, the socket it binds and the wake-ups of the wait after a failure.\<close>

definition migrated :: "('c, 's, 'z) conn_api_scheme \<Rightarrow> 's io \<Rightarrow> 's io \<Rightarrow> string + SocketAddr \<Rightarrow> (('c, 's) ClientConnection, bool) driver" where
  "migrated api io1 io2 bound cl = map_option (\<lambda>(r, ps, cl). (Done (\<not> isl r), ps, cl)) (client_migrate api io1 io2 bound cl)"

fun try_migrate :: "('c, 's, 'z) conn_api_scheme \<Rightarrow> nat \<Rightarrow> ('s io \<times> 's io \<times> (string + SocketAddr) \<times> 's wait) list
    \<Rightarrow> (('c, 's) ClientConnection, bool) driver" where
  "try_migrate api 0 attempts = yields False"
| "try_migrate api (Suc n) [] = waits"
| "try_migrate api (Suc n) ((io1, io2, bound, ins) # attempts) =
    seq (migrated api io1 io2 bound) (\<lambda>ok.
      if ok then yields True
      else seq (call_wait (client_recv_event api ins)) (\<lambda>_. try_migrate api n attempts))"

fun await_validated :: "('c, 's, 'z) conn_api_scheme \<Rightarrow> 's wait list \<Rightarrow> (('c, 's) ClientConnection, unit) driver" where
  "await_validated api [] = waits"
| "await_validated api (ins # steps) =
    seq (call_wait (client_recv_event api ins)) (\<lambda>event. case event of
       EvPathValidated path success \<Rightarrow> if success then yields () else panics
     | _ \<Rightarrow> await_validated api steps)"

record 's migrate_input = "'s roundtrip_input" +
  mi_confirmed :: "'s wait list"
  mi_attempts :: "('s io \<times> 's io \<times> (string + SocketAddr) \<times> 's wait) list"
  mi_validated :: "'s wait list"

definition client_roundtrip_with_migration :: "('c, 's, 'z) conn_api_scheme \<Rightarrow> raw_transport_params \<Rightarrow> raw_settings \<Rightarrow> connect_calls
    \<Rightarrow> 's migrate_input \<Rightarrow> SocketAddr \<Rightarrow> string \<Rightarrow> bytes \<Rightarrow> conn_heap \<times> tls_heap
    \<Rightarrow> (bytes outcome \<times> OutgoingPacket list \<times> conn_heap \<times> tls_heap) option" where
  "client_roundtrip_with_migration api dflt_params dflt_settings calls i server_addr ca_cert_pem payload h =
    with_connection
      (connect_with_config api (rt_start i) calls server_addr ephemeral_addr ''localhost''
        (client_config dflt_params dflt_settings ca_cert_pem) (rt_connect i) h)
      (on_client
        (seq (await_confirmed api (mi_confirmed i)) (\<lambda>_.
         seq (try_migrate api 10 (mi_attempts i)) (\<lambda>ok.
         if \<not> ok then panics
         else
           seq (await_validated api (mi_validated i)) (\<lambda>_.
           seq (send_payload api (rt_send i) payload) (\<lambda>_.
           read_and_close api i))))))"

section \<open>Runs of drivers\<close>

lemma seq_Done:
  "seq m f e = Some (Done y, sent, e2) \<longleftrightarrow>
    (\<exists>x s1 e1 s2. m e = Some (Done x, s1, e1) \<and> f x e1 = Some (Done y, s2, e2) \<and> sent = s1 @ s2)"
  by (auto simp: seq_def split: option.split outcome.splits)

lemma expect_ok_Done [simp]: "expect_ok r = Done x \<longleftrightarrow> r = Inr x"
  by (cases r) (auto simp: expect_ok_def)

lemma call_Done: "call f e = Some (Done x, s, e1) \<longleftrightarrow> f e = (Inr x, e1) \<and> s = []"
  by (auto simp: call_def split: prod.split)

lemma call_send_Done: "call_send f e = Some (Done x, s, e1) \<longleftrightarrow> f e = Some (Inr x, s, e1)"
  by (auto simp: call_send_def)

lemma expect_ready_Done [simp]: "(case r of Pending \<Rightarrow> Waits | Ready x \<Rightarrow> expect_ok x) = Done y \<longleftrightarrow> r = Ready (Inr y)"
  by (cases r) auto

lemma call_wait_Done: "call_wait f e = Some (Done x, s, e1) \<longleftrightarrow> f e = Some (Ready (Inr x), s, e1)"
  by (auto simp: call_wait_def)

lemmas driver_Done = seq_Done call_Done call_send_Done call_wait_Done
  yields_def waits_def panics_def on_handle_def echo_back_def echoed_def

text \<open>What a sequence of events means for a driver: the data it carries, the end of a stream, the credit that is
  due for it, and the data that is complete at each end of a stream.\<close>

fun payload_of :: "TokioEvent \<Rightarrow> bytes" where
  "payload_of (EvStreamData s data fin) = data"
| "payload_of _ = []"

definition stream_bytes :: "TokioEvent list \<Rightarrow> bytes" where
  "stream_bytes evs = concat (map payload_of evs)"

fun is_fin :: "TokioEvent \<Rightarrow> bool" where
  "is_fin (EvStreamData s data fin) = fin"
| "is_fin _ = False"

fun credit_of :: "TokioEvent \<Rightarrow> (StreamId \<times> u64) list" where
  "credit_of (EvStreamData s data fin) = [(s, of_nat (length data))]"
| "credit_of _ = []"

fun echoes :: "bytes \<Rightarrow> TokioEvent list \<Rightarrow> (StreamId \<times> bytes \<times> bool) list" where
  "echoes received [] = []"
| "echoes received (ev # evs) =
    (case ev of EvStreamData s data fin \<Rightarrow> (if fin then [(s, received @ data, True)] else []) | _ \<Rightarrow> [])
    @ echoes (received @ payload_of ev) evs"

fun ended :: "(TokioEvent \<Rightarrow> bool) \<Rightarrow> TokioEvent list \<Rightarrow> bool" where
  "ended stop [] = False"
| "ended stop (ev # evs) = (if stop ev then evs = [] else ended stop evs)"

fun write_of :: "'s accepted_op \<Rightarrow> (StreamId \<times> bytes \<times> bool) list" where
  "write_of (AcWrite s data fin) = [(s, data, fin)]"
| "write_of _ = []"

fun extend_of :: "'s accepted_op \<Rightarrow> (StreamId \<times> u64) list" where
  "extend_of (AcExtend s n) = [(s, n)]"
| "extend_of _ = []"

lemma stream_bytes_simps [simp]: "stream_bytes [] = []" "stream_bytes (ev # evs) = payload_of ev @ stream_bytes evs"
  by (simp_all add: stream_bytes_def)

definition driven :: "bool \<Rightarrow> bytes \<Rightarrow> bool \<Rightarrow> bool \<Rightarrow> Echoed \<Rightarrow> 's accepted_op list \<Rightarrow> TokioEvent list \<Rightarrow> bool" where
  "driven until_closed received path_validated echo_sent e ops evs \<longleftrightarrow>
    ec_data e = received @ stream_bytes evs
    \<and> concat (map write_of ops) = echoes received evs
    \<and> concat (map extend_of ops) = concat (map credit_of evs)
    \<and> (ec_echo_sent e \<longleftrightarrow> echo_sent \<or> list_ex is_fin evs)
    \<and> (ec_path_validated e \<longleftrightarrow> path_validated \<or> (\<exists>path. EvPathValidated path True \<in> set evs))
    \<and> ended (\<lambda>ev. is_close ev \<or> \<not> until_closed \<and> is_fin ev) evs"

lemma accepted_run_append:
  "accepted_run api ops s = Some (es, s1) \<Longrightarrow> accepted_run api ops1 s1 = Some (es1, s2)
    \<Longrightarrow> accepted_run api (ops @ ops1) s = Some (es @ es1, s2)"
  by (induction ops arbitrary: s es) (auto split: option.splits, metis surj_pair)

lemma run_recv:
  "recv_event api ins a r = Some (Ready (Inr ev), ps, s1) \<Longrightarrow> accepted_run api [AcRecv ins] (a, r) = Some ([ev], s1)"
  by (cases s1) simp

lemma run_credit:
  "accepted_extend_max_stream_offset api sid n a = (x, a1) \<Longrightarrow> accepted_run api [AcExtend sid n] (a, r) = Some ([], a1, r)"
  by simp

lemma run_echo:
  "accepted_write_stream api sid data True a = (x, a1) \<Longrightarrow> accepted_flush api io a1 r = Some (y, ps, s2)
    \<Longrightarrow> accepted_run api [AcWrite sid data True, AcFlush io] (a, r) = Some ([], s2)"
  by (cases s2) simp

lemma driven_step:
  assumes "driven u (received @ payload_of ev) (pv \<or> (\<exists>path. ev = EvPathValidated path True)) (es \<or> is_fin ev) e ops evs"
    and "\<not> (is_close ev \<or> \<not> u \<and> is_fin ev)"
    and "concat (map write_of mid) = echoes received [ev]" and "concat (map extend_of mid) = credit_of ev"
  shows "driven u received pv es e (mid @ ops) (ev # evs)"
  using assms by (auto simp: driven_def)

lemma driven_stop:
  assumes "is_close ev \<or> \<not> u \<and> is_fin ev"
    and "concat (map write_of mid) = echoes received [ev]" and "concat (map extend_of mid) = credit_of ev"
  shows "driven u received pv es \<lparr>ec_data = received @ payload_of ev, ec_received_early_data = b, ec_path_validated = pv,
    ec_echo_sent = es \<or> is_fin ev\<rparr> mid [ev]"
  using assms by (cases ev) (auto simp: driven_def)

text \<open>One iteration: the operations it performs, and whether it goes on.\<close>

definition goes_on :: "('c, 's, 'z) conn_api_scheme \<Rightarrow> bool \<Rightarrow> (('s io \<times> 's io \<times> wakeup) list \<times> 's io) list \<Rightarrow> bytes \<Rightarrow> bool \<Rightarrow> bool
    \<Rightarrow> TokioEvent \<Rightarrow> Echoed \<Rightarrow> ('c, 's) accepted_state \<Rightarrow> ('c, 's) accepted_state \<Rightarrow> bool" where
  "goes_on api u steps received pv es ev e s s1 \<longleftrightarrow>
    (if is_close ev \<or> \<not> u \<and> is_fin ev
     then s1 = s \<and> (\<exists>b. e = \<lparr>ec_data = received @ payload_of ev, ec_received_early_data = b, ec_path_validated = pv,
            ec_echo_sent = es \<or> is_fin ev\<rparr>)
     else \<exists>sent. drive_loop api u steps (received @ payload_of ev) (pv \<or> (\<exists>path. ev = EvPathValidated path True))
            (es \<or> is_fin ev) s = Some (Done e, sent, s1))"

lemma drive_iteration_data:
  assumes d: "drive_loop api u ((ins, io) # steps) received pv es (a, r) = Some (Done e, sent, s1)"
    and ev: "recv_event api ins a r = Some (Ready (Inr (EvStreamData sid data fin)), ps, a2, r2)"
  obtains mid s2 where "accepted_run api mid (a, r) = Some ([EvStreamData sid data fin], s2)"
    "concat (map write_of mid) = echoes received [EvStreamData sid data fin]" "concat (map extend_of mid) = credit_of (EvStreamData sid data fin)"
    "goes_on api u steps received pv es (EvStreamData sid data fin) e s2 s1"
proof -
  obtain a3 where x: "accepted_extend_max_stream_offset api sid (of_nat (length data)) a2 = (Inr (), a3)"
    using d by (auto simp: ev driver_Done split: prod.splits)
  have rx: "accepted_run api [AcRecv ins, AcExtend sid (of_nat (length data))] (a, r) = Some ([EvStreamData sid data fin], a3, r2)"
    using accepted_run_append [OF run_recv [OF ev] run_credit [OF x]] by simp
  show thesis
  proof (cases fin)
    case False
    then show thesis
      using that [OF rx] d x by (auto simp: ev driver_Done goes_on_def split: prod.splits)
  next
    case True
    obtain n a4 ps s5 where w: "accepted_write_stream api sid (received @ data) True a3 = (n, a4)"
      and f: "accepted_flush api io a4 r2 = Some (Inr (), ps, s5)"
      using d x True by (auto simp: ev driver_Done split: prod.splits)
    have "accepted_run api ([AcRecv ins, AcExtend sid (of_nat (length data))] @ [AcWrite sid (received @ data) True, AcFlush io]) (a, r)
        = Some ([EvStreamData sid data fin], s5)"
      using accepted_run_append [OF rx run_echo [OF w f]] by simp
    from that [OF this] show thesis
      using d x True w f by (auto simp: ev driver_Done goes_on_def split: prod.splits if_splits)
  qed
qed

lemma drive_iteration:
  assumes "drive_loop api u ((ins, io) # steps) received pv es s = Some (Done e, sent, s1)"
  obtains ev mid s2 where "accepted_run api mid s = Some ([ev], s2)"
    "concat (map write_of mid) = echoes received [ev]" "concat (map extend_of mid) = credit_of ev"
    "goes_on api u steps received pv es ev e s2 s1"
proof -
  obtain a r where s: "s = (a, r)" by (cases s)
  obtain ev ps a2 r2 where ev: "recv_event api ins a r = Some (Ready (Inr ev), ps, a2, r2)"
    using assms by (auto simp: s driver_Done)
  show thesis
  proof (cases "\<exists>sid data fin. ev = EvStreamData sid data fin")
    case False
    have "concat (map write_of [AcRecv ins]) = echoes received [ev]" "concat (map extend_of [AcRecv ins]) = credit_of ev"
      using False by (cases ev; simp)+
    from that [of "[AcRecv ins]", OF _ this] show thesis
      using assms False run_recv [OF ev] by (cases ev) (auto simp: s ev driver_Done goes_on_def)
  next
    case True
    then obtain sid data fin where e: "ev = EvStreamData sid data fin" by blast
    show thesis by (rule drive_iteration_data [OF assms [unfolded s] ev [unfolded e]]) (rule that, simp_all only: s)
  qed
qed

lemma drive_loop_run:
  "drive_loop api u steps received pv es s = Some (Done e, sent, s1)
    \<Longrightarrow> \<exists>ops evs. accepted_run api ops s = Some (evs, s1) \<and> driven u received pv es e ops evs"
proof (induction steps arbitrary: received pv es s sent)
  case Nil
  then show ?case by (simp add: driver_Done)
next
  case (Cons i steps)
  obtain ins io where i: "i = (ins, io)" by (cases i)
  obtain ev mid s2 where run: "accepted_run api mid s = Some ([ev], s2)"
    and mid: "concat (map write_of mid) = echoes received [ev]" "concat (map extend_of mid) = credit_of ev"
    and rest: "goes_on api u steps received pv es ev e s2 s1"
    by (rule drive_iteration [OF Cons.prems [unfolded i]])
  show ?case
  proof (cases "is_close ev \<or> \<not> u \<and> is_fin ev")
    case True
    then obtain b where "s1 = s2" "e = \<lparr>ec_data = received @ payload_of ev, ec_received_early_data = b, ec_path_validated = pv,
        ec_echo_sent = es \<or> is_fin ev\<rparr>" using rest by (auto simp: goes_on_def)
    then show ?thesis using run driven_stop [OF True mid, of pv es b] by blast
  next
    case False
    then obtain sent1 where "drive_loop api u steps (received @ payload_of ev) (pv \<or> (\<exists>path. ev = EvPathValidated path True))
        (es \<or> is_fin ev) s2 = Some (Done e, sent1, s1)" using rest by (auto simp: goes_on_def)
    from Cons.IH [OF this] obtain ops evs where ops: "accepted_run api ops s2 = Some (evs, s1)"
      "driven u (received @ payload_of ev) (pv \<or> (\<exists>path. ev = EvPathValidated path True)) (es \<or> is_fin ev) e ops evs"
      by blast
    have "accepted_run api (mid @ ops) s = Some (ev # evs, s1)" using accepted_run_append [OF run ops(1)] by simp
    with driven_step [OF ops(2) False mid] show ?thesis by blast
  qed
qed

text \<open>The runs of a client's driver are runs of the operations of the client.\<close>

lemma client_run_append:
  "client_run api ops cl = Some (es, cl1) \<Longrightarrow> client_run api ops1 cl1 = Some (es1, cl2)
    \<Longrightarrow> client_run api (ops @ ops1) cl = Some (es @ es1, cl2)"
  by (induction ops arbitrary: cl es) (auto split: option.splits)

definition operates :: "('c, 's, 'z) conn_api_scheme \<Rightarrow> (('c, 's) ClientConnection, 'a) driver \<Rightarrow> bool" where
  "operates api d \<longleftrightarrow> (\<forall>cl x sent cl1. d cl = Some (x, sent, cl1) \<longrightarrow> (\<exists>ops evs. client_run api ops cl = Some (evs, cl1)))"

named_theorems operating

lemma operates_stay [operating]: "operates api (yields x)" "operates api waits" "operates api panics"
  by (auto simp: operates_def yields_def waits_def panics_def intro: exI [of _ "[]"])

lemma operates_seq [operating]:
  assumes "operates api d" "\<And>x. operates api (f x)"
  shows "operates api (seq d f)"
  unfolding operates_def
proof (intro allI impI)
  fix cl x sent cl1 assume r: "seq d f cl = Some (x, sent, cl1)"
  then obtain y s1 cl2 where d: "d cl = Some (y, s1, cl2)" by (auto simp: seq_def split: option.splits)
  obtain ops evs where o: "client_run api ops cl = Some (evs, cl2)" using assms(1) d unfolding operates_def by blast
  show "\<exists>ops evs. client_run api ops cl = Some (evs, cl1)"
  proof (cases y)
    case (Done z)
    then obtain s2 where "f z cl2 = Some (x, s2, cl1)" using r d by (auto simp: seq_def)
    then obtain ops1 evs1 where "client_run api ops1 cl2 = Some (evs1, cl1)" using assms(2) unfolding operates_def by blast
    then show ?thesis using client_run_append [OF o] by blast
  qed (use r d o in \<open>auto simp: seq_def\<close>)
qed

lemma operates_op:
  assumes "\<And>cl x sent cl1. d cl = Some (x, sent, cl1) \<Longrightarrow> \<exists>evs. client_run_op api op cl = Some (evs, cl1)"
  shows "operates api d"
  unfolding operates_def
proof (intro allI impI)
  fix cl x sent cl1 assume "d cl = Some (x, sent, cl1)"
  then obtain evs where "client_run_op api op cl = Some (evs, cl1)" using assms by blast
  then have "client_run api [op] cl = Some (evs, cl1)" by simp
  then show "\<exists>ops evs. client_run api ops cl = Some (evs, cl1)" by blast
qed

lemma operates_calls [operating]:
  "operates api (call_wait (client_recv_event api ins))"
  "operates api (call_send (client_flush api io))"
  "operates api (call_send (client_close api io code reason))"
  "operates api (call (client_open_bidi_stream api))"
  "operates api (call (client_write_stream api sid data fin))"
  "operates api (call (client_extend_max_stream_offset api sid n))"
  "operates api (call (client_take_session_ticket api))"
  "operates api (migrated api io1 io2 bound)"
  by (rule operates_op [where op = "ClRecv ins"], force simp: call_wait_def,
      rule operates_op [where op = "ClFlush io"], force simp: call_send_def,
      rule operates_op [where op = "ClClose io code reason"], force simp: call_send_def,
      rule operates_op [where op = ClOpenBidi], force simp: call_def Let_def case_prod_beta,
      rule operates_op [where op = "ClWrite sid data fin"], force simp: call_def Let_def case_prod_beta,
      rule operates_op [where op = "ClExtend sid n"], force simp: call_def Let_def case_prod_beta,
      rule operates_op [where op = ClTicket], force simp: call_def Let_def case_prod_beta,
      rule operates_op [where op = "ClMigrate io1 io2 bound"], force simp: migrated_def)

lemma operates_read_loop [operating]: "operates api (read_loop api steps received)"
  by (induction steps arbitrary: received) (auto intro!: operating split: TokioEvent.split)

lemma operates_read [operating]: "operates api (read_and_close api i)"
  unfolding read_and_close_def read_until_fin_def close_done_def by (intro operating)

lemma operates_send [operating]: "operates api (send_payload api io payload)"
  unfolding send_payload_def by (intro operating)

lemma operates_waiting [operating]: "operates api (await_confirmed api steps)" "operates api (await_validated api steps)"
  by (induction steps) (auto intro!: operating split: TokioEvent.split)

lemma operates_try_migrate [operating]: "operates api (try_migrate api n attempts)"
  by (induction api n attempts rule: try_migrate.induct) (auto intro!: operating)

text \<open>A driver that has ended has freed its connection.\<close>

lemma with_connection_frees:
  assumes "with_connection (connect_inner api io calls remote_addr local_addr server_name cc ticket ins (h, th)) (on_client d)
      = Some (x, sent, h1)"
    and "x \<noteq> Waits" and "operates api d"
    and "\<forall>n \<in> set (live_conn h). n < next_conn h" and "next_ctx th \<notin> set (live_ctx th)"
  shows "live_conn (fst h1) = live_conn h \<and> live_ctx (snd h1) = live_ctx th"
proof -
  obtain y ps h2 where c: "connect_inner api io calls remote_addr local_addr server_name cc ticket ins (h, th) = Some (y, ps, h2)"
    using assms(1) by (auto simp: with_connection_def split: option.splits)
  consider e where "y = Ready (Inl e)" | cl where "y = Ready (Inr cl)"
    using assms(1,2) c by (cases y) (auto simp: with_connection_def split: sum.splits)
  then show ?thesis
  proof cases
    case (1 e)
    then show ?thesis using assms(1) c connect_inner_failed [OF c [unfolded 1] assms(4,5)] by (auto simp: with_connection_def)
  next
    case (2 cl)
    obtain sent2 cl1 where d: "d cl = Some (x, sent2, cl1)" "h1 = client_drop cl1 h2"
      using assms(1,2) c 2 by (cases x) (auto simp: with_connection_def on_client_def split: outcome.splits)
    obtain ops evs where r: "client_run api ops cl = Some (evs, cl1)" using assms(3) d(1) unfolding operates_def by blast
    obtain handle ctx where "started api (io_ssl io) (h, th) h2 handle ctx cl"
      by (rule connect_inner_started [OF c [unfolded 2] assms(4,5)])
    from started_drop [OF started_run [OF this r]] show ?thesis by (simp add: d(2))
  qed
qed

text \<open>What a client writes to its streams.\<close>

fun client_write_of :: "'s client_op \<Rightarrow> (StreamId \<times> bytes \<times> bool) list" where
  "client_write_of (ClWrite s data fin) = [(s, data, fin)]"
| "client_write_of _ = []"

definition client_writes :: "'s client_op list \<Rightarrow> (StreamId \<times> bytes \<times> bool) list" where
  "client_writes ops = concat (map client_write_of ops)"

lemma client_writes_simps [simp]: "client_writes [] = []" "client_writes (op # ops) = client_write_of op @ client_writes ops"
  "client_writes (ops @ ops1) = client_writes ops @ client_writes ops1"
  by (simp_all add: client_writes_def)

lemma run_client_recv:
  "client_recv_event api ins cl = Some (Ready (Inr ev), ps, cl1) \<Longrightarrow> client_run api [ClRecv ins] cl = Some ([ev], cl1)"
  by simp

lemma read_iteration:
  assumes d: "read_loop api (ins # steps) received cl = Some (Done bs, sent, cl1)"
  obtains ev mid cl2 where "client_run api mid cl = Some ([ev], cl2)" "client_writes mid = []"
    "if is_fin ev then cl1 = cl2 \<and> bs = received @ payload_of ev
     else \<exists>sent. read_loop api steps (received @ payload_of ev) cl2 = Some (Done bs, sent, cl1)"
proof -
  obtain ev ps cl2 where ev: "client_recv_event api ins cl = Some (Ready (Inr ev), ps, cl2)"
    using d by (auto simp: driver_Done)
  note rv = run_client_recv [OF ev]
  show thesis
  proof (cases "\<exists>sid data f. ev = EvStreamData sid data f")
    case False
    then show thesis using that [OF rv] d by (cases ev) (auto simp: ev driver_Done)
  next
    case True
    then obtain sid data f where e: "ev = EvStreamData sid data f" by blast
    obtain cl3 where x: "client_extend_max_stream_offset api sid (of_nat (length data)) cl2 = (Inr (), cl3)"
      using d by (auto simp: ev e driver_Done)
    have "client_run api ([ClRecv ins] @ [ClExtend sid (of_nat (length data))]) cl = Some ([ev] @ [], cl3)"
      by (rule client_run_append [OF rv]) (simp add: x)
    then show thesis using that [of "[ClRecv ins] @ [ClExtend sid (of_nat (length data))]" ev cl3] d x
      by (auto simp: ev e driver_Done split: if_splits)
  qed
qed

lemma read_loop_run:
  "read_loop api steps received cl = Some (Done bs, sent, cl1)
    \<Longrightarrow> \<exists>ops evs. client_run api ops cl = Some (evs, cl1) \<and> bs = received @ stream_bytes evs \<and> ended is_fin evs \<and> client_writes ops = []"
proof (induction steps arbitrary: received cl sent)
  case Nil
  then show ?case by (simp add: driver_Done)
next
  case (Cons ins steps)
  obtain ev mid cl2 where run: "client_run api mid cl = Some ([ev], cl2)" "client_writes mid = []"
    and rest: "if is_fin ev then cl1 = cl2 \<and> bs = received @ payload_of ev
     else \<exists>sent. read_loop api steps (received @ payload_of ev) cl2 = Some (Done bs, sent, cl1)"
    by (rule read_iteration [OF Cons.prems])
  show ?case
  proof (cases "is_fin ev")
    case True
    then show ?thesis using run rest by (intro exI [of _ mid] exI [of _ "[ev]"]) simp
  next
    case False
    then obtain sent2 where "read_loop api steps (received @ payload_of ev) cl2 = Some (Done bs, sent2, cl1)" using rest by auto
    from Cons.IH [OF this] obtain ops evs where ops: "client_run api ops cl2 = Some (evs, cl1)"
      "bs = (received @ payload_of ev) @ stream_bytes evs" "ended is_fin evs" "client_writes ops = []" by blast
    have "client_run api (mid @ ops) cl = Some (ev # evs, cl1)" using client_run_append [OF run(1) ops(1)] by simp
    then show ?thesis using ops run(2) False by (intro exI [of _ "mid @ ops"] exI [of _ "ev # evs"]) simp
  qed
qed

lemma roundtrip_run:
  assumes "seq (send_payload api io data) (\<lambda>_. read_and_close api i) cl = Some (Done echo, sent, cl1)"
  shows "\<exists>ops evs sid. client_run api ops cl = Some (evs, cl1) \<and> echo = stream_bytes evs \<and> ended is_fin evs
    \<and> client_writes ops = [(sid, data, True)]"
proof -
  obtain sid cl2 n cl3 s1 cl4 where o: "client_open_bidi_stream api cl = (Inr sid, cl2)"
    and w: "client_write_stream api sid data True cl2 = (Inr n, cl3)" and f: "client_flush api io cl3 = Some (Inr (), s1, cl4)"
    and "\<exists>s. read_and_close api i cl4 = Some (Done echo, s, cl1)"
    using assms by (auto simp: send_payload_def driver_Done)
  then obtain s2 cl5 s3 cl6 s4 where r: "read_loop api (rt_read i) [] cl4 = Some (Done echo, s2, cl5)"
    and a: "client_flush api (rt_ack i) cl5 = Some (Inr (), s3, cl6)"
    and c: "client_close api (rt_close i) 0 (map of_char ''done'') cl6 = Some (Inr (), s4, cl1)"
    by (auto simp: read_and_close_def read_until_fin_def close_done_def driver_Done)
  obtain ops evs where l: "client_run api ops cl4 = Some (evs, cl5)" "echo = stream_bytes evs" "ended is_fin evs" "client_writes ops = []"
    using read_loop_run [OF r] by auto
  have 1: "client_run api [ClOpenBidi, ClWrite sid data True, ClFlush io] cl = Some ([], cl4)" using o w f by simp
  have 2: "client_run api [ClFlush (rt_ack i), ClClose (rt_close i) 0 (map of_char ''done'')] cl5 = Some ([], cl1)" using a c by simp
  from client_run_append [OF 1 client_run_append [OF l(1) 2]] l(2-4) show ?thesis
    by (intro exI [of _ "[ClOpenBidi, ClWrite sid data True, ClFlush io] @ ops @ [ClFlush (rt_ack i), ClClose (rt_close i) 0 (map of_char ''done'')]"]
        exI [of _ evs] exI [of _ sid]) (simp del: client_run.simps)
qed

section \<open>Properties\<close>

text \<open>C28. The echo server does what the application programmer asks of the library: when it has driven a connection,
  it has performed operations of the handle that delivered events up to the first one that ends the run
  (the end of the connection or, when it does not wait for that, the end of a stream); what it reports is exactly the data of
  those events, it has returned the flow control credit of every byte, and at every end of a stream it has
  written everything received so far to that stream, with its end, and nothing else.\<close>

theorem drive_echoes:
  assumes "drive_until_closed api until_closed steps (a, r) = Some (Done e, sent, a1, r1)"
  shows "\<exists>ops evs. accepted_run api ops (a, r) = Some (evs, a1, r1)
    \<and> ended (\<lambda>ev. is_close ev \<or> \<not> until_closed \<and> is_fin ev) evs
    \<and> ec_data e = stream_bytes evs
    \<and> concat (map write_of ops) = echoes [] evs
    \<and> concat (map extend_of ops) = concat (map credit_of evs)
    \<and> (ec_echo_sent e \<longleftrightarrow> list_ex is_fin evs)
    \<and> (ec_path_validated e \<longleftrightarrow> (\<exists>path. EvPathValidated path True \<in> set evs))"
  using drive_loop_run [OF assms [unfolded drive_until_closed_def]] by (auto simp: driven_def)

definition received_conn :: "(unit, unit) AcceptedConnection" where
  "received_conn = sample_accepted\<lparr>ac_inner := sample_server_conn\<lparr>sc_events := [EvStreamData 0 [1, 2] False, EvConnectionClosed 0 [] Terminal]\<rparr>\<rparr>"

theorem drive_echoes_witness:
  "\<exists>e sent a1 r1. drive_until_closed sample_conn_api False [([], client_io), ([], client_io)]
      (received_conn, routes_new (\<lambda>_. undefined)) = Some (Done e, sent, a1, r1)
    \<and> ec_data e = [1, 2] \<and> \<not> ec_echo_sent e
    \<and> (\<exists>ops evs. accepted_run sample_conn_api ops (received_conn, routes_new (\<lambda>_. undefined)) = Some (evs, a1, r1)
        \<and> [1, 2] = stream_bytes evs)"
proof -
  have "\<exists>e sent a1 r1. drive_until_closed sample_conn_api False [([], client_io), ([], client_io)]
      (received_conn, routes_new (\<lambda>_. undefined)) = Some (Done e, sent, a1, r1) \<and> ec_data e = [1, 2] \<and> \<not> ec_echo_sent e"
    by (simp add: drive_until_closed_def seq_def call_wait_def call_def on_handle_def recv_event_def accepted_poll_event_def
        poll_server_event_def pop_event_def received_conn_def sample_accepted_def expect_ok_def echoed_def yields_def
        accepted_extend_max_stream_offset_def extend_max_stream_offset_def with_conn_def c_call_def check_ngtcp2_def
        sample_conn_api_simps idle_step_def Let_def)
  then obtain e sent a1 r1 where d: "drive_until_closed sample_conn_api False [([], client_io), ([], client_io)]
      (received_conn, routes_new (\<lambda>_. undefined)) = Some (Done e, sent, a1, r1)" "ec_data e = [1, 2]" "\<not> ec_echo_sent e" by blast
  show ?thesis using drive_echoes [OF d(1)] d by metis
qed

text \<open>The client of the tests: when its round trip has returned, it has sent the payload on one stream, with its end, and
  what it returns is the data of all events up to the end of a stream; when it has returned or panicked, at any
  point, the C connections and TLS contexts that are live are those from before the call.\<close>

lemma client_roundtrip_reads:
  assumes "client_roundtrip api dflt_params dflt_settings calls i server_addr ca_cert_pem data (h, th) = Some (x, sent, h1)"
    and "x \<noteq> Waits" and "\<forall>n \<in> set (live_conn h). n < next_conn h" and "next_ctx th \<notin> set (live_ctx th)"
  shows "live_conn (fst h1) = live_conn h \<and> live_ctx (snd h1) = live_ctx th
    \<and> (\<forall>echo. x = Done echo \<longrightarrow>
        (\<exists>cl ps h2 ops evs cl1 sid.
          connect_with_config api (rt_start i) calls server_addr ephemeral_addr ''localhost''
            (client_config dflt_params dflt_settings ca_cert_pem) (rt_connect i) (h, th) = Some (Ready (Ok cl), ps, h2)
          \<and> client_run api ops cl = Some (evs, cl1) \<and> client_writes ops = [(sid, data, True)]
          \<and> echo = stream_bytes evs \<and> ended is_fin evs))"
proof -
  let ?d = "seq (send_payload api (rt_send i) data) (\<lambda>_. read_and_close api i)"
  note c = assms(1) [unfolded client_roundtrip_def connect_with_config_def]
  have "operates api ?d" by (intro operating)
  from with_connection_frees [OF c assms(2) this assms(3,4)]
  have 1: "live_conn (fst h1) = live_conn h \<and> live_ctx (snd h1) = live_ctx th" .
  show ?thesis
  proof (intro conjI allI impI)
    fix echo assume x: "x = Done echo"
    obtain cl ps h2 s2 cl1 where "connect_inner api (rt_start i) calls server_addr ephemeral_addr ''localhost''
        (client_config dflt_params dflt_settings ca_cert_pem) None (rt_connect i) (h, th) = Some (Ready (Ok cl), ps, h2)"
      "?d cl = Some (Done echo, s2, cl1)"
      using c x by (auto simp: with_connection_def on_client_def split: option.splits poll.splits sum.splits)
    with roundtrip_run [OF this(2)] show "\<exists>cl ps h2 ops evs cl1 sid.
          connect_with_config api (rt_start i) calls server_addr ephemeral_addr ''localhost''
            (client_config dflt_params dflt_settings ca_cert_pem) (rt_connect i) (h, th) = Some (Ready (Ok cl), ps, h2)
          \<and> client_run api ops cl = Some (evs, cl1) \<and> client_writes ops = [(sid, data, True)]
          \<and> echo = stream_bytes evs \<and> ended is_fin evs"
      unfolding connect_with_config_def by blast
  qed (use 1 in simp_all)
qed

end
