(* ===== verification/Build.thy ===== *)
theory Build
  imports Prelude
begin

text \<open>
  The build script of the C library (\<^verbatim>\<open>src/ngtcp2-sys/build.rs\<close>): it downloads a prebuilt archive, checks it against its
  SHA-256 checksum and unpacks it, or fetches and compiles the sources, and tells cargo what to link.
  The commands it runs, the files it touches, the TOML parser, cmake and bindgen are parameters over an
  opaque state of the machine. A panic is the left summand. Everything the script asks of the machine and
  every line it prints for cargo is recorded in a trace, with the answer; output for the user is left out.
  Texts are ASCII, paths are those of Unix, and a path is only joined with a relative one.
\<close>

section \<open>Texts\<close>

definition is_whitespace :: "char \<Rightarrow> bool" where
  "is_whitespace c \<longleftrightarrow> c \<in> {CHR 0x09, CHR 0x0A, CHR 0x0B, CHR 0x0C, CHR 0x0D, CHR '' ''}"

text \<open>\<^verbatim>\<open>split_whitespace().next()\<close>.\<close>

definition first_word :: "string \<Rightarrow> string option" where
  "first_word s = (case takeWhile (\<lambda>c. \<not> is_whitespace c) (dropWhile is_whitespace s) of [] \<Rightarrow> None | w \<Rightarrow> Some w)"

definition shift_case :: "nat \<Rightarrow> nat \<Rightarrow> nat \<Rightarrow> nat \<Rightarrow> char \<Rightarrow> char" where
  "shift_case lo hi k m c = (let n = of_char c :: nat in if lo \<le> n \<and> n \<le> hi then char_of (n + k - m) else c)"

definition to_lowercase :: "string \<Rightarrow> string" where
  "to_lowercase = map (shift_case 65 90 32 0)"

definition to_uppercase :: "string \<Rightarrow> string" where
  "to_uppercase = map (shift_case 97 122 0 32)"

definition starts_with :: "string \<Rightarrow> string \<Rightarrow> bool" where
  "starts_with p s \<longleftrightarrow> take (length p) s = p"

definition ends_with :: "string \<Rightarrow> string \<Rightarrow> bool" where
  "ends_with p s \<longleftrightarrow> length p \<le> length s \<and> drop (length s - length p) s = p"

definition strip_prefix :: "string \<Rightarrow> string \<Rightarrow> string option" where
  "strip_prefix p s = (if starts_with p s then Some (drop (length p) s) else None)"

definition strip_suffix :: "string \<Rightarrow> string \<Rightarrow> string option" where
  "strip_suffix p s = (if ends_with p s then Some (take (length s - length p) s) else None)"

definition trim_matches :: "char \<Rightarrow> string \<Rightarrow> string" where
  "trim_matches c s = rev (dropWhile ((=) c) (rev (dropWhile ((=) c) s)))"

text \<open>\<^verbatim>\<open>str::lines\<close>: split at line feeds, without the carriage return before one and without an empty last line.\<close>

definition chomp :: "string \<Rightarrow> string" where
  "chomp s = (if s \<noteq> [] \<and> last s = CHR 0x0D then butlast s else s)"

fun text_lines :: "string \<Rightarrow> string \<Rightarrow> string list" where
  "text_lines acc [] = (if acc = [] then [] else [acc])"
| "text_lines acc (c # cs) = (if c = CHR 0x0A then chomp acc # text_lines [] cs else text_lines (acc @ [c]) cs)"

definition path_join :: "string \<Rightarrow> string \<Rightarrow> string" where
  "path_join a b = (if a = [] \<or> last a = CHR ''/'' then a @ b else a @ ''/'' @ b)"

definition path_parent :: "string \<Rightarrow> string option" where
  "path_parent p =
    (let q = rev (dropWhile ((=) CHR ''/'') (rev p)) in
     if q = [] then None
     else let r = rev (dropWhile (\<lambda>c. c \<noteq> CHR ''/'') (rev q));
              r1 = rev (dropWhile ((=) CHR ''/'') (rev r))
          in Some (if r \<noteq> [] \<and> r1 = [] then ''/'' else r1))"

definition replace_char :: "char \<Rightarrow> char \<Rightarrow> string \<Rightarrow> string" where
  "replace_char a b = map (\<lambda>c. if c = a then b else c)"

section \<open>The machine\<close>

record command =
  cmd_dir :: "string option"
  cmd_args :: "string list"

text \<open>\<^verbatim>\<open>Command::status\<close> and \<^verbatim>\<open>Command::output\<close> fail (\<open>None\<close>) when the program cannot be started; a run of cmake and
  the generation of bindings fail with \<open>None\<close> as well.\<close>

record ('w, 't) machine =
  m_status :: "command \<Rightarrow> 'w \<Rightarrow> bool option \<times> 'w"
  m_output :: "command \<Rightarrow> 'w \<Rightarrow> (bool \<times> string) option \<times> 'w"
  m_read :: "string \<Rightarrow> 'w \<Rightarrow> string option"
  m_exists :: "string \<Rightarrow> 'w \<Rightarrow> bool"
  m_create_dir_all :: "string \<Rightarrow> 'w \<Rightarrow> bool \<times> 'w"
  m_write :: "string \<Rightarrow> string \<Rightarrow> 'w \<Rightarrow> bool \<times> 'w"
  m_parse_toml :: "string \<Rightarrow> 't option"
  m_toml_get :: "'t \<Rightarrow> string \<Rightarrow> 't option"
  m_toml_as_str :: "'t \<Rightarrow> string option"
  m_toml_as_table :: "'t \<Rightarrow> 't option"
  m_set_cmake_env :: "'w \<Rightarrow> 'w"
  m_cmake :: "string \<Rightarrow> (string \<times> string) list \<Rightarrow> 'w \<Rightarrow> string option \<times> 'w"
  m_bindgen :: "string \<Rightarrow> string list \<Rightarrow> string list \<Rightarrow> 'w \<Rightarrow> string option \<times> 'w"

record build_config =
  bc_env :: "(string \<times> string) list"
  bc_source_build :: bool
  bc_overwrite :: bool
  bc_macos :: bool
  bc_msvc :: bool

datatype act =
    Status command "bool option" | Output command "(bool \<times> string) option"
  | Read string "string option" | Exists string bool | CreateDirAll string bool
  | Write string string bool | SetCmakeEnv | Cmake string "(string \<times> string) list" "string option"
  | Bindgen string "string list" "string list" "string option" | Print string

record 'w build =
  b_world :: 'w
  b_trace :: "act list"

type_synonym ('w, 'a) action = "'w build \<Rightarrow> (string + 'a) \<times> 'w build"

definition ret :: "'a \<Rightarrow> ('w, 'a) action" where
  "ret x b = (Inr x, b)"

definition panic :: "string \<Rightarrow> ('w, 'a) action" where
  "panic msg b = (Inl msg, b)"

definition and_then :: "('w, 'a) action \<Rightarrow> ('a \<Rightarrow> ('w, 'b) action) \<Rightarrow> ('w, 'b) action" where
  "and_then m f b = (case m b of (Inl e, b1) \<Rightarrow> (Inl e, b1) | (Inr x, b1) \<Rightarrow> f x b1)"

fun for_each :: "('a \<Rightarrow> ('w, unit) action) \<Rightarrow> 'a list \<Rightarrow> ('w, unit) action" where
  "for_each f [] = ret ()"
| "for_each f (x # xs) = and_then (f x) (\<lambda>_. for_each f xs)"

definition expect :: "string \<Rightarrow> 'a option \<Rightarrow> ('w, 'a) action" where
  "expect msg x = (case x of None \<Rightarrow> panic msg | Some y \<Rightarrow> ret y)"

definition assert_that :: "string \<Rightarrow> bool \<Rightarrow> ('w, unit) action" where
  "assert_that msg ok = (if ok then ret () else panic msg)"

text \<open>One call of the machine: its answer is the result and is recorded.\<close>

definition ask :: "('w \<Rightarrow> 'a \<times> 'w) \<Rightarrow> ('a \<Rightarrow> act) \<Rightarrow> ('w, 'a) action" where
  "ask f r b = (let (x, w) = f (b_world b) in (Inr x, \<lparr>b_world = w, b_trace = b_trace b @ [r x]\<rparr>))"

definition println :: "string \<Rightarrow> ('w, unit) action" where
  "println line = ask (\<lambda>w. ((), w)) (\<lambda>_. Print line)"

definition status :: "('w, 't) machine \<Rightarrow> command \<Rightarrow> ('w, bool option) action" where
  "status m c = ask (m_status m c) (Status c)"

definition command_output :: "('w, 't) machine \<Rightarrow> command \<Rightarrow> ('w, (bool \<times> string) option) action" where
  "command_output m c = ask (m_output m c) (Output c)"

definition read_to_string :: "('w, 't) machine \<Rightarrow> string \<Rightarrow> ('w, string option) action" where
  "read_to_string m path = ask (\<lambda>w. (m_read m path w, w)) (Read path)"

definition exists :: "('w, 't) machine \<Rightarrow> string \<Rightarrow> ('w, bool) action" where
  "exists m path = ask (\<lambda>w. (m_exists m path w, w)) (Exists path)"

definition create_dir_all :: "('w, 't) machine \<Rightarrow> string \<Rightarrow> ('w, bool) action" where
  "create_dir_all m path = ask (m_create_dir_all m path) (CreateDirAll path)"

definition write_to_file :: "('w, 't) machine \<Rightarrow> string \<Rightarrow> string \<Rightarrow> ('w, bool) action" where
  "write_to_file m path content = ask (m_write m path content) (Write path content)"

definition set_cmake_env :: "('w, 't) machine \<Rightarrow> ('w, unit) action" where
  "set_cmake_env m = ask (\<lambda>w. ((), m_set_cmake_env m w)) (\<lambda>_. SetCmakeEnv)"

definition cmake_build :: "('w, 't) machine \<Rightarrow> string \<Rightarrow> (string \<times> string) list \<Rightarrow> ('w, string option) action" where
  "cmake_build m dir defines = ask (m_cmake m dir defines) (Cmake dir defines)"

definition bindgen_generate :: "('w, 't) machine \<Rightarrow> string \<Rightarrow> string list \<Rightarrow> string list \<Rightarrow> ('w, string option) action" where
  "bindgen_generate m header args allow = ask (m_bindgen m header args allow) (Bindgen header args allow)"

lemmas machine_calls = println_def status_def command_output_def read_to_string_def exists_def create_dir_all_def
  write_to_file_def set_cmake_env_def cmake_build_def bindgen_generate_def

section \<open>The script\<close>

definition LIB_NAME :: string where "LIB_NAME = ''ngtcp2''"
definition STATIC_LIBS :: "string list" where "STATIC_LIBS = [''ngtcp2'', ''ngtcp2_crypto_boringssl'']"

definition must :: "'a option \<Rightarrow> ('w, 'a) action" where
  "must = expect ''build script must succeed''"

definition command :: "string list \<Rightarrow> command" where
  "command args = \<lparr>cmd_dir = None, cmd_args = args\<rparr>"

definition detect_aws_lc_links_name :: "(string \<times> string) list \<Rightarrow> ('w, string) action" where
  "detect_aws_lc_links_name env =
    (case find (\<lambda>(key, _). starts_with ''DEP_AWS_LC_'' key \<and> ends_with ''_INCLUDE'' key) env of
       Some (key, _) \<Rightarrow>
         and_then (must (strip_prefix ''DEP_'' key)) (\<lambda>x.
         and_then (must (strip_suffix ''_INCLUDE'' x)) (\<lambda>middle. ret (to_lowercase middle)))
     | None \<Rightarrow> panic ''DEP_AWS_LC_*_INCLUDE not found - aws-lc-sys dependency required'')"

definition aws_lc_include_dir :: "(string \<times> string) list \<Rightarrow> ('w, string) action" where
  "aws_lc_include_dir env =
    and_then (detect_aws_lc_links_name env) (\<lambda>links.
      let include_env = ''DEP_'' @ to_uppercase links @ ''_INCLUDE''
      in expect (include_env @ '' not set - aws-lc-sys dependency required'') (map_of env include_env))"

definition read_external_dependency :: "('w, 't) machine \<Rightarrow> (string \<times> string) list \<Rightarrow> string \<Rightarrow> ('w, 't) action" where
  "read_external_dependency m env name =
    and_then (must (map_of env ''CARGO_MANIFEST_DIR'')) (\<lambda>manifest_dir.
    and_then (read_to_string m (path_join manifest_dir ''Cargo.toml'')) (\<lambda>r.
    and_then (expect ''Failed to read Cargo.toml'' r) (\<lambda>cargo_toml.
    and_then (expect ''Failed to parse Cargo.toml'' (m_parse_toml m cargo_toml)) (\<lambda>parsed.
      expect (''Missing [package.metadata.external-dependencies.'' @ name @ '']'')
        (Option.bind (m_toml_get m parsed ''package'') (\<lambda>p. Option.bind (m_toml_get m p ''metadata'') (\<lambda>md.
         Option.bind (m_toml_get m md ''external-dependencies'') (\<lambda>e. Option.bind (m_toml_get m e name) (m_toml_as_table m)))))))))"

definition dep_str :: "('w, 't) machine \<Rightarrow> 't \<Rightarrow> string \<Rightarrow> string option" where
  "dep_str m dep field = Option.bind (m_toml_get m dep field) (m_toml_as_str m)"

definition fetch_ngtcp2 :: "('w, 't) machine \<Rightarrow> (string \<times> string) list \<Rightarrow> string \<Rightarrow> ('w, string) action" where
  "fetch_ngtcp2 m env out_dir =
    and_then (read_external_dependency m env ''ngtcp2'') (\<lambda>dep.
    and_then (expect ''Missing 'git' field in ngtcp2 dependency'' (dep_str m dep ''git'')) (\<lambda>git_url.
    let branch = dep_str m dep ''branch''; version = dep_str m dep ''version'';
        ngtcp2_dir = path_join out_dir ''ngtcp2''
    in
    and_then (assert_that (''ngtcp2 dependency requires either 'branch' or 'version'' @ [CHR 0x27])
        (\<not> (branch = None \<and> version = None))) (\<lambda>_.
    and_then (exists m ngtcp2_dir) (\<lambda>there.
    and_then
      (if there
       then and_then (status m \<lparr>cmd_dir = Some ngtcp2_dir, cmd_args = [''git'', ''fetch'', ''origin'', ''--tags'']\<rparr>) (\<lambda>st.
         if st = Some True then ret () else println ''cargo:warning=Failed to fetch ngtcp2; using existing checkout'')
       else
         and_then (status m (command [''git'', ''clone'', git_url, ngtcp2_dir])) (\<lambda>r.
         and_then (expect ''Failed to execute git clone'' r) (\<lambda>st.
         assert_that (''Failed to clone ngtcp2 from '' @ git_url) st))) (\<lambda>_.
    and_then (case (version, branch) of
        (Some ver, _) \<Rightarrow> ret (''v'' @ ver)
      | (None, Some branch_name) \<Rightarrow> ret branch_name
      | (None, None) \<Rightarrow> panic ''checked above'') (\<lambda>rev.
    and_then (status m \<lparr>cmd_dir = Some ngtcp2_dir, cmd_args = [''git'', ''checkout'', ''--force'', rev]\<rparr>) (\<lambda>r.
    and_then (expect ''Failed to execute git checkout'' r) (\<lambda>st.
    and_then (assert_that (''Failed to checkout '' @ rev @ '' in ngtcp2'') st) (\<lambda>_.
    ret ngtcp2_dir)))))))))"

definition should_use_prebuilt :: "build_config \<Rightarrow> bool" where
  "should_use_prebuilt cfg \<longleftrightarrow> \<not> (bc_source_build cfg \<or> bc_overwrite cfg)"

fun version_of_lines :: "string list \<Rightarrow> string option" where
  "version_of_lines [] = None"
| "version_of_lines (l # ls) =
    (case strip_prefix ''VERSION_ID='' l of
       Some v \<Rightarrow> let version = trim_matches (CHR 0x22) v
         in if version \<in> {''22.04'', ''24.04'', ''26.04''} then Some version else version_of_lines ls
     | None \<Rightarrow> version_of_lines ls)"

definition linux_version :: "('w, 't) machine \<Rightarrow> ('w, string) action" where
  "linux_version m =
    and_then (read_to_string m ''/etc/os-release'') (\<lambda>r.
    and_then (expect ''Failed to read /etc/os-release. Build with `--features source-build` instead'' r) (\<lambda>content.
    expect ''prebuilt ngtcp2 is not available for this Linux distribution. Build ngtcp2 from source with `--features source-build` instead''
      (version_of_lines (text_lines [] content))))"

definition var_or_default :: "(string \<times> string) list \<Rightarrow> string \<Rightarrow> string" where
  "var_or_default env name = (case map_of env name of Some v \<Rightarrow> v | None \<Rightarrow> [])"

definition target_platform :: "('w, 't) machine \<Rightarrow> (string \<times> string) list \<Rightarrow> ('w, string) action" where
  "target_platform m env =
    (case map_of env ''NGTCP2_TARGET'' of
       Some target \<Rightarrow> ret target
     | None \<Rightarrow>
       let target_os = var_or_default env ''CARGO_CFG_TARGET_OS''; target_arch = var_or_default env ''CARGO_CFG_TARGET_ARCH'' in
       if target_os = ''linux'' \<and> target_arch = ''x86_64'' then and_then (linux_version m) (\<lambda>v. ret (''ubuntu-'' @ v @ ''_x86_64''))
       else if target_os = ''linux'' \<and> target_arch = ''aarch64'' then and_then (linux_version m) (\<lambda>v. ret (''ubuntu-'' @ v @ ''_arm64''))
       else if target_os = ''macos'' \<and> target_arch = ''aarch64'' then ret ''macos_arm64''
       else panic (''prebuilt ngtcp2 is not available for os='' @ target_os @ '', arch='' @ target_arch
         @ ''. Build ngtcp2 from source with `--features source-build` instead''))"

definition download :: "('w, 't) machine \<Rightarrow> string \<Rightarrow> string \<Rightarrow> ('w, unit) action" where
  "download m url dest =
    and_then (status m (command [''curl'', ''-fsSL'', ''-o'', dest, url])) (\<lambda>r.
    and_then (expect ''Failed to execute curl. Ensure curl is installed'' r) (\<lambda>st.
    assert_that (''Failed to download '' @ url @ ''. Build ngtcp2 from source with `--features source-build` instead'') st))"

definition sha256_command :: "build_config \<Rightarrow> string \<Rightarrow> command" where
  "sha256_command cfg path =
    command (if bc_macos cfg then [''shasum'', ''-a'', ''256'', path] else [''sha256sum'', path])"

definition compute_sha256 :: "('w, 't) machine \<Rightarrow> build_config \<Rightarrow> string \<Rightarrow> ('w, string) action" where
  "compute_sha256 m cfg path =
    and_then (command_output m (sha256_command cfg path)) (\<lambda>r.
    and_then (expect (if bc_macos cfg then ''Failed to execute shasum. Ensure shasum is installed''
                      else ''Failed to execute sha256sum. Ensure coreutils is installed'') r) (\<lambda>(success, stdout).
    and_then (assert_that (''Failed to compute SHA256 checksum of '' @ path) success) (\<lambda>_.
    and_then (expect ''Unexpected shasum/sha256sum output format'' (first_word stdout)) (\<lambda>hash.
    ret (to_lowercase hash)))))"

definition verify_sha256 :: "('w, 't) machine \<Rightarrow> build_config \<Rightarrow> string \<Rightarrow> string \<Rightarrow> ('w, unit) action" where
  "verify_sha256 m cfg file_path checksum_path =
    and_then (read_to_string m checksum_path) (\<lambda>r.
    and_then (expect ''Failed to read SHA256 checksum file'' r) (\<lambda>content.
    and_then (expect ''SHA256 checksum file is empty'' (first_word content)) (\<lambda>word.
    let expected = to_lowercase word in
    and_then (compute_sha256 m cfg file_path) (\<lambda>actual.
    assert_that (''SHA256 checksum mismatch: expected: '' @ expected @ '' actual: '' @ actual) (actual = expected)))))"

definition download_prebuilt :: "('w, 't) machine \<Rightarrow> build_config \<Rightarrow> string \<Rightarrow> ('w, string \<times> string) action" where
  "download_prebuilt m cfg out_dir =
    and_then (target_platform m (bc_env cfg)) (\<lambda>target.
    and_then (expect ''CARGO_PKG_VERSION is not set'' (map_of (bc_env cfg) ''CARGO_PKG_VERSION'')) (\<lambda>version.
    let base_url = ''https://github.com/shiguredo/ngtcp2-rs/releases/download/'' @ version;
        archive_name = LIB_NAME @ ''-'' @ target @ ''.tar.gz'';
        archive_url = base_url @ ''/'' @ archive_name;
        checksum_url = archive_url @ ''.sha256'';
        archive_path = path_join out_dir ''prebuilt.tar.gz'';
        checksum_path = path_join out_dir ''prebuilt.tar.gz.sha256'';
        prebuilt_dir = path_join out_dir ''prebuilt'';
        lib_dir = path_join prebuilt_dir ''lib'';
        include_dir = path_join prebuilt_dir ''include''
    in
    and_then (create_dir_all m prebuilt_dir) (\<lambda>ok.
    and_then (assert_that ''Failed to create prebuilt directory'' ok) (\<lambda>_.
    and_then (download m archive_url archive_path) (\<lambda>_.
    and_then (download m checksum_url checksum_path) (\<lambda>_.
    and_then (verify_sha256 m cfg archive_path checksum_path) (\<lambda>_.
    and_then (status m (command [''tar'', ''xzf'', archive_path, ''-C'', prebuilt_dir])) (\<lambda>r.
    and_then (expect ''Failed to execute tar. Ensure tar is installed'' r) (\<lambda>st.
    and_then (assert_that (''Failed to extract '' @ archive_url) st) (\<lambda>_.
    and_then (for_each (\<lambda>lib. let path = path_join lib_dir (''lib'' @ lib @ ''.a'') in
        and_then (exists m path) (assert_that (path @ '' is missing in '' @ archive_url
          @ ''. Build ngtcp2 from source with `--features source-build` instead''))) STATIC_LIBS) (\<lambda>_.
    ret (lib_dir, include_dir))))))))))))"

definition overwrite_bindgen :: "('w, 't) machine \<Rightarrow> (string \<times> string) list \<Rightarrow> string \<Rightarrow> ('w, unit) action" where
  "overwrite_bindgen m env out_dir =
    and_then (must (map_of env ''CARGO_MANIFEST_DIR'')) (\<lambda>manifest_dir.
    let ngtcp2_installed_include = path_join out_dir ''include'';
        ngtcp2_source_include = path_join (path_join (path_join out_dir ''ngtcp2'') ''lib'') ''includes''
    in
    and_then (aws_lc_include_dir env) (\<lambda>aws_lc_include.
    and_then (bindgen_generate m (path_join manifest_dir ''src/wrapper.h'')
        [''-I'' @ ngtcp2_installed_include, ''-I'' @ ngtcp2_source_include, ''-I'' @ aws_lc_include]
        [''ngtcp2_.*'', ''ngtcp2_.*'', ''NGTCP2_.*'']) (\<lambda>r.
    and_then (expect ''Failed to generate ngtcp2 bindings'' r) (\<lambda>bindings.
    and_then (write_to_file m (path_join (path_join manifest_dir ''src'') ''bindings.rs'') bindings)
      (assert_that ''Failed to write ngtcp2 bindings'')))))"

definition build_from_source :: "('w, 't) machine \<Rightarrow> build_config \<Rightarrow> string \<Rightarrow> ('w, string \<times> string) action" where
  "build_from_source m cfg out_dir =
    and_then (fetch_ngtcp2 m (bc_env cfg) out_dir) (\<lambda>ngtcp2_dir.
    and_then (aws_lc_include_dir (bc_env cfg)) (\<lambda>aws_lc_include.
    and_then (expect ''Failed to get parent directory of include path'' (path_parent aws_lc_include)) (\<lambda>aws_lc_out_dir.
    and_then (detect_aws_lc_links_name (bc_env cfg)) (\<lambda>aws_lc_links.
    let aws_lc_lib_dir = path_join (path_join aws_lc_out_dir ''build'') ''artifacts'';
        ssl_lib = path_join aws_lc_lib_dir (if bc_msvc cfg then aws_lc_links @ ''_ssl.lib'' else ''lib'' @ aws_lc_links @ ''_ssl.a'');
        crypto_lib = path_join aws_lc_lib_dir
          (if bc_msvc cfg then aws_lc_links @ ''_crypto.lib'' else ''lib'' @ aws_lc_links @ ''_crypto.a'');
        boringssl_libraries = replace_char (CHR 0x5C) (CHR ''/'') ssl_lib @ '';'' @ replace_char (CHR 0x5C) (CHR ''/'') crypto_lib
    in
    and_then (set_cmake_env m) (\<lambda>_.
    and_then (cmake_build m ngtcp2_dir
       [(''ENABLE_STATIC_LIB'', ''ON''), (''ENABLE_SHARED_LIB'', ''OFF''), (''ENABLE_LIB_ONLY'', ''ON''), (''BUILD_TESTING'', ''OFF''),
        (''ENABLE_OPENSSL'', ''OFF''), (''ENABLE_BORINGSSL'', ''ON''), (''BORINGSSL_INCLUDE_DIR'', aws_lc_include),
        (''BORINGSSL_LIBRARIES'', boringssl_libraries)]) (\<lambda>r.
    and_then (expect ''cmake failed'' r) (\<lambda>ngtcp2_dst.
    and_then (exists m (path_join ngtcp2_dst ''lib64'')) (\<lambda>lib64.
    and_then (if bc_overwrite cfg then overwrite_bindgen m (bc_env cfg) out_dir else ret ()) (\<lambda>_.
    ret (path_join ngtcp2_dst (if lib64 then ''lib64'' else ''lib''), path_join ngtcp2_dst ''include''))))))))))"

definition main :: "('w, 't) machine \<Rightarrow> build_config \<Rightarrow> ('w, unit) action" where
  "main m cfg =
    and_then (for_each println [''cargo::rerun-if-changed=Cargo.toml'', ''cargo::rerun-if-changed=src/wrapper.h'',
      ''cargo::rerun-if-changed=build.rs'', ''cargo::rerun-if-env-changed=CARGO_FEATURE_SOURCE_BUILD'',
      ''cargo::rerun-if-env-changed=NGTCP2_TARGET'']) (\<lambda>_.
    and_then (must (map_of (bc_env cfg) ''OUT_DIR'')) (\<lambda>out_dir.
    if map_of (bc_env cfg) ''DOCS_RS'' \<noteq> None then ret ()
    else
    and_then (if should_use_prebuilt cfg then download_prebuilt m cfg out_dir else build_from_source m cfg out_dir)
      (\<lambda>(lib_dir, include_dir).
    and_then (println (''cargo:rustc-link-search=native='' @ lib_dir)) (\<lambda>_.
    and_then (for_each (\<lambda>lib. println (''cargo:rustc-link-lib=static='' @ lib)) STATIC_LIBS) (\<lambda>_.
    println (''cargo:include='' @ include_dir))))))"

section \<open>What the script may do before it has checked the archive\<close>

text \<open>Unpacking an archive and telling cargo what to link are the risky acts.\<close>

fun risky :: "act \<Rightarrow> bool" where
  "risky (Status c _) \<longleftrightarrow> take 1 (cmd_args c) = [''tar'']"
| "risky (Print line) \<longleftrightarrow> starts_with ''cargo:rustc-link'' line"
| "risky _ \<longleftrightarrow> False"

definition quiet :: "act list \<Rightarrow> bool" where
  "quiet t \<longleftrightarrow> list_all (\<lambda>x. \<not> risky x) t"

definition checked_archive :: "build_config \<Rightarrow> string \<Rightarrow> act list \<Rightarrow> bool" where
  "checked_archive cfg out_dir t \<longleftrightarrow>
    (\<exists>us vs url content stdout e a. let archive = path_join out_dir ''prebuilt.tar.gz''; checksum = path_join out_dir ''prebuilt.tar.gz.sha256'' in
       t = us @ [Status (command [''curl'', ''-fsSL'', ''-o'', archive, url]) (Some True),
                 Status (command [''curl'', ''-fsSL'', ''-o'', checksum, url @ ''.sha256'']) (Some True),
                 Read checksum (Some content), Output (sha256_command cfg archive) (Some (True, stdout))] @ vs
       \<and> first_word content = Some e \<and> first_word stdout = Some a \<and> to_lowercase a = to_lowercase e)"

lemma checked_archive_app: "checked_archive cfg out_dir t \<Longrightarrow> checked_archive cfg out_dir (us @ t @ vs)"
  unfolding checked_archive_def Let_def by (metis append.assoc)

lemma quiet_simps [simp]: "quiet []" "quiet (x # t) \<longleftrightarrow> \<not> risky x \<and> quiet t" "quiet (t @ u) \<longleftrightarrow> quiet t \<and> quiet u"
  by (simp_all add: quiet_def)

lemma and_then_run:
  "and_then f g b = (case fst (f b) of Inl e \<Rightarrow> (Inl e, snd (f b)) | Inr x \<Rightarrow> g x (snd (f b)))"
  by (simp add: and_then_def split: prod.split sum.split)

lemma and_then_assoc: "and_then (and_then a f) g = and_then a (\<lambda>x. and_then (f x) g)"
  by (rule ext) (simp add: and_then_def split: prod.split sum.split)

text \<open>How an action extends the trace: by anything, by harmless acts only, or by harmless acts up to a checked
  archive and anything after it.\<close>

definition grows :: "('w, 'a) action \<Rightarrow> bool" where
  "grows f \<longleftrightarrow> (\<forall>b. \<exists>t. b_trace (snd (f b)) = b_trace b @ t)"

definition calm :: "('w, 'a) action \<Rightarrow> bool" where
  "calm f \<longleftrightarrow> (\<forall>b. \<exists>t. b_trace (snd (f b)) = b_trace b @ t \<and> quiet t)"

definition gated :: "build_config \<Rightarrow> string \<Rightarrow> ('w, 'a) action \<Rightarrow> bool" where
  "gated cfg out_dir f \<longleftrightarrow> (\<forall>b. \<exists>q t. b_trace (snd (f b)) = b_trace b @ q @ t \<and> quiet q \<and>
     (t \<noteq> [] \<or> \<not> isl (fst (f b)) \<longrightarrow> checked_archive cfg out_dir q))"

named_theorems acts

lemma calm_grows: "calm f \<Longrightarrow> grows f"
  unfolding calm_def grows_def by blast

lemma grows_basic [acts]: "grows (ret x)" "grows (panic msg)" "grows (expect msg y)" "grows (assert_that msg ok)" "grows (ask g r)"
  by (auto simp: grows_def ret_def panic_def expect_def assert_that_def ask_def split: option.split prod.split)

lemma calm_basic [acts]: "calm (ret x)" "calm (panic msg)" "calm (expect msg y)" "calm (assert_that msg ok)"
  by (auto simp: calm_def ret_def panic_def expect_def assert_that_def split: option.split)

lemma calm_ask [acts]: "(\<And>x. \<not> risky (r x)) \<Longrightarrow> calm (ask g r)"
  by (auto simp: calm_def ask_def split: prod.split)

lemma grows_and_then [acts]:
  assumes "grows f" "\<And>x. grows (g x)"
  shows "grows (and_then f g)"
  unfolding grows_def
proof
  fix b
  obtain t where "b_trace (snd (f b)) = b_trace b @ t" using assms(1) unfolding grows_def by blast
  moreover have "\<exists>u. b_trace (snd (g x (snd (f b)))) = b_trace (snd (f b)) @ u" for x using assms(2) unfolding grows_def by blast
  ultimately show "\<exists>t. b_trace (snd (and_then f g b)) = b_trace b @ t"
    by (cases "fst (f b)") (force simp: and_then_run)+
qed

lemma calm_and_then [acts]:
  assumes "calm f" "\<And>x. calm (g x)"
  shows "calm (and_then f g)"
  unfolding calm_def
proof
  fix b
  obtain t where "b_trace (snd (f b)) = b_trace b @ t" "quiet t" using assms(1) unfolding calm_def by blast
  moreover have "\<exists>u. b_trace (snd (g x (snd (f b)))) = b_trace (snd (f b)) @ u \<and> quiet u" for x
    using assms(2) unfolding calm_def by blast
  ultimately show "\<exists>t. b_trace (snd (and_then f g b)) = b_trace b @ t \<and> quiet t"
    by (cases "fst (f b)") (force simp: and_then_run)+
qed

lemma calm_for_each [acts]: "(\<And>x. x \<in> set xs \<Longrightarrow> calm (f x)) \<Longrightarrow> calm (for_each f xs)"
  by (induction xs) (simp_all add: acts)

lemma grows_for_each [acts]: "(\<And>x. grows (f x)) \<Longrightarrow> grows (for_each f xs)"
  by (induction xs) (simp_all add: acts)

lemma gated_after_calm:
  assumes "calm f" "\<And>x. gated cfg out_dir (g x)"
  shows "gated cfg out_dir (and_then f g)"
  unfolding gated_def
proof
  fix b
  obtain t where t: "b_trace (snd (f b)) = b_trace b @ t" "quiet t" using assms(1) unfolding calm_def by blast
  show "\<exists>q u. b_trace (snd (and_then f g b)) = b_trace b @ q @ u \<and> quiet q
      \<and> (u \<noteq> [] \<or> \<not> isl (fst (and_then f g b)) \<longrightarrow> checked_archive cfg out_dir q)"
  proof (cases "fst (f b)")
    case (Inl e)
    with t show ?thesis by (intro exI [of _ t] exI [of _ "[]"]) (auto simp: and_then_run)
  next
    case (Inr x)
    then have eq: "and_then f g b = g x (snd (f b))" by (simp add: and_then_run)
    obtain q u where "b_trace (snd (g x (snd (f b)))) = b_trace (snd (f b)) @ q @ u" "quiet q"
      "u \<noteq> [] \<or> \<not> isl (fst (g x (snd (f b)))) \<longrightarrow> checked_archive cfg out_dir q"
      using assms(2) unfolding gated_def by blast
    with t show ?thesis
      by (intro exI [of _ "t @ q"] exI [of _ u]) (use checked_archive_app [of cfg out_dir q t "[]"] in \<open>auto simp: eq\<close>)
  qed
qed

lemma gated_before:
  assumes "gated cfg out_dir f" "\<And>x. grows (g x)"
  shows "gated cfg out_dir (and_then f g)"
  unfolding gated_def
proof
  fix b
  obtain q t where f: "b_trace (snd (f b)) = b_trace b @ q @ t" "quiet q" "t \<noteq> [] \<or> \<not> isl (fst (f b)) \<longrightarrow> checked_archive cfg out_dir q"
    using assms(1) unfolding gated_def by blast
  show "\<exists>q u. b_trace (snd (and_then f g b)) = b_trace b @ q @ u \<and> quiet q
      \<and> (u \<noteq> [] \<or> \<not> isl (fst (and_then f g b)) \<longrightarrow> checked_archive cfg out_dir q)"
  proof (cases "fst (f b)")
    case (Inl e)
    with f show ?thesis by (intro exI [of _ q] exI [of _ t]) (auto simp: and_then_run)
  next
    case (Inr x)
    then have eq: "and_then f g b = g x (snd (f b))" by (simp add: and_then_run)
    obtain u where "b_trace (snd (g x (snd (f b)))) = b_trace (snd (f b)) @ u" using assms(2) unfolding grows_def by blast
    with f Inr show ?thesis by (intro exI [of _ q] exI [of _ "t @ u"]) (auto simp: eq)
  qed
qed

lemma download_acts [acts]: "calm (download m url dest)"
  unfolding download_def machine_calls by (intro acts) (simp add: command_def)

lemma target_platform_acts [acts]: "calm (target_platform m env)"
  unfolding target_platform_def linux_version_def machine_calls Let_def
  by (auto intro!: acts split: option.split)

text \<open>The two downloads and the comparison, up to the first failure.\<close>

lemma download_run:
  "\<exists>st. b_trace (snd (download m url dest b)) = b_trace b @ [Status (command [''curl'', ''-fsSL'', ''-o'', dest, url]) st]
     \<and> (\<not> isl (fst (download m url dest b)) \<longrightarrow> st = Some True)"
  by (auto simp: download_def machine_calls and_then_def ask_def expect_def assert_that_def ret_def panic_def
      split: prod.split option.split)

lemma verify_run:
  "\<exists>t. b_trace (snd (verify_sha256 m cfg file checksum b)) = b_trace b @ t \<and> quiet t
     \<and> (\<not> isl (fst (verify_sha256 m cfg file checksum b)) \<longrightarrow>
          (\<exists>content stdout e a. t = [Read checksum (Some content), Output (sha256_command cfg file) (Some (True, stdout))]
             \<and> first_word content = Some e \<and> first_word stdout = Some a \<and> to_lowercase a = to_lowercase e))"
  by (auto simp: verify_sha256_def compute_sha256_def machine_calls and_then_def ask_def expect_def assert_that_def
      ret_def panic_def Let_def split: prod.split option.split)

lemma download_checked:
  assumes "p1 = path_join out_dir ''prebuilt.tar.gz''" "p2 = path_join out_dir ''prebuilt.tar.gz.sha256''"
  shows "gated cfg out_dir (and_then (download m url p1) (\<lambda>_. and_then (download m (url @ ''.sha256'') p2) (\<lambda>_. verify_sha256 m cfg p1 p2)))"
  (is "gated cfg out_dir ?f")
  unfolding gated_def
proof
  fix b
  define b1 b2 b3 where "b1 = download m url p1 b" and "b2 = download m (url @ ''.sha256'') p2 (snd b1)"
    and "b3 = verify_sha256 m cfg p1 p2 (snd b2)"
  note defs = b1_def b2_def b3_def
  obtain s1 where 1: "b_trace (snd b1) = b_trace b @ [Status (command [''curl'', ''-fsSL'', ''-o'', p1, url]) s1]"
    "\<not> isl (fst b1) \<longrightarrow> s1 = Some True"
    using download_run [of m url p1 b] unfolding defs by blast
  obtain s2 where 2: "b_trace (snd b2) = b_trace (snd b1) @ [Status (command [''curl'', ''-fsSL'', ''-o'', p2, url @ ''.sha256'']) s2]"
    "\<not> isl (fst b2) \<longrightarrow> s2 = Some True"
    using download_run [of m "url @ ''.sha256''" p2 "snd b1"] unfolding defs by blast
  obtain t where 3: "b_trace (snd b3) = b_trace (snd b2) @ t" "quiet t"
    "\<not> isl (fst b3) \<longrightarrow> (\<exists>content stdout e a. t = [Read p2 (Some content), Output (sha256_command cfg p1) (Some (True, stdout))]
             \<and> first_word content = Some e \<and> first_word stdout = Some a \<and> to_lowercase a = to_lowercase e)"
    using verify_run [of m cfg p1 p2 "snd b2"] unfolding defs by blast
  have run: "?f b = (case fst b1 of Inl e \<Rightarrow> (Inl e, snd b1) | Inr _ \<Rightarrow> case fst b2 of Inl e \<Rightarrow> (Inl e, snd b2) | Inr _ \<Rightarrow> b3)"
    by (simp add: and_then_run defs split: sum.split)
  have ok: "checked_archive cfg out_dir ([Status (command [''curl'', ''-fsSL'', ''-o'', p1, url]) (Some True),
      Status (command [''curl'', ''-fsSL'', ''-o'', p2, url @ ''.sha256'']) (Some True)] @ t)" if "\<not> isl (fst b3)"
    using 3(3) that unfolding checked_archive_def Let_def assms by force
  have "\<exists>q. b_trace (snd (?f b)) = b_trace b @ q \<and> quiet q \<and> (\<not> isl (fst (?f b)) \<longrightarrow> checked_archive cfg out_dir q)"
    using 1 2 3(1,2) ok by (cases "fst b1"; cases "fst b2") (simp_all add: run command_def)
  then show "\<exists>q t. b_trace (snd (?f b)) = b_trace b @ q @ t \<and> quiet q \<and> (t \<noteq> [] \<or> \<not> isl (fst (?f b)) \<longrightarrow> checked_archive cfg out_dir q)"
    by (metis append_Nil2)
qed

lemma download_prebuilt_gated: "gated cfg out_dir (download_prebuilt m cfg out_dir)"
proof -
  note skip = gated_after_calm [OF target_platform_acts] gated_after_calm [OF calm_basic(3)] gated_after_calm [OF calm_ask]
    gated_after_calm [OF calm_basic(4)]
  show ?thesis
    unfolding download_prebuilt_def Let_def machine_calls append_assoc [symmetric]
    by (rule skip(1), rule skip(2), rule skip(3), simp, rule skip(4), subst and_then_assoc [symmetric],
        subst and_then_assoc [symmetric], subst and_then_assoc, rule gated_before [OF download_checked [OF refl refl]], intro acts)
qed

lemma rerun_lines_calm: "list_all (\<lambda>l. \<not> starts_with ''cargo:rustc-link'' l) ls \<Longrightarrow> calm (for_each println ls)"
  by (rule calm_for_each) (auto simp: machine_calls list_all_iff intro!: acts)

abbreviation (input) print_links :: "string \<times> string \<Rightarrow> ('w, unit) action" where
  "print_links \<equiv> \<lambda>(lib_dir, include_dir).
    and_then (println (''cargo:rustc-link-search=native='' @ lib_dir)) (\<lambda>_.
    and_then (for_each (\<lambda>lib. println (''cargo:rustc-link-lib=static='' @ lib)) STATIC_LIBS) (\<lambda>_.
    println (''cargo:include='' @ include_dir)))"

lemma and_then_ret: "and_then (ret x) f = f x"
  by (rule ext) (simp add: and_then_def ret_def)

lemma main_split:
  assumes "should_use_prebuilt cfg" "map_of (bc_env cfg) ''OUT_DIR'' = Some out_dir" "map_of (bc_env cfg) ''DOCS_RS'' = None"
  obtains ls where "calm (for_each println ls :: ('w, unit) action)"
    "main m cfg = and_then (for_each println ls) (\<lambda>_. and_then (download_prebuilt m cfg out_dir) print_links)"
proof
  show "calm (for_each println [''cargo::rerun-if-changed=Cargo.toml'', ''cargo::rerun-if-changed=src/wrapper.h'',
      ''cargo::rerun-if-changed=build.rs'', ''cargo::rerun-if-env-changed=CARGO_FEATURE_SOURCE_BUILD'',
      ''cargo::rerun-if-env-changed=NGTCP2_TARGET''])"
    by (rule rerun_lines_calm) (simp add: starts_with_def)
qed (simp only: main_def must_def expect_def assms option.case and_then_ret simp_thms if_True if_False refl)

lemma main_prebuilt:
  assumes "should_use_prebuilt cfg" "map_of (bc_env cfg) ''OUT_DIR'' = Some out_dir"
  shows "\<exists>q t. b_trace (snd (main m cfg b)) = b_trace b @ q @ t \<and> quiet q \<and>
    (t \<noteq> [] \<or> map_of (bc_env cfg) ''DOCS_RS'' = None \<and> \<not> isl (fst (main m cfg b)) \<longrightarrow> checked_archive cfg out_dir q)"
proof (cases "map_of (bc_env cfg) ''DOCS_RS''")
  case None
  obtain ls where ls: "calm (for_each println ls :: ('a, unit) action)"
    "main m cfg = and_then (for_each println ls) (\<lambda>_. and_then (download_prebuilt m cfg out_dir) print_links)"
    by (rule main_split [OF assms None])
  have "gated cfg out_dir (main m cfg)"
    unfolding ls(2) machine_calls split_def
    by (intro gated_after_calm gated_before download_prebuilt_gated acts ls(1) [unfolded machine_calls])
  with None show ?thesis unfolding gated_def by blast
next
  case (Some x)
  have "calm (main m cfg)"
    unfolding main_def must_def using assms Some by (auto intro!: acts simp: starts_with_def machine_calls)
  then obtain t where "b_trace (snd (main m cfg b)) = b_trace b @ t" "quiet t" unfolding calm_def by blast
  with Some show ?thesis by (intro exI [of _ t] exI [of _ "[]"]) simp
qed

text \<open>How the trace of a successful action ends.\<close>

definition lands :: "('w, 'a) action \<Rightarrow> ('a \<Rightarrow> act list) \<Rightarrow> bool" where
  "lands f T \<longleftrightarrow> (\<forall>b x b'. f b = (Inr x, b') \<longrightarrow> (\<exists>u. b_trace b' = u @ T x))"

lemma lands_and_then: "(\<And>x. lands (g x) T) \<Longrightarrow> lands (and_then f g) T"
  by (fastforce simp: lands_def and_then_def split: prod.splits sum.splits)

definition link_acts :: "string \<Rightarrow> act list" where
  "link_acts out_dir =
    (let lib_dir = path_join (path_join out_dir ''prebuilt'') ''lib''
     in map (\<lambda>lib. Exists (path_join lib_dir (''lib'' @ lib @ ''.a'')) True) STATIC_LIBS
       @ [Print (''cargo:rustc-link-search=native='' @ lib_dir)]
       @ map (\<lambda>lib. Print (''cargo:rustc-link-lib=static='' @ lib)) STATIC_LIBS
       @ [Print (''cargo:include='' @ path_join (path_join out_dir ''prebuilt'') ''include'')])"

lemma libs_found:
  "lands (and_then (for_each (\<lambda>lib. and_then (exists m (p lib)) (assert_that (msg lib))) libs) (\<lambda>_. ret y))
     (\<lambda>r. map (\<lambda>lib. Exists (p lib) True) libs)"
proof -
  have "for_each (\<lambda>lib. and_then (exists m (p lib)) (assert_that (msg lib))) libs b = (Inr x, b')
     \<Longrightarrow> b_trace b' = b_trace b @ map (\<lambda>lib. Exists (p lib) True) libs" for b x b'
    by (induction libs arbitrary: b)
      (auto simp: and_then_def machine_calls ask_def assert_that_def ret_def panic_def split: if_splits)
  then show ?thesis
    by (auto simp: lands_def and_then_def ret_def split: prod.splits sum.splits)
qed

lemma download_prebuilt_lands:
  "lands (download_prebuilt m cfg out_dir)
     (\<lambda>_. map (\<lambda>lib. Exists (path_join (path_join (path_join out_dir ''prebuilt'') ''lib'') (''lib'' @ lib @ ''.a'')) True) STATIC_LIBS)"
  unfolding download_prebuilt_def Let_def by (intro lands_and_then libs_found)

lemma download_prebuilt_dirs:
  "download_prebuilt m cfg out_dir b = (Inr r, b')
    \<Longrightarrow> r = (path_join (path_join out_dir ''prebuilt'') ''lib'', path_join (path_join out_dir ''prebuilt'') ''include'')"
  by (auto simp: download_prebuilt_def Let_def and_then_def ret_def split: prod.splits sum.splits)

lemma main_links:
  assumes "should_use_prebuilt cfg" "map_of (bc_env cfg) ''OUT_DIR'' = Some out_dir" "map_of (bc_env cfg) ''DOCS_RS'' = None"
  shows "lands (main m cfg) (\<lambda>_. link_acts out_dir)"
proof -
  obtain ls where ls: "calm (for_each println ls :: ('a, unit) action)"
    "main m cfg = and_then (for_each println ls) (\<lambda>_. and_then (download_prebuilt m cfg out_dir) print_links)"
    by (rule main_split [OF assms])
  have "lands (and_then (download_prebuilt m cfg out_dir) print_links) (\<lambda>_. link_acts out_dir)"
    using download_prebuilt_lands [of m cfg out_dir] unfolding lands_def
    by (fastforce simp: and_then_def STATIC_LIBS_def link_acts_def machine_calls ask_def ret_def Let_def
        dest: download_prebuilt_dirs split: prod.splits sum.splits)
  then show ?thesis unfolding ls(2) by (rule lands_and_then)
qed

text \<open>C27. The build script links nothing it has not checked: when it works with prebuilt libraries, it unpacks the
  archive and names a library to cargo only after it has downloaded the archive and its checksum and the
  SHA-256 sum of the archive was the one in the checksum file, without a command in between; when it succeeds, it has found every
  library it tells cargo to link.\<close>

theorem prebuilt_checked:
  assumes "should_use_prebuilt cfg" "map_of (bc_env cfg) ''OUT_DIR'' = Some out_dir"
    and "main m cfg \<lparr>b_world = w, b_trace = []\<rparr> = (r, b')"
  shows "(b_trace b' = xs @ x # ys \<and> risky x \<longrightarrow> checked_archive cfg out_dir xs)
    \<and> (map_of (bc_env cfg) ''DOCS_RS'' = None \<and> r = Inr () \<longrightarrow>
        checked_archive cfg out_dir (b_trace b') \<and> (\<exists>us. b_trace b' = us @ link_acts out_dir))"
proof (intro conjI impI)
  obtain q t where q: "b_trace b' = q @ t" "quiet q"
    "t \<noteq> [] \<or> map_of (bc_env cfg) ''DOCS_RS'' = None \<and> \<not> isl r \<longrightarrow> checked_archive cfg out_dir q"
    using main_prebuilt [OF assms(1,2), of m "\<lparr>b_world = w, b_trace = []\<rparr>"] unfolding assms(3) by auto
  {
    assume x: "b_trace b' = xs @ x # ys \<and> risky x"
    then have "\<exists>u. xs = q @ u \<and> t = u @ x # ys"
      using q(1,2) by (auto simp: append_eq_append_conv2 Cons_eq_append_conv append_eq_Cons_conv)
    then show "checked_archive cfg out_dir xs"
      using q(3) checked_archive_app [of cfg out_dir q "[]"] by auto
  next
    assume ok: "map_of (bc_env cfg) ''DOCS_RS'' = None \<and> r = Inr ()"
    then show "checked_archive cfg out_dir (b_trace b')"
      using q checked_archive_app [of cfg out_dir q "[]" t] by auto
    show "\<exists>us. b_trace b' = us @ link_acts out_dir"
      using main_links [OF assms(1,2)] ok assms(3) unfolding lands_def by blast
  }
qed

definition sample_machine :: "(unit, unit) machine" where
  "sample_machine =
    \<lparr>m_status = (\<lambda>c w. (Some True, w)), m_output = (\<lambda>c w. (Some (True, ''AB12  file''), w)),
     m_read = (\<lambda>path w. Some ''ab12''), m_exists = (\<lambda>path w. True), m_create_dir_all = (\<lambda>path w. (True, w)),
     m_write = (\<lambda>path content w. (True, w)), m_parse_toml = (\<lambda>s. None), m_toml_get = (\<lambda>t k. None), m_toml_as_str = (\<lambda>t. None), m_toml_as_table = (\<lambda>t. None), m_set_cmake_env = (\<lambda>w. w),
     m_cmake = (\<lambda>dir defs w. (None, w)), m_bindgen = (\<lambda>h args allow w. (None, w))\<rparr>"

definition sample_build_config :: build_config where
  "sample_build_config =
    \<lparr>bc_env = [(''OUT_DIR'', ''/o''), (''CARGO_PKG_VERSION'', ''1''), (''NGTCP2_TARGET'', ''t'')],
     bc_source_build = False, bc_overwrite = False, bc_macos = False, bc_msvc = False\<rparr>"

theorem prebuilt_checked_witness:
  "fst (main sample_machine sample_build_config \<lparr>b_world = (), b_trace = []\<rparr>) = Inr ()
   \<and> checked_archive sample_build_config ''/o'' (b_trace (snd (main sample_machine sample_build_config \<lparr>b_world = (), b_trace = []\<rparr>)))"
proof -
  have ok: "fst (main sample_machine sample_build_config \<lparr>b_world = (), b_trace = []\<rparr>) = Inr ()" by code_simp
  have "should_use_prebuilt sample_build_config" "map_of (bc_env sample_build_config) ''OUT_DIR'' = Some ''/o''"
    "map_of (bc_env sample_build_config) ''DOCS_RS'' = None"
    by (simp_all add: should_use_prebuilt_def sample_build_config_def)
  with prebuilt_checked [OF this(1,2) prod.collapse [of "main sample_machine sample_build_config \<lparr>b_world = (), b_trace = []\<rparr>", symmetric]] ok
  show ?thesis by blast
qed

end
