(* ===== verification/TestCert.thy ===== *)
theory TestCert
  imports Types
begin

text \<open>
  The certificates of the interoperability tests (\<^verbatim>\<open>TestCert\<close> of \<^verbatim>\<open>src/interop/src/lib.rs\<close>): a CA and a server certificate, made with
  a third-party generator and written to a directory of their own, which is removed with them. The generator and the file
  system are parameters. The lemmas show that tests that run side by side do not take each other's files away.
\<close>

section \<open>The generator and the file system\<close>

datatype KeyUsagePurpose = KeyCertSign | CrlSign | DigitalSignature

datatype ExtendedKeyUsagePurpose = ServerAuth

record CertificateParams =
  cp_subject_alt_names :: "string list"
  cp_common_name :: "string option"
  cp_is_ca :: bool
  cp_key_usages :: "KeyUsagePurpose list"
  cp_extended_key_usages :: "ExtendedKeyUsagePurpose list"
  cp_use_authority_key_identifier_extension :: bool

text \<open>Every call that can fail returns an option. Creating a directory or writing a file may fail; removing a directory removes some
  or all of the files in it.\<close>

record ('k, 'r) cert_env =
  ce_params_new :: "string list \<Rightarrow> CertificateParams option"
  ce_key_generate :: "'r \<Rightarrow> 'k option \<times> 'r"
  ce_self_signed :: "CertificateParams \<Rightarrow> 'k \<Rightarrow> string option"
  ce_signed_by :: "CertificateParams \<Rightarrow> 'k \<Rightarrow> CertificateParams \<Rightarrow> 'k \<Rightarrow> string option"
  ce_serialize_pem :: "'k \<Rightarrow> string"
  ce_temp_dir :: string
  ce_process_id :: nat
  ce_create_dir_all :: "string \<Rightarrow> bool"
  ce_write :: "string \<Rightarrow> bool"
  ce_removes :: "string \<Rightarrow> bool"

text \<open>The counter is the static of \<^verbatim>\<open>generate\<close>; it wraps around.\<close>

record 'r cert_world =
  cw_counter :: u64
  cw_files :: "string \<rightharpoonup> string"
  cw_random :: 'r

section \<open>Certificates\<close>

record TestCert =
  tc_dir :: string
  tc_cert_path :: string
  tc_key_path :: string
  tc_ca_cert_path :: string
  tc_cert_pem :: string
  tc_key_pem :: string
  tc_ca_cert_pem :: string

definition dir_name :: "string \<Rightarrow> nat \<Rightarrow> u64 \<Rightarrow> string" where
  "dir_name label pid unique = ''ngtcp2_interop_'' @ label @ ''_'' @ show_nat pid @ ''_'' @ show_nat (unat unique)"

definition path_join :: "string \<Rightarrow> string \<Rightarrow> string" where
  "path_join dir name = dir @ ''/'' @ name"

definition ca_params :: "CertificateParams \<Rightarrow> CertificateParams" where
  "ca_params p = p\<lparr>cp_common_name := Some ''ngtcp2-rs interop test CA'', cp_is_ca := True,
     cp_key_usages := [KeyCertSign, CrlSign, DigitalSignature]\<rparr>"

definition server_params :: "CertificateParams \<Rightarrow> CertificateParams" where
  "server_params p = p\<lparr>cp_common_name := Some ''localhost'', cp_use_authority_key_identifier_extension := True,
     cp_key_usages := [DigitalSignature], cp_extended_key_usages := [ServerAuth]\<rparr>"

text \<open>The certificate of the server with its key, and the certificate of the CA; \<open>None\<close> is a panic.\<close>

definition make_pems :: "('k, 'r) cert_env \<Rightarrow> 'r \<Rightarrow> (string \<times> string \<times> string) option \<times> 'r" where
  "make_pems env r =
    (case ce_params_new env [] of
       None \<Rightarrow> (None, r)
     | Some p \<Rightarrow>
       let ca = ca_params p in
       case ce_key_generate env r of
         (None, r) \<Rightarrow> (None, r)
       | (Some ca_key, r) \<Rightarrow>
         case ce_self_signed env ca ca_key of
           None \<Rightarrow> (None, r)
         | Some ca_cert \<Rightarrow>
           case ce_params_new env [''localhost''] of
             None \<Rightarrow> (None, r)
           | Some p \<Rightarrow>
             case ce_key_generate env r of
               (None, r) \<Rightarrow> (None, r)
             | (Some server_key, r) \<Rightarrow>
               case ce_signed_by env (server_params p) server_key ca ca_key of
                 None \<Rightarrow> (None, r)
               | Some server_cert \<Rightarrow> (Some (server_cert, ce_serialize_pem env server_key, ca_cert), r))"

text \<open>Files are written in order until a write fails, which is a panic.\<close>

fun write_files :: "('k, 'r) cert_env \<Rightarrow> (string \<times> string) list \<Rightarrow> (string \<rightharpoonup> string) \<Rightarrow> bool \<times> (string \<rightharpoonup> string)" where
  "write_files env [] fs = (True, fs)"
| "write_files env ((path, pem) # rest) fs =
    (if ce_write env path then write_files env rest (fs(path \<mapsto> pem)) else (False, fs))"

definition generate :: "('k, 'r) cert_env \<Rightarrow> string \<Rightarrow> 'r cert_world \<Rightarrow> TestCert option \<times> 'r cert_world" where
  "generate env label w =
    (let unique = cw_counter w;
         w = w\<lparr>cw_counter := unique + 1\<rparr>;
         dir = path_join (ce_temp_dir env) (dir_name label (ce_process_id env) unique)
     in if \<not> ce_create_dir_all env dir then (None, w)
        else case make_pems env (cw_random w) of
          (None, r) \<Rightarrow> (None, w\<lparr>cw_random := r\<rparr>)
        | (Some (cert_pem, key_pem, ca_cert_pem), r) \<Rightarrow>
          let w = w\<lparr>cw_random := r\<rparr>;
              cert_path = path_join dir ''cert.pem'';
              key_path = path_join dir ''key.pem'';
              ca_cert_path = path_join dir ''ca_cert.pem'';
              (ok, fs) = write_files env [(cert_path, cert_pem), (key_path, key_pem), (ca_cert_path, ca_cert_pem)] (cw_files w);
              w = w\<lparr>cw_files := fs\<rparr>
          in if \<not> ok then (None, w)
             else (Some \<lparr>tc_dir = dir, tc_cert_path = cert_path, tc_key_path = key_path, tc_ca_cert_path = ca_cert_path,
               tc_cert_pem = cert_pem, tc_key_pem = key_pem, tc_ca_cert_pem = ca_cert_pem\<rparr>, w))"

definition inside :: "string \<Rightarrow> string \<Rightarrow> bool" where
  "inside dir path = (take (Suc (length dir)) path = dir @ ''/'')"

definition cert_drop :: "('k, 'r) cert_env \<Rightarrow> TestCert \<Rightarrow> 'r cert_world \<Rightarrow> 'r cert_world" where
  "cert_drop env c w =
    w\<lparr>cw_files := (\<lambda>path. if inside (tc_dir c) path \<and> ce_removes env path then None else cw_files w path)\<rparr>"

text \<open>Tests of one process make and drop certificates in any order.\<close>

datatype cert_op = Generate string | DropCert nat

fun cert_step :: "('k, 'r) cert_env \<Rightarrow> cert_op \<Rightarrow> TestCert list \<times> 'r cert_world \<Rightarrow> TestCert list \<times> 'r cert_world" where
  "cert_step env (Generate label) (live, w) =
    (case generate env label w of (None, w) \<Rightarrow> (live, w) | (Some c, w) \<Rightarrow> (live @ [c], w))"
| "cert_step env (DropCert i) (live, w) =
    (if i < length live then (take i live @ drop (Suc i) live, cert_drop env (live ! i) w) else (live, w))"

section \<open>Lemmas\<close>

lemma same_prefix: "a @ x # c = b @ x # d \<Longrightarrow> x \<notin> set a \<Longrightarrow> x \<notin> set b \<Longrightarrow> a = b"
proof (induction a arbitrary: b)
  case Nil
  then show ?case by (cases b) auto
next
  case (Cons y a)
  then show ?case by (cases b) auto
qed

lemma show_nat_chars: "set (show_nat n) \<subseteq> char_of ` {48..57 :: nat}"
proof (induction n rule: show_nat.induct)
  case (1 n)
  have d: "char_of (48 + m) \<in> char_of ` {48..57 :: nat}" if "m < 10" for m :: nat using that by auto
  show ?case
  proof (cases "n < 10")
    case True
    then show ?thesis using d [of n] by (simp add: show_nat.simps [of n])
  next
    case False
    then show ?thesis using 1 d [of "n mod 10"] by (simp add: show_nat.simps [of n])
  qed
qed

lemma show_nat_plain: "CHR ''_'' \<notin> set (show_nat n)" "CHR ''/'' \<notin> set (show_nat n)"
proof -
  have "CHR ''_'' \<notin> char_of ` {48..57 :: nat}" "CHR ''/'' \<notin> char_of ` {48..57 :: nat}"
    by (auto dest!: arg_cong [where f = "of_char :: char \<Rightarrow> nat"])
  then show "CHR ''_'' \<notin> set (show_nat n)" "CHR ''/'' \<notin> set (show_nat n)" using show_nat_chars [of n] by blast+
qed

definition read_nat :: "string \<Rightarrow> nat" where
  "read_nat s = foldl (\<lambda>a c. 10 * a + (of_char c - 48)) 0 s"

lemma read_show: "read_nat (show_nat n) = n"
proof (induction n rule: show_nat.induct)
  case (1 n)
  show ?case
  proof (cases "n < 10")
    case False
    have "(48 + n mod 10) mod 256 = 48 + n mod 10" by simp
    then have "read_nat (show_nat n) = 10 * read_nat (show_nat (n div 10)) + n mod 10"
      using False by (simp add: read_nat_def show_nat.simps [of n])
    then show ?thesis using 1 False by simp
  qed (simp add: show_nat.simps [of n] read_nat_def)
qed

lemma dir_name_unique: "dir_name l1 pid k1 = dir_name l2 pid k2 \<Longrightarrow> k1 = k2"
proof -
  assume "dir_name l1 pid k1 = dir_name l2 pid k2"
  then have "rev (dir_name l1 pid k1) = rev (dir_name l2 pid k2)" by simp
  then have "rev (show_nat (unat k1)) @ CHR ''_'' # rev (l1 @ ''_'' @ show_nat pid) @ rev ''ngtcp2_interop_''
      = rev (show_nat (unat k2)) @ CHR ''_'' # rev (l2 @ ''_'' @ show_nat pid) @ rev ''ngtcp2_interop_''"
    unfolding dir_name_def by simp
  then have "show_nat (unat k1) = show_nat (unat k2)"
    using same_prefix [of "rev (show_nat (unat k1))" "CHR ''_''" _ "rev (show_nat (unat k2))"] show_nat_plain by force
  then have "unat k1 = unat k2" using read_show by metis
  then show ?thesis by (simp add: word_unat_eq_iff)
qed

lemma dir_name_slash: "CHR ''/'' \<notin> set label \<Longrightarrow> CHR ''/'' \<notin> set (dir_name label pid k)"
  using show_nat_plain by (simp add: dir_name_def)

text \<open>The directories of two certificates contain none of each other's files.\<close>

lemma inside_other:
  assumes "inside (path_join tmp n1) (path_join (path_join tmp n2) file)" and "CHR ''/'' \<notin> set n1" and "CHR ''/'' \<notin> set n2"
  shows "n1 = n2"
proof -
  have "n1 @ CHR ''/'' # drop (Suc (length n1)) (n2 @ ''/'' @ file) = n2 @ CHR ''/'' # file"
    using assms(1) append_take_drop_id [of "Suc (length n1)" "n2 @ ''/'' @ file"] by (simp add: inside_def path_join_def)
  then show ?thesis using assms(2,3) by (rule same_prefix)
qed

definition holds_files :: "(string \<rightharpoonup> string) \<Rightarrow> TestCert \<Rightarrow> bool" where
  "holds_files fs c \<longleftrightarrow> fs (tc_cert_path c) = Some (tc_cert_pem c) \<and> fs (tc_key_path c) = Some (tc_key_pem c)
     \<and> fs (tc_ca_cert_path c) = Some (tc_ca_cert_pem c)"

text \<open>A certificate made with the number \<open>k\<close>.\<close>

definition made :: "('k, 'r) cert_env \<Rightarrow> u64 \<Rightarrow> TestCert \<Rightarrow> bool" where
  "made env k c \<longleftrightarrow> (\<exists>label. CHR ''/'' \<notin> set label \<and> tc_dir c = path_join (ce_temp_dir env) (dir_name label (ce_process_id env) k))
     \<and> tc_cert_path c = path_join (tc_dir c) ''cert.pem'' \<and> tc_key_path c = path_join (tc_dir c) ''key.pem''
     \<and> tc_ca_cert_path c = path_join (tc_dir c) ''ca_cert.pem''"

lemma made_apart:
  assumes "made env k1 c1" and "made env k2 c2" and "k1 \<noteq> k2"
  shows "\<not> inside (tc_dir c1) (path_join (tc_dir c2) file)"
  using assms inside_other dir_name_slash dir_name_unique unfolding made_def by metis

lemma inside_join: "inside dir (path_join dir file)"
  by (simp add: inside_def path_join_def)

text \<open>Changes of files inside another directory do not concern a certificate.\<close>

lemma holds_files_other:
  assumes "holds_files fs c" and "made env k c" and "\<And>path. \<not> inside d path \<Longrightarrow> fs1 path = fs path"
    and "\<And>file. \<not> inside d (path_join (tc_dir c) file)"
  shows "holds_files fs1 c"
  using assms unfolding holds_files_def made_def by metis

lemma write_files_outside: "\<forall>(path, pem) \<in> set l. inside d path \<Longrightarrow> \<not> inside d path \<Longrightarrow> snd (write_files env l fs) path = fs path"
  by (induction env l fs rule: write_files.induct) (auto simp: fun_upd_def)

lemma generate_outside:
  assumes "generate env label w = (r, w1)"
  shows "cw_counter w1 = cw_counter w + 1"
    "\<not> inside (path_join (ce_temp_dir env) (dir_name label (ce_process_id env) (cw_counter w))) path \<Longrightarrow> cw_files w1 path = cw_files w path"
proof -
  show "cw_counter w1 = cw_counter w + 1"
    using assms by (auto simp: generate_def Let_def split: if_splits option.splits prod.splits)
  assume n: "\<not> inside (path_join (ce_temp_dir env) (dir_name label (ce_process_id env) (cw_counter w))) path"
  let ?d = "path_join (ce_temp_dir env) (dir_name label (ce_process_id env) (cw_counter w))"
  have h: "fs path = cw_files w path" if "write_files env [(path_join ?d ''cert.pem'', a), (path_join ?d ''key.pem'', b),
      (path_join ?d ''ca_cert.pem'', c)] (cw_files w) = (ok, fs)" for a b c ok fs
  proof -
    have "\<forall>(path, pem) \<in> set [(path_join ?d ''cert.pem'', a), (path_join ?d ''key.pem'', b), (path_join ?d ''ca_cert.pem'', c)]. inside ?d path"
      by (simp add: inside_join)
    then show ?thesis using write_files_outside [OF _ n, of _ env "cw_files w"] that by (metis snd_conv)
  qed
  show "cw_files w1 path = cw_files w path"
    using assms by (auto simp: generate_def Let_def simp del: write_files.simps dest: h split: if_splits option.splits prod.splits)
qed

lemma generate_makes:
  assumes "generate env label w = (Some c, w1)" and "CHR ''/'' \<notin> set label"
  shows "made env (cw_counter w) c" "holds_files (cw_files w1) c"
  using assms by (auto simp: generate_def made_def holds_files_def path_join_def Let_def split: if_splits option.splits prod.splits)

text \<open>The certificates that are live after a number of steps were made with distinct numbers, and their files are in place.\<close>

definition certs_ok :: "('k, 'r) cert_env \<Rightarrow> nat \<Rightarrow> TestCert list \<times> 'r cert_world \<Rightarrow> bool" where
  "certs_ok env n = (\<lambda>(live, w). unat (cw_counter w) = n
     \<and> (\<exists>ks. distinct ks \<and> (\<forall>k \<in> set ks. unat k < n) \<and> list_all2 (\<lambda>k c. made env k c \<and> holds_files (cw_files w) c) ks live))"

lemma certs_okI:
  "unat (cw_counter w) = n \<Longrightarrow> distinct ks \<Longrightarrow> \<forall>k \<in> set ks. unat k < n
    \<Longrightarrow> list_all2 (\<lambda>k c. made env k c \<and> holds_files (cw_files w) c) ks live \<Longrightarrow> certs_ok env n (live, w)"
  unfolding certs_ok_def by blast

fun plain_label :: "cert_op \<Rightarrow> bool" where
  "plain_label (Generate label) = (CHR ''/'' \<notin> set label)"
| "plain_label (DropCert i) = True"

lemma generate_keeps:
  assumes "generate env label w = (r, w1)" and "CHR ''/'' \<notin> set label" and "made env k c" and "k \<noteq> cw_counter w" and "holds_files (cw_files w) c"
  shows "holds_files (cw_files w1) c"
proof (rule holds_files_other [OF assms(5,3)])
  let ?n = "dir_name label (ce_process_id env) (cw_counter w)"
  show "\<not> inside (path_join (ce_temp_dir env) ?n) path \<Longrightarrow> cw_files w1 path = cw_files w path" for path
    by (rule generate_outside(2) [OF assms(1)])
  show "\<not> inside (path_join (ce_temp_dir env) ?n) (path_join (tc_dir c) f)" for f
    using assms(2-4) inside_other dir_name_slash dir_name_unique unfolding made_def by metis
qed

lemma drop_keeps:
  assumes "made env k1 c1" and "made env k2 c2" and "k1 \<noteq> k2" and "holds_files (cw_files w) c2"
  shows "holds_files (cw_files (cert_drop env c1 w)) c2"
  by (rule holds_files_other [OF assms(4,2), of "tc_dir c1"]) (auto simp: cert_drop_def made_apart [OF assms(1-3)])

lemma generate_ok:
  assumes "certs_ok env n (live, w)" and "CHR ''/'' \<notin> set label" and "Suc n < 2 ^ 64"
  shows "certs_ok env (Suc n) (cert_step env (Generate label) (live, w))"
proof -
  obtain ks where w: "unat (cw_counter w) = n" and ks: "distinct ks" "\<forall>k \<in> set ks. unat k < n"
    and l: "list_all2 (\<lambda>k c. made env k c \<and> holds_files (cw_files w) c) ks live" using assms(1) by (auto simp: certs_ok_def)
  obtain r w1 where g: "generate env label w = (r, w1)" by fastforce
  have n: "unat (cw_counter w1) = Suc n"
    using generate_outside(1) [OF g] w assms(3) by (simp add: unat_word_ariths(1))
  have k: "k \<noteq> cw_counter w" if "k \<in> set ks" for k using that ks(2) w by auto
  have l1: "list_all2 (\<lambda>k c. made env k c \<and> holds_files (cw_files w1) c) ks live"
    using l by (rule list.rel_mono_strong) (auto intro: generate_keeps [OF g assms(2)] dest: k)
  show ?thesis
  proof (cases r)
    case None
    then show ?thesis using g n ks l1 by (auto simp: certs_ok_def intro!: exI [of _ ks])
  next
    case (Some c)
    then have "list_all2 (\<lambda>k c. made env k c \<and> holds_files (cw_files w1) c) (ks @ [cw_counter w]) (live @ [c])"
      using l1 generate_makes [OF g [unfolded Some] assms(2)] by (simp add: list_all2_appendI)
    moreover have "distinct (ks @ [cw_counter w])" "\<forall>k \<in> set (ks @ [cw_counter w]). unat k < Suc n" using ks k w by (auto simp: less_Suc_eq)
    ultimately have "certs_ok env (Suc n) (live @ [c], w1)" using certs_okI [OF n] by blast
    then show ?thesis using g Some by simp
  qed
qed

lemma drop_ok:
  assumes "certs_ok env n (live, w)"
  shows "certs_ok env n (cert_step env (DropCert i) (live, w))"
proof (cases "i < length live")
  case True
  obtain ks where w: "unat (cw_counter w) = n" and ks: "distinct ks" "\<forall>k \<in> set ks. unat k < n"
    and l: "list_all2 (\<lambda>k c. made env k c \<and> holds_files (cw_files w) c) ks live" using assms by (auto simp: certs_ok_def)
  have i: "i < length ks" using True l by (simp add: list_all2_lengthD)
  let ?ks = "take i ks @ drop (Suc i) ks" and ?live = "take i live @ drop (Suc i) live"
  have split: "ks = take i ks @ ks ! i # drop (Suc i) ks" by (rule id_take_nth_drop [OF i])
  have "distinct (take i ks @ ks ! i # drop (Suc i) ks)" using ks(1) split by simp
  then have d: "distinct ?ks" "ks ! i \<notin> set ?ks" by auto
  have sub: "set ?ks \<subseteq> set ks" by (auto dest: in_set_takeD in_set_dropD)
  have m: "made env (ks ! i) (live ! i)" using list_all2_nthD [OF l i] by simp
  have "list_all2 (\<lambda>k c. made env k c \<and> holds_files (cw_files w) c) ?ks ?live"
    using l by (intro list_all2_appendI list_all2_takeI list_all2_dropI)
  then have "list_all2 (\<lambda>k c. made env k c \<and> holds_files (cw_files (cert_drop env (live ! i) w)) c) ?ks ?live"
    by (rule list.rel_mono_strong) (use d(2) drop_keeps [OF m] in auto)
  moreover have "\<forall>k \<in> set ?ks. unat k < n" "unat (cw_counter (cert_drop env (live ! i) w)) = n"
    using ks(2) sub w by (blast, simp add: cert_drop_def)
  ultimately have "certs_ok env n (?live, cert_drop env (live ! i) w)" using certs_okI d(1) by blast
  then show ?thesis using True by simp
qed (use assms in simp)

lemma steps_ok:
  "certs_ok env n s \<Longrightarrow> list_all plain_label ops \<Longrightarrow> n + length ops < 2 ^ 64 \<Longrightarrow> \<exists>m. certs_ok env m (fold (cert_step env) ops s)"
proof (induction ops arbitrary: n s)
  case (Cons op ops)
  obtain live w where s: "s = (live, w)" by (cases s)
  obtain m where "certs_ok env m (cert_step env op s)" "m \<le> Suc n"
    using Cons.prems generate_ok [of env n live w] drop_ok [of env n live w] unfolding s by (cases op) fastforce+
  then show ?case using Cons.IH [of m "cert_step env op s"] Cons.prems(2,3) by simp
qed auto

text \<open>Whatever certificates the tests of a process make and drop, the files of the ones that are live are in place and hold what their
  owner expects, until the counter wraps around.\<close>

lemma cert_files_kept:
  assumes "list_all plain_label ops" and "length ops < 2 ^ 64"
    and "fold (cert_step env) ops ([], \<lparr>cw_counter = 0, cw_files = fs, cw_random = r\<rparr>) = (live, w)" and "c \<in> set live"
  shows "holds_files (cw_files w) c"
proof -
  have "certs_ok env 0 ([], \<lparr>cw_counter = 0, cw_files = fs, cw_random = r\<rparr>)" by (simp add: certs_ok_def)
  from steps_ok [OF this assms(1)] obtain m where "certs_ok env m (live, w)" using assms(2,3) by auto
  then show ?thesis using assms(4) unfolding certs_ok_def by (auto simp: list_all2_conv_all_nth in_set_conv_nth)
qed

end
