(* ===== verification/Fuzz.thy ===== *)
theory Fuzz
  imports TokenProps
begin

unbundle bit_operations_syntax

text \<open>
  The fuzz targets (\<^verbatim>\<open>src/fuzz/fuzz_targets\<close>). A target is a function of its input; \<open>None\<close> is a panic, by a failed
  \<^verbatim>\<open>assert\<close> or \<^verbatim>\<open>expect\<close>. What the fuzzer looks for on random inputs is shown for all of them: the targets of the pure
  functions never panic, and the target of a connection keeps the order of calls that ngtcp2 demands.
\<close>

section \<open>Targets of pure functions\<close>

text \<open>\<^verbatim>\<open>assert!\<close> and what follows it.\<close>

definition assert_then :: "bool \<Rightarrow> 'a option \<Rightarrow> 'a option" where
  "assert_then b k = (if b then k else None)"

definition fuzz_varint_decode :: "bytes \<Rightarrow> unit option" where
  "fuzz_varint_decode data =
    (case decode data of
       None \<Rightarrow> Some ()
     | Some (val, len) \<Rightarrow>
       assert_then (len = 1 \<or> len = 2 \<or> len = 4 \<or> len = 8) (
       assert_then (len \<le> length data) (
       assert_then (val \<le> varint_MAX) (
       case encode_to_vec val [] of
         None \<Rightarrow> None
       | Some buf \<Rightarrow>
         assert_then (length buf = encoded_len val) (
         assert_then (decode buf = Some (val, length buf)) (Some ()))))))"

definition fuzz_split_packets :: "bytes \<Rightarrow> unit option" where
  "fuzz_split_packets data =
    (case split_packets data of
       None \<Rightarrow> None
     | Some packets \<Rightarrow>
       let total = sum_list (map length packets) in
       assert_then (total = length data) (
       assert_then (list_all (\<lambda>packet. packet \<noteq> []) packets) (Some ())))"

definition fuzz_decode_packet_version :: "('a stateless_api_scheme) \<Rightarrow> bytes \<Rightarrow> unit option" where
  "fuzz_decode_packet_version api data =
    (case decode_packet_version api data of
       None \<Rightarrow> Some ()
     | Some pv \<Rightarrow>
       assert_then (pv_version pv \<noteq> 0) (
       if pv_header_type pv \<noteq> None
       then assert_then (pv_version pv = NGTCP2_PROTO_VER_V1 \<or> pv_version pv = NGTCP2_PROTO_VER_V2) (Some ())
       else Some ()))"

definition fuzz_accept_initial :: "('a stateless_api_scheme) \<Rightarrow> bytes \<Rightarrow> unit option" where
  "fuzz_accept_initial api data =
    (case accept_initial api data of
       None \<Rightarrow> Some ()
     | Some initial \<Rightarrow>
       assert_then (ai_version initial = NGTCP2_PROTO_VER_V1 \<or> ai_version initial = NGTCP2_PROTO_VER_V2) (
       assert_then (length data \<ge> MIN_INITIAL_DATAGRAM_SIZE) (
       if ai_token initial = [] then assert_then (cid_len (ai_dcid initial) \<ge> MIN_INITIAL_DCIDLEN) (Some ())
       else Some ())))"

section \<open>Targets of the tokens\<close>

fun corrupt_loop :: "bytes \<Rightarrow> nat \<Rightarrow> bytes \<Rightarrow> bytes" where
  "corrupt_loop corrupted i [] = corrupted"
| "corrupt_loop corrupted i (b # data) =
    corrupt_loop (if i < length corrupted then corrupted[i := corrupted ! i XOR b] else corrupted @ [b]) (Suc i) data"

definition corrupt :: "bytes \<Rightarrow> bytes \<Rightarrow> bytes" where
  "corrupt token data = corrupt_loop token 0 data"

text \<open>The targets drop the result of the verification; the model keeps it.\<close>

definition fuzz_verify_retry_token :: "('a stateless_api_scheme) \<Rightarrow> bytes \<Rightarrow> (cid result) option option" where
  "fuzz_verify_retry_token api data =
    (let secret = RetrySecret (replicate RETRY_SECRET_LEN 0x42);
         client_addr = SockV4 0x7F000001 4433
     in case (cid_new (replicate 8 0x11), cid_new (replicate 8 0x22)) of
       (Some retry_scid, Some original_dcid) \<Rightarrow>
         (case generate_retry_token api secret V1 client_addr retry_scid original_dcid 0 of
            Inl e \<Rightarrow> Some None
          | Inr token \<Rightarrow>
            Some (Some (verify_retry_token api secret (corrupt (avt_bytes token) data) V1 client_addr retry_scid
              (10 * 10 ^ 9) 0)))
     | _ \<Rightarrow> None)"

definition fuzz_verify_new_token :: "('a stateless_api_scheme) \<Rightarrow> bytes \<Rightarrow> (unit result) option option" where
  "fuzz_verify_new_token api data =
    (let secret = RetrySecret (replicate RETRY_SECRET_LEN 0x42);
         client_addr = SockV4 0x7F000001 4433
     in case generate_new_token api secret client_addr 0 of
          Inl e \<Rightarrow> Some None
        | Inr token \<Rightarrow>
          Some (Some (verify_new_token api secret (corrupt (avt_bytes token) data) client_addr (10 * 10 ^ 9) 0)))"

section \<open>The target of a connection\<close>

definition SEND_BUFFER_SIZE :: nat where "SEND_BUFFER_SIZE = 1500"

definition MAX_WRITE_ITERATIONS :: nat where "MAX_WRITE_ITERATIONS = 64"

definition FUZZ_ALPN :: bytes where "FUZZ_ALPN = map of_char ''hq-interop''"

text \<open>The two statics: TLS contexts that are made on first use and kept, with the contexts that are live.\<close>

record fuzz_state =
  fz_server_ctx :: "TlsContext option"
  fz_client_ctx :: "TlsContext option"
  fz_tls :: tls_heap

text \<open>The world of the target: the directory for temporary files and the process ID, the file system, the certificate
  generator (\<open>None\<close> when one of its calls fails), the calls that set up a context, and the results of \<^verbatim>\<open>SSL_new\<close> and
  \<^verbatim>\<open>SSL_set_ex_data\<close>. Removing the directory afterwards has no effect that the target observes.\<close>

record 's fuzz_env =
  fe_temp_dir :: string
  fe_pid :: nat
  fe_create_dir :: "string \<Rightarrow> bool"
  fe_write :: "string \<Rightarrow> string \<Rightarrow> bool"
  fe_generate :: "string list \<Rightarrow> (string \<times> string) option"
  fe_calls :: ctx_calls
  fe_ssl :: "'s option"
  fe_ex_data_rv :: int

definition server_tls_ctx :: "'s fuzz_env \<Rightarrow> fuzz_state \<Rightarrow> (TlsContext \<times> fuzz_state) option" where
  "server_tls_ctx env st =
    (case fz_server_ctx st of
       Some ctx \<Rightarrow> Some (ctx, st)
     | None \<Rightarrow>
       let temp_dir = fe_temp_dir env @ ''/ngtcp2_fuzz_certs_'' @ show_nat (fe_pid env);
           cert_path = temp_dir @ ''/cert.pem'';
           key_path = temp_dir @ ''/key.pem''
       in if \<not> fe_create_dir env temp_dir then None
          else case fe_generate env [''localhost''] of
            None \<Rightarrow> None
          | Some (cert, key) \<Rightarrow>
            if \<not> fe_write env cert_path cert then None
            else if \<not> fe_write env key_path key then None
            else case new_server (fe_calls env) cert_path key_path [FUZZ_ALPN] (fz_tls st) of
              (Inl e, h) \<Rightarrow> None
            | (Inr ctx, h) \<Rightarrow> Some (ctx, st\<lparr>fz_server_ctx := Some ctx, fz_tls := h\<rparr>))"

definition client_tls_ctx :: "'s fuzz_env \<Rightarrow> fuzz_state \<Rightarrow> (TlsContext \<times> fuzz_state) option" where
  "client_tls_ctx env st =
    (case fz_client_ctx st of
       Some ctx \<Rightarrow> Some (ctx, st)
     | None \<Rightarrow>
       case new_client_with_options (fe_calls env) [FUZZ_ALPN] False (fz_tls st) of
         (Inl e, h) \<Rightarrow> None
       | (Inr ctx, h) \<Rightarrow> Some (ctx, st\<lparr>fz_client_ctx := Some ctx, fz_tls := h\<rparr>))"

definition fuzz_session :: "'s fuzz_env \<Rightarrow> bool \<Rightarrow> fuzz_state \<Rightarrow> ('s TlsSession \<times> fuzz_state) option" where
  "fuzz_session env is_server st =
    (case (if is_server then server_tls_ctx env st else client_tls_ctx env st) of
       None \<Rightarrow> None
     | Some (ctx, st) \<Rightarrow>
       (case create_session (fe_ssl env) (fe_ex_data_rv env) ctx of Inl e \<Rightarrow> None | Inr t \<Rightarrow> Some (t, st)))"

text \<open>\<open>for _ in 0..MAX_WRITE_ITERATIONS\<close>, with the iterations that are left.\<close>

fun drain_loop :: "('c, 's, 'z) conn_api_scheme \<Rightarrow> nat \<Rightarrow> u64 \<Rightarrow> bytes \<Rightarrow> ('c, 's) Connection \<Rightarrow> ('c, 's) Connection" where
  "drain_loop api 0 ts buf c = c"
| "drain_loop api (Suc n) ts buf c =
    (case write_pkt api buf ts c of
       (Inl e, buf, c) \<Rightarrow> c
     | (Inr (len, _, _), buf, c) \<Rightarrow> if len = 0 then c else drain_loop api n ts buf c)"

definition drain_packets :: "('c, 's, 'z) conn_api_scheme \<Rightarrow> u64 \<Rightarrow> ('c, 's) Connection \<Rightarrow> ('c, 's) Connection" where
  "drain_packets api ts c = drain_loop api MAX_WRITE_ITERATIONS ts (replicate SEND_BUFFER_SIZE 0) c"

function poll_all_events :: "('c, 's) Connection \<Rightarrow> ('c, 's) Connection" where
  "poll_all_events c = (case poll_event c of (None, c) \<Rightarrow> c | (Some e, c) \<Rightarrow> poll_all_events c)"
  by pat_completeness auto

termination
  by (relation "measure (\<lambda>c. length (ud_events (c_user_data c)))") (auto simp: poll_event_def split: list.splits)

function poll_all_qlog :: "('c, 's) Connection \<Rightarrow> ('c, 's) Connection" where
  "poll_all_qlog c = (case poll_qlog_data c of (None, c) \<Rightarrow> c | (Some d, c) \<Rightarrow> poll_all_qlog c)"
  by pat_completeness auto

termination
  by (relation "measure (\<lambda>c. length (ud_qlog_data (c_user_data c)))") (auto simp: poll_qlog_data_def split: if_splits)

declare poll_all_events.simps [simp del] poll_all_qlog.simps [simp del]

definition fuzz_path :: PathInfo where
  "fuzz_path = \<lparr>path_local = SockV4 0x7F000001 50000, path_remote = SockV4 0x7F000001 4433\<rparr>"

definition fuzz_params :: "raw_transport_params \<Rightarrow> bool \<Rightarrow> cid \<Rightarrow> TransportParams" where
  "fuzz_params dflt_params is_server original_dcid =
    (let base_params = with_reset_stream_at True (with_datagram 1200 (transport_params_new dflt_params))
     in if is_server then with_original_dcid original_dcid base_params else base_params)"

definition fuzz_settings :: "raw_settings \<Rightarrow> Settings" where
  "fuzz_settings dflt = (settings_new dflt 0)\<lparr>
     s_stateless_reset_secret := Some (StatelessResetSecret (replicate STATELESS_RESET_SECRET_LEN 0x5a)), s_qlog := True\<rparr>"

text \<open>The part after the connection was made. \<open>infer\<close> is \<^verbatim>\<open>ngtcp2_err_infer_quic_transport_error_code\<close>.\<close>

definition after_read :: "('c, 's, 'z) conn_api_scheme \<Rightarrow> (int \<Rightarrow> u64) \<Rightarrow> unit result \<Rightarrow> ('c, 's) Connection \<Rightarrow> ('c, 's) Connection" where
  "after_read api infer r c =
    (case r of
       Inr _ \<Rightarrow> drain_packets api 0 c
     | Inl e \<Rightarrow>
       (case classify_connection_error e of
          Ignore \<Rightarrow> drain_packets api 0 c
        | TransportClose \<Rightarrow>
          snd (snd (conn_write_close api (replicate SEND_BUFFER_SIZE 0) (case e of Ngtcp2 _ code \<Rightarrow> infer code | _ \<Rightarrow> 0) [] 0 c))
        | ApplicationClose \<Rightarrow>
          snd (snd (conn_write_close api (replicate SEND_BUFFER_SIZE 0) (case e of Ngtcp2 _ code \<Rightarrow> infer code | _ \<Rightarrow> 0) [] 0 c))
        | SilentDrop \<Rightarrow> c
        | Terminal \<Rightarrow> c
        | Internal \<Rightarrow> c))"

definition fuzz_drive :: "('c, 's, 'z) conn_api_scheme \<Rightarrow> (int \<Rightarrow> u64) \<Rightarrow> bool \<Rightarrow> bytes \<Rightarrow> ('c, 's) Connection \<Rightarrow> ('c, 's) Connection" where
  "fuzz_drive api infer is_server datagram c =
    (let c = (if \<not> is_server then drain_packets api 0 c else c);
         (r, c) = read_pkt api fuzz_path packet_info_default datagram 0 c;
         c = after_read api infer r c
     in poll_all_qlog (poll_all_events c))"

definition fuzz_connection :: "('c, 's, 'z) conn_api_scheme \<Rightarrow> 's ssl_api \<Rightarrow> (string \<Rightarrow> bytes option) \<Rightarrow> raw_transport_params \<Rightarrow> mem \<Rightarrow> bool
    \<Rightarrow> cid \<Rightarrow> cid \<Rightarrow> cid \<Rightarrow> 's TlsSession \<Rightarrow> conn_heap \<Rightarrow> ('c, 's) Connection result \<times> conn_heap" where
  "fuzz_connection api ssl parse_ip dflt_params m is_server dcid scid original_dcid session h =
    (let params = fuzz_params dflt_params is_server original_dcid; settings = fuzz_settings (default_settings api)
     in if is_server
        then server_new api ssl m dcid scid (path_local fuzz_path) (path_remote fuzz_path) V1 session params settings h
        else client_new api ssl parse_ip m dcid scid (path_local fuzz_path) (path_remote fuzz_path) V1 ''localhost''
               session params settings h)"

text \<open>The connection is dropped at the end.\<close>

definition fuzz_conn_read_pkt :: "('c, 's, 'z) conn_api_scheme \<Rightarrow> 's ssl_api \<Rightarrow> (string \<Rightarrow> bytes option) \<Rightarrow> raw_transport_params \<Rightarrow> mem
    \<Rightarrow> (int \<Rightarrow> u64) \<Rightarrow> 's fuzz_env \<Rightarrow> bool \<Rightarrow> bytes \<Rightarrow> fuzz_state \<times> conn_heap \<Rightarrow> (fuzz_state \<times> conn_heap) option" where
  "fuzz_conn_read_pkt api ssl parse_ip dflt_params m infer env is_server datagram = (\<lambda>(st, h).
    case (cid_new (replicate 16 0x11), cid_new (replicate 16 0x22), cid_new (replicate 16 0x33)) of
      (Some dcid, Some scid, Some original_dcid) \<Rightarrow>
        (case fuzz_session env is_server st of
           None \<Rightarrow> None
         | Some (session, st) \<Rightarrow>
           (case fuzz_connection api ssl parse_ip dflt_params m is_server dcid scid original_dcid session h of
              (Inl e, h) \<Rightarrow> Some (st, h)
            | (Inr c, h) \<Rightarrow> Some (st, conn_drop (fuzz_drive api infer is_server datagram c) h)))
    | _ \<Rightarrow> None)"

section \<open>Lemmas\<close>

lemma assert_then_simps [simp]: "assert_then True k = k" "assert_then False k = None"
  by (simp_all add: assert_then_def)

lemma varint_target: "fuzz_varint_decode data = Some ()"
proof (cases "decode data")
  case (Some x)
  obtain v k where x: "x = (v, k)" by (cases x)
  note c = decode_canonical [OF Some [unfolded x]]
  then have v: "v \<le> varint_MAX" by blast
  have "encode_to_vec v [] = Some (wire v)" "decode (wire v) = Some (v, length (wire v))" "length (wire v) = encoded_len v"
    using encode_to_vec_wire [OF v, of "[]"] decode_wire [OF v, of "[]"] length_wire [of v] by simp_all
  then show ?thesis using c v by (auto simp: fuzz_varint_decode_def Some x)
qed (simp add: fuzz_varint_decode_def)

lemma split_target: "fuzz_split_packets data = Some ()"
proof -
  obtain ps where "split_packets data = Some ps" "concat ps = data" "[] \<notin> set ps" using sp.split_total by blast
  then show ?thesis by (auto simp: fuzz_split_packets_def assert_then_def length_concat list_all_iff)
qed

lemma version_target: "fuzz_decode_packet_version api data = Some ()"
proof (cases "decode_packet_version api data")
  case (Some pv)
  from decode_packet_version_sound [OF this] show ?thesis
    by (auto simp: fuzz_decode_packet_version_def Some assert_then_def from_u32_def split: if_splits)
qed (simp add: fuzz_decode_packet_version_def)

text \<open>The documentation of \<^verbatim>\<open>ngtcp2_accept\<close>: it accepts Initial packets of a supported version in datagrams of the minimum size,
  and one without a token only with a connection ID of the minimum length.\<close>

definition accepts_initials :: "('a stateless_api_scheme) \<Rightarrow> bool" where
  "accepts_initials api \<longleftrightarrow> (\<forall>data hd. ngtcp2_accept api data = (0, hd) \<longrightarrow>
     from_u32 (hd_version hd) \<noteq> None \<and> MIN_INITIAL_DATAGRAM_SIZE \<le> length data
     \<and> (hd_token hd \<in> {None, Some []} \<longrightarrow> MIN_INITIAL_DCIDLEN \<le> length (raw_cid_bytes (hd_dcid hd))))"

lemma accept_target:
  assumes "accepts_initials api"
  shows "fuzz_accept_initial api data = Some ()"
proof (cases "accept_initial api data")
  case (Some ai)
  then obtain hd where hd: "ngtcp2_accept api data = (0, hd)" "ai_version ai = hd_version hd"
      "cid_bytes (ai_dcid ai) = raw_cid_bytes (hd_dcid hd)" "ai_token ai = (case hd_token hd of None \<Rightarrow> [] | Some t \<Rightarrow> t)"
    by (auto simp: accept_initial_def cid_new_Some split: prod.splits if_splits option.splits)
  note a = assms [unfolded accepts_initials_def, rule_format, OF hd(1)]
  have v: "ai_version ai = NGTCP2_PROTO_VER_V1 \<or> ai_version ai = NGTCP2_PROTO_VER_V2"
    using a hd(2) by (auto simp: from_u32_def split: if_splits)
  have "MIN_INITIAL_DCIDLEN \<le> cid_len (ai_dcid ai)" if "ai_token ai = []"
    using that a hd(3,4) by (auto simp: cid_len_def split: option.splits)
  then show ?thesis using a v by (auto simp: fuzz_accept_initial_def Some assert_then_def)
qed (simp add: fuzz_accept_initial_def)

lemma corrupt_loop_zip:
  "corrupt_loop (pre @ token) (length pre) data
    = pre @ map2 (XOR) token data @ drop (length data) token @ drop (length token) data"
proof (induction data arbitrary: pre token)
  case (Cons b data)
  show ?case
  proof (cases token)
    case Nil
    then show ?thesis using Cons.IH [of "pre @ [b]" "[]"] by simp
  next
    case (Cons t ts)
    then show ?thesis using Cons.IH [of "pre @ [t XOR b]" ts] by (simp add: list_update_append nth_append)
  qed
qed simp

lemma corrupt_zip: "corrupt token data = map2 (XOR) token data @ drop (length data) token @ drop (length token) data"
  using corrupt_loop_zip [of "[]" token data] by (simp add: corrupt_def)

lemma xor_same: "t XOR b = t \<longleftrightarrow> b = 0" for t b :: "'a::len word"
  by (metis xor.assoc xor.left_neutral xor_self_eq xor.right_neutral)

lemma map2_xor_take: "length data \<le> length token \<Longrightarrow> map2 (XOR) token data = take (length data) token \<longleftrightarrow> (\<forall>b \<in> set data. b = (0 :: byte))"
proof (induction data arbitrary: token)
  case (Cons b data)
  then show ?case by (cases token) (auto simp: xor_same)
qed simp

text \<open>An input leaves the token as it is exactly when it is no longer than the token and all zero.\<close>

lemma corrupt_same: "corrupt token data = token \<longleftrightarrow> length data \<le> length token \<and> (\<forall>b \<in> set data. b = 0)"
proof (cases "length data \<le> length token")
  case True
  then have "corrupt token data = token \<longleftrightarrow> map2 (XOR) token data @ drop (length data) token = take (length data) token @ drop (length data) token"
    by (simp add: corrupt_zip)
  then show ?thesis using True map2_xor_take [OF True] by (simp only: append_same_eq) simp
next
  case False
  then have "length (corrupt token data) \<noteq> length token" by (simp add: corrupt_zip)
  then show ?thesis using False by auto
qed

text \<open>A run of writes: no write follows one that failed or had nothing to send.\<close>

fun writes_run :: "('c, 's, 'z) conn_api_scheme \<Rightarrow> ('c, 's) Connection \<Rightarrow> conn_op list \<Rightarrow> bool" where
  "writes_run api c [] = True"
| "writes_run api c (op # ops) =
    (case op of
       OpWrite buf ts \<Rightarrow>
         (ops \<noteq> [] \<longrightarrow> (\<exists>n i p. fst (write_pkt api buf ts c) = Inr (n, i, p) \<and> 0 < n)) \<and> writes_run api (conn_run_op api op c) ops
     | _ \<Rightarrow> False)"

lemma drain_loop_ops:
  "\<exists>ops. drain_loop api n ts buf c = fold (conn_run_op api) ops c \<and> length ops \<le> n \<and> writes_run api c ops"
proof (induction n arbitrary: buf c)
  case (Suc n)
  obtain r buf1 c1 where w: "write_pkt api buf ts c = (r, buf1, c1)" by (metis prod.collapse)
  then have c1: "conn_run_op api (OpWrite buf ts) c = c1" by simp
  show ?case
  proof (cases "\<exists>k i p. r = Inr (k, i, p) \<and> 0 < k")
    case True
    obtain ops where "drain_loop api n ts buf1 c1 = fold (conn_run_op api) ops c1" "length ops \<le> n" "writes_run api c1 ops"
      using Suc.IH by blast
    then show ?thesis using True w c1 by (intro exI [of _ "OpWrite buf ts # ops"]) (auto simp del: conn_run_op.simps)
  next
    case False
    then show ?thesis using w c1
      by (intro exI [of _ "[OpWrite buf ts]"]) (auto simp del: conn_run_op.simps split: sum.split)
  qed
qed (auto intro: exI [of _ "[]"])

lemma drain_packets_ops:
  obtains ops where "drain_packets api ts c = fold (conn_run_op api) ops c" "length ops \<le> MAX_WRITE_ITERATIONS" "writes_run api c ops"
  using drain_loop_ops [of api MAX_WRITE_ITERATIONS ts "replicate SEND_BUFFER_SIZE 0" c] unfolding drain_packets_def by blast

lemma poll_all_events_ops:
  "\<exists>ops. poll_all_events c = fold (conn_run_op api) ops c \<and> set ops \<subseteq> {OpPollEvent}"
  "ud_events (c_user_data (poll_all_events c)) = []"
proof (induction c rule: poll_all_events.induct)
  case (1 c)
  case 1
  show ?case
  proof (cases "poll_event c")
    case (Pair r c1)
    show ?thesis
    proof (cases r)
      case None
      then show ?thesis using Pair
        by (subst poll_all_events.simps) (auto simp: poll_event_def intro: exI [of _ "[]"] split: list.splits)
    next
      case (Some e)
      obtain ops where "poll_all_events c1 = fold (conn_run_op api) ops c1" "set ops \<subseteq> {OpPollEvent}"
        using "1.IH"(1) [OF Pair [symmetric] Some] by auto
      then show ?thesis using Pair Some by (subst poll_all_events.simps) (auto intro!: exI [of _ "OpPollEvent # ops"])
    qed
  qed
  case 2
  show ?case
    by (subst poll_all_events.simps) (auto simp: poll_event_def "1.IH"(2) split: list.split)
qed

lemma poll_all_qlog_eq:
  "poll_all_qlog c = (if ud_qlog_data (c_user_data c) = [] then c else snd (poll_qlog_data c))"
  by (subst poll_all_qlog.simps) (auto simp: poll_qlog_data_def poll_all_qlog.simps)

text \<open>What may follow the reading of a packet, by its result.\<close>

fun allowed_after :: "('c, 's, 'z) conn_api_scheme \<Rightarrow> unit result \<Rightarrow> ('c, 's) Connection \<Rightarrow> conn_op list \<Rightarrow> bool" where
  "allowed_after api (Inr u) c ops \<longleftrightarrow> writes_run api c ops \<and> length ops \<le> MAX_WRITE_ITERATIONS"
| "allowed_after api (Inl e) c ops \<longleftrightarrow>
    (case classify_connection_error e of
       Ignore \<Rightarrow> writes_run api c ops \<and> length ops \<le> MAX_WRITE_ITERATIONS
     | TransportClose \<Rightarrow> (\<exists>buf code. ops = [OpClose buf code [] 0])
     | _ \<Rightarrow> ops = [])"

lemma classify_no_app_close: "classify_connection_error e \<noteq> ApplicationClose"
  by (cases e) auto

lemma after_read_ops:
  obtains ops where "after_read api infer r c = fold (conn_run_op api) ops c" "allowed_after api r c ops"
proof (cases "\<exists>e. r = Inl e \<and> classify_connection_error e \<noteq> Ignore")
  case True
  then obtain e where e: "r = Inl e" "classify_connection_error e \<noteq> Ignore" by blast
  let ?code = "case e of Ngtcp2 _ code \<Rightarrow> infer code | _ \<Rightarrow> 0"
  show thesis
  proof (cases "classify_connection_error e = TransportClose")
    case True
    then show thesis
      using that [of "[OpClose (replicate SEND_BUFFER_SIZE 0) ?code [] 0]"] by (simp add: after_read_def e)
  next
    case False
    then show thesis using that [of "[]"] e(2) classify_no_app_close [of e]
      by (cases "classify_connection_error e") (simp_all add: after_read_def e)
  qed
next
  case False
  obtain ops where "drain_packets api 0 c = fold (conn_run_op api) ops c" "length ops \<le> MAX_WRITE_ITERATIONS" "writes_run api c ops"
    by (rule drain_packets_ops)
  then show thesis using that [of ops] False by (cases r) (auto simp: after_read_def)
qed

definition ordered :: "('c, 's, 'z) conn_api_scheme \<Rightarrow> bool \<Rightarrow> bytes \<Rightarrow> ('c, 's) Connection \<Rightarrow> conn_op list \<Rightarrow> bool" where
  "ordered api is_server datagram c ops \<longleftrightarrow> (\<exists>before after polls c1 r c2.
     ops = before @ OpRead fuzz_path packet_info_default datagram 0 # after @ polls
     \<and> writes_run api c before \<and> length before \<le> (if is_server then 0 else MAX_WRITE_ITERATIONS)
     \<and> c1 = fold (conn_run_op api) before c \<and> read_pkt api fuzz_path packet_info_default datagram 0 c1 = (r, c2)
     \<and> allowed_after api r c2 after \<and> set polls \<subseteq> {OpPollEvent, OpPollQlog})"

lemma fuzz_drive_ordered:
  obtains ops where "fuzz_drive api infer is_server datagram c = fold (conn_run_op api) ops c" "ordered api is_server datagram c ops"
    "ud_events (c_user_data (fuzz_drive api infer is_server datagram c)) = []"
    "ud_qlog_data (c_user_data (fuzz_drive api infer is_server datagram c)) = []"
proof -
  obtain b where b: "(if \<not> is_server then drain_packets api 0 c else c) = fold (conn_run_op api) b c" "writes_run api c b"
    "length b \<le> (if is_server then 0 else MAX_WRITE_ITERATIONS)"
    using drain_packets_ops [of api 0 c] by (metis fold_simps(1) le_zero_eq list.size(3) writes_run.simps(1))
  obtain r c2 where r: "read_pkt api fuzz_path packet_info_default datagram 0 (fold (conn_run_op api) b c) = (r, c2)" by fastforce
  obtain a where a: "after_read api infer r c2 = fold (conn_run_op api) a c2" "allowed_after api r c2 a" by (rule after_read_ops)
  let ?c3 = "fold (conn_run_op api) a c2"
  obtain e where e: "poll_all_events ?c3 = fold (conn_run_op api) e ?c3" "set e \<subseteq> {OpPollEvent}"
    using poll_all_events_ops(1) [of ?c3 api] by blast
  let ?c4 = "poll_all_events ?c3"
  define q where "q = (if ud_qlog_data (c_user_data ?c4) = [] then [] else [OpPollQlog])"
  have q: "poll_all_qlog ?c4 = fold (conn_run_op api) q ?c4" by (simp add: q_def poll_all_qlog_eq)
  have d: "fuzz_drive api infer is_server datagram c = poll_all_qlog ?c4"
    using r by (simp add: fuzz_drive_def b(1) a(1))
  let ?ops = "b @ OpRead fuzz_path packet_info_default datagram 0 # a @ (e @ q)"
  have "fold (conn_run_op api) ?ops c = fuzz_drive api infer is_server datagram c"
    unfolding d q using r e(1) by simp
  moreover have "ordered api is_server datagram c ?ops"
    unfolding ordered_def using b(2,3) r a(2) e(2)
    by - (rule exI [of _ b], rule exI [of _ a], rule exI [of _ "e @ q"], auto simp: q_def)
  moreover have "ud_events (c_user_data (poll_all_qlog ?c4)) = []" "ud_qlog_data (c_user_data (poll_all_qlog ?c4)) = []"
    using poll_all_events_ops(2) [of ?c3] by (auto simp: poll_all_qlog_eq poll_qlog_data_def)
  ultimately show thesis using that [of ?ops] d by simp
qed

lemma fold_op_handle: "c_handle (fold (conn_run_op api) ops c) = c_handle c"
  by (induction ops arbitrary: c) (simp_all add: conn_op_handle)

lemma fuzz_drive_handle: "c_handle (fuzz_drive api infer is_server datagram c) = c_handle c"
  by (rule fuzz_drive_ordered [of api infer is_server datagram c]) (simp add: fold_op_handle)

lemma fuzz_connection_owned:
  assumes "\<forall>n \<in> set (live_conn h). n < next_conn h"
  shows "owned_result (fuzz_connection api ssl parse_ip dflt_params m is_server dcid scid original_dcid session h) h"
  unfolding fuzz_connection_def Let_def
  by (cases is_server) (simp_all only: if_True if_False server_new_owned [OF assms] client_new_owned [OF assms])

lemma cid_new_replicate [simp]: "n \<le> 20 \<Longrightarrow> cid_new (replicate n b) = Some (ConnectionId (replicate n b))"
  by (simp add: cid_new_def)

section \<open>Properties\<close>

text \<open>C29. The assertions of the fuzz targets hold for every input, and no \<^verbatim>\<open>expect\<close> of them fails: reading a variable-length
  integer, splitting packets and decoding the version of a packet, whatever ngtcp2's decoder answers, and
  verifying Retry and NEW_TOKEN tokens that were damaged in any way.\<close>

theorem fuzz_targets_pass:
  "fuzz_varint_decode data = Some () \<and> fuzz_split_packets data = Some () \<and> fuzz_decode_packet_version api data = Some ()
    \<and> fuzz_verify_retry_token api data \<noteq> None \<and> fuzz_verify_new_token api data \<noteq> None"
  by (simp add: varint_target split_target version_target fuzz_verify_retry_token_def fuzz_verify_new_token_def Let_def split: sum.split)

text \<open>The empty input, with which the fuzzer starts, leaves the tokens as they are, and they verify; the Retry token then gives the original connection ID:
  this is how the targets reach the code behind the verification.\<close>

lemma fuzz_tokens_verify:
  assumes "retry_tokens_verify api" "regular_tokens_verify api"
  shows "fuzz_verify_retry_token api [] \<in> {Some None, Some (Some (Ok (ConnectionId (replicate 8 0x22))))}
    \<and> fuzz_verify_new_token api [] \<in> {Some None, Some (Some (Ok ()))}"
proof
  have t: "in_time 0 (word_of_nat (10 * 10 ^ 9)) 0" by (simp add: in_time_def)
  have c: "corrupt t [] = t" for t by (simp add: corrupt_same)
  show "fuzz_verify_retry_token api [] \<in> {Some None, Some (Some (Ok (ConnectionId (replicate 8 0x22))))}"
    using retry_token_verifies(1) [OF assms(1) _ _ t]
    by (auto simp: fuzz_verify_retry_token_def Let_def c cid_ok_def cid_len_def split: sum.split)
  show "fuzz_verify_new_token api [] \<in> {Some None, Some (Some (Ok ()))}"
    using new_token_verifies [OF assms(2) _ t]
    by (auto simp: fuzz_verify_new_token_def Let_def c split: sum.split)
qed

text \<open>C30. The target of a connection keeps the contract of ngtcp2 on every datagram. It panics only when no TLS session can be
  made, and frees the connection it made. What it does to the connection is: at most 64 writes, on a
  client, the reading of the datagram, what the result allows (at most 64 writes, none after one that
  failed or sent nothing, when the packet was taken or ignored; one CONNECTION_CLOSE when it was a protocol error;
  nothing otherwise), and polling until no event and no qlog data is left.\<close>

theorem fuzz_conn_contract:
  assumes "\<forall>n \<in> set (live_conn h). n < next_conn h"
  shows "(fuzz_conn_read_pkt api ssl parse_ip dflt_params m infer env is_server datagram (st, h) = None
        \<longleftrightarrow> fuzz_session env is_server st = None)
    \<and> (\<forall>st1 h1. fuzz_conn_read_pkt api ssl parse_ip dflt_params m infer env is_server datagram (st, h) = Some (st1, h1)
        \<longrightarrow> live_conn h1 = live_conn h)
    \<and> (\<exists>ops. fuzz_drive api infer is_server datagram c = fold (conn_run_op api) ops c \<and> ordered api is_server datagram c ops
        \<and> ud_events (c_user_data (fuzz_drive api infer is_server datagram c)) = []
        \<and> ud_qlog_data (c_user_data (fuzz_drive api infer is_server datagram c)) = [])"
proof (intro conjI allI impI)
  show "fuzz_conn_read_pkt api ssl parse_ip dflt_params m infer env is_server datagram (st, h) = None
        \<longleftrightarrow> fuzz_session env is_server st = None"
    by (auto simp: fuzz_conn_read_pkt_def split: option.split prod.split sum.split)
next
  fix st1 h1
  assume f: "fuzz_conn_read_pkt api ssl parse_ip dflt_params m infer env is_server datagram (st, h) = Some (st1, h1)"
  let ?new = "\<lambda>t. fuzz_connection api ssl parse_ip dflt_params m is_server (ConnectionId (replicate 16 0x11))
    (ConnectionId (replicate 16 0x22)) (ConnectionId (replicate 16 0x33)) t h"
  from f obtain t r h2 where n: "?new t = (r, h2)"
    and "h1 = (case r of Inl e \<Rightarrow> h2 | Inr c \<Rightarrow> conn_drop (fuzz_drive api infer is_server datagram c) h2)"
    by (auto simp: fuzz_conn_read_pkt_def split: option.splits prod.splits sum.splits)
  moreover have "owned_result (r, h2) h" unfolding n [symmetric] by (rule fuzz_connection_owned [OF assms])
  ultimately show "live_conn h1 = live_conn h"
    by (auto simp: owned_result_def conn_drop_def fuzz_drive_handle split: sum.splits)
next
  show "\<exists>ops. fuzz_drive api infer is_server datagram c = fold (conn_run_op api) ops c \<and> ordered api is_server datagram c ops
        \<and> ud_events (c_user_data (fuzz_drive api infer is_server datagram c)) = []
        \<and> ud_qlog_data (c_user_data (fuzz_drive api infer is_server datagram c)) = []"
    by (rule fuzz_drive_ordered [of api infer is_server datagram c]) blast
qed

definition sample_env :: "unit fuzz_env" where
  "sample_env = \<lparr>fe_temp_dir = ''/tmp'', fe_pid = 7, fe_create_dir = (\<lambda>_. True), fe_write = (\<lambda>_ _. True),
     fe_generate = (\<lambda>_. Some (''cert'', ''key'')), fe_calls = sample_calls, fe_ssl = Some (), fe_ex_data_rv = 1\<rparr>"

theorem fuzz_conn_contract_witness:
  "\<exists>st1 h1. fuzz_conn_read_pkt sample_conn_api sample_ssl (\<lambda>_. None) zero_params empty_mem (\<lambda>_. 0) sample_env True [0x40, 1]
      (\<lparr>fz_server_ctx = None, fz_client_ctx = None, fz_tls = \<lparr>live_ctx = [], next_ctx = 0\<rparr>\<rparr>, \<lparr>live_conn = [], next_conn = 0\<rparr>)
      = Some (st1, h1) \<and> live_conn h1 = []"
proof -
  let ?st = "\<lparr>fz_server_ctx = None, fz_client_ctx = None, fz_tls = \<lparr>live_ctx = [], next_ctx = 0\<rparr>\<rparr>"
  let ?f = "fuzz_conn_read_pkt sample_conn_api sample_ssl (\<lambda>_. None) zero_params empty_mem (\<lambda>_. 0) sample_env True [0x40, 1]"
  have "CHR 0x00 \<noteq> (char_of (55 :: nat) :: char)" by code_simp
  then have s: "fuzz_session sample_env True ?st \<noteq> None"
    by (simp add: fuzz_session_def server_tls_ctx_def sample_env_def sample_calls_def new_server_def ctx_alloc_def cstring_new_def
        create_session_def show_nat.simps Let_def)
  note c = fuzz_conn_contract [where api = sample_conn_api and ssl = sample_ssl and parse_ip = "\<lambda>_. None" and dflt_params = zero_params
      and m = empty_mem and infer = "\<lambda>_. 0" and env = sample_env and is_server = True and datagram = "[0x40, 1]" and st = ?st
      and h = "\<lparr>live_conn = [], next_conn = 0\<rparr>" and c = sample_conn]
  obtain st1 h1 where f: "?f (?st, \<lparr>live_conn = [], next_conn = 0\<rparr>) = Some (st1, h1)" using c s by fastforce
  moreover have "live_conn h1 = []" using c f by simp
  ultimately show ?thesis by blast
qed

end
