(* ===== verification/Quiche.thy ===== *)
theory Quiche
  imports Types
begin

text \<open>
  The interface of the third-party QUIC stack that the interoperability tests run against (quiche), as far as the drivers of
  \<^verbatim>\<open>src/interop/quiche-driver\<close> call it, and that of the operating system: functions over opaque states, which are parameters of the
  drivers. An operation that fails returns the text of its error.
\<close>

section \<open>quiche\<close>

datatype quiche_error = QDone | QError string

datatype PathEvent = Validated SocketAddr SocketAddr | OtherPathEvent

text \<open>The settings a driver makes in a \<^verbatim>\<open>quiche::Config\<close>.\<close>

record quiche_config =
  qc_application_protos :: "bytes list"
  qc_max_idle_timeout :: u64
  qc_max_recv_udp_payload_size :: nat
  qc_max_send_udp_payload_size :: nat
  qc_initial_max_data :: u64
  qc_initial_max_stream_data_bidi_local :: u64
  qc_initial_max_stream_data_bidi_remote :: u64
  qc_initial_max_stream_data_uni :: u64
  qc_initial_max_streams_bidi :: u64
  qc_initial_max_streams_uni :: u64
  qc_verify_peer :: bool
  qc_verify_locations :: "string option"
  qc_disable_active_migration :: bool
  qc_early_data :: bool

text \<open>A packet that is sent is given by its bytes, which are at most the size of the buffer, its source and its destination;
  received stream data by its bytes and the end of the stream.\<close>

record 'q quiche_api =
  q_config_new :: "quiche_config option"
  q_set_application_protos :: "bytes list \<Rightarrow> bool"
  q_load_verify_locations :: "string \<Rightarrow> string + unit"
  q_connect :: "string \<Rightarrow> bytes \<Rightarrow> SocketAddr \<Rightarrow> SocketAddr \<Rightarrow> quiche_config \<Rightarrow> string + 'q"
  q_send :: "nat \<Rightarrow> 'q \<Rightarrow> (quiche_error + bytes \<times> SocketAddr \<times> SocketAddr) \<times> 'q"
  q_recv :: "bytes \<Rightarrow> SocketAddr \<Rightarrow> SocketAddr \<Rightarrow> 'q \<Rightarrow> 'q"
  q_on_timeout :: "'q \<Rightarrow> 'q"
  q_is_established :: "'q \<Rightarrow> bool"
  q_is_resumed :: "'q \<Rightarrow> bool"
  q_is_in_early_data :: "'q \<Rightarrow> bool"
  q_is_draining :: "'q \<Rightarrow> bool"
  q_is_closed :: "'q \<Rightarrow> bool"
  q_is_timed_out :: "'q \<Rightarrow> bool"
  q_session :: "'q \<Rightarrow> bytes option"
  q_set_session :: "bytes \<Rightarrow> 'q \<Rightarrow> (string + unit) \<times> 'q"
  q_available_dcids :: "'q \<Rightarrow> nat"
  q_new_scid :: "bytes \<Rightarrow> 128 word \<Rightarrow> bool \<Rightarrow> 'q \<Rightarrow> (string + unit) \<times> 'q"
  q_path_event_next :: "'q \<Rightarrow> PathEvent option \<times> 'q"
  q_probe_path :: "SocketAddr \<Rightarrow> SocketAddr \<Rightarrow> 'q \<Rightarrow> (string + unit) \<times> 'q"
  q_migrate :: "SocketAddr \<Rightarrow> SocketAddr \<Rightarrow> 'q \<Rightarrow> (string + unit) \<times> 'q"
  q_readable :: "'q \<Rightarrow> StreamId list"
  q_stream_recv :: "StreamId \<Rightarrow> nat \<Rightarrow> 'q \<Rightarrow> (quiche_error + bytes \<times> bool) \<times> 'q"
  q_stream_send :: "StreamId \<Rightarrow> bytes \<Rightarrow> bool \<Rightarrow> 'q \<Rightarrow> (string + nat) \<times> 'q"
  q_close :: "bool \<Rightarrow> u64 \<Rightarrow> bytes \<Rightarrow> 'q \<Rightarrow> (string + unit) \<times> 'q"

definition MAX_CONN_ID_LEN :: nat where "MAX_CONN_ID_LEN = 20"

section \<open>The operating system\<close>

datatype recv_error = WouldBlock | TimedOut | RecvError string

text \<open>Clock (in nanoseconds), random source and UDP sockets; a socket is a number.\<close>

record 'w os =
  os_now :: "'w \<Rightarrow> nat \<times> 'w"
  os_random :: "nat \<Rightarrow> 'w \<Rightarrow> (string + bytes) \<times> 'w"
  os_bind :: "SocketAddr \<Rightarrow> 'w \<Rightarrow> (string + nat) \<times> 'w"
  os_set_read_timeout :: "nat \<Rightarrow> nat \<Rightarrow> 'w \<Rightarrow> (string + unit) \<times> 'w"
  os_local_addr :: "nat \<Rightarrow> string + SocketAddr"
  os_send_to :: "nat \<Rightarrow> bytes \<Rightarrow> SocketAddr \<Rightarrow> 'w \<Rightarrow> (string + unit) \<times> 'w"
  os_recv_from :: "nat \<Rightarrow> nat \<Rightarrow> 'w \<Rightarrow> (recv_error + bytes \<times> SocketAddr) \<times> 'w"

end
