(* ===== verification/RawQuiche.thy ===== *)
theory RawQuiche
  imports Quiche
begin

text \<open>
  The driver that runs quiche directly (\<^verbatim>\<open>src/interop/quiche-driver/src/raw_quiche.rs\<close>): a client that sends 0-RTT data, and one that
  migrates to another local address. quiche and the operating system are parameters; the contents of the scratch
  buffers outlive no call and have no model. The model adds a log of what the driver did to its connections, over which the
  properties speak. A loop that does not end has the value \<open>None\<close>, a panic is an error of its own.
\<close>

definition MAX_DATAGRAM_SIZE :: nat where "MAX_DATAGRAM_SIZE = 1350"

definition QUICHE_TIMEOUT :: nat where "QUICHE_TIMEOUT = 20 * 10 ^ 9"

definition POLL_INTERVAL :: nat where "POLL_INTERVAL = 20 * 10 ^ 6"

definition RAW_ALPN :: bytes where "RAW_ALPN = map of_char ''hq-interop''"

definition RECV_BUFFER_SIZE :: nat where "RECV_BUFFER_SIZE = 65535"

section \<open>State and sequencing\<close>

datatype driver_error =
    Failed string string
  | NoSocket SocketAddr
  | WaitTimedOut string
  | PathTimedOut SocketAddr
  | NotResumed
  | NoTicket
  | Panicked

datatype entry =
    Opened bytes
  | Sent SocketAddr nat bytes SocketAddr
  | Delivered SocketAddr SocketAddr bytes
  | TimerRun
  | SessionTaken bytes
  | SessionSet bytes
  | StreamSent StreamId bytes bool
  | StreamRead StreamId bytes bool
  | ScidIssued bytes
  | Probed SocketAddr SocketAddr
  | PathValid SocketAddr
  | Migrated SocketAddr SocketAddr
  | Closed

record 'w machine =
  m_world :: 'w
  m_log :: "entry list"

record ('q, 'w) ClientDriver =
  cd_conn :: 'q
  cd_sockets :: "(SocketAddr \<times> nat) list"
  cd_deadline :: nat
  cd_machine :: "'w machine"

type_synonym ('d, 'a) prog = "'d \<Rightarrow> ((driver_error + 'a) \<times> 'd) option"

definition give :: "'a \<Rightarrow> ('d, 'a) prog" where
  "give x d = Some (Inr x, d)"

definition fail :: "driver_error \<Rightarrow> ('d, 'a) prog" where
  "fail e d = Some (Inl e, d)"

text \<open>The operator \<^verbatim>\<open>?\<close>.\<close>

definition andthen :: "('d, 'a) prog \<Rightarrow> ('a \<Rightarrow> ('d, 'b) prog) \<Rightarrow> ('d, 'b) prog" where
  "andthen m f d =
    (case m d of
       None \<Rightarrow> None
     | Some (Inl e, d) \<Rightarrow> Some (Inl e, d)
     | Some (Inr x, d) \<Rightarrow> f x d)"

text \<open>A call of the operating system or of quiche with \<^verbatim>\<open>map_err\<close>.\<close>

definition os_call :: "string \<Rightarrow> ('w \<Rightarrow> (string + 'a) \<times> 'w) \<Rightarrow> ('w machine, 'a) prog" where
  "os_call msg f m =
    (case f (m_world m) of
       (Inl e, w) \<Rightarrow> Some (Inl (Failed msg e), m\<lparr>m_world := w\<rparr>)
     | (Inr x, w) \<Rightarrow> Some (Inr x, m\<lparr>m_world := w\<rparr>))"

definition os_query :: "string \<Rightarrow> string + 'a \<Rightarrow> ('d, 'a) prog" where
  "os_query msg r = (case r of Inl e \<Rightarrow> fail (Failed msg e) | Inr x \<Rightarrow> give x)"

definition logged :: "entry \<Rightarrow> 'w machine \<Rightarrow> 'w machine" where
  "logged x m = m\<lparr>m_log := m_log m @ [x]\<rparr>"

definition on_machine :: "('w machine, 'a) prog \<Rightarrow> (('q, 'w) ClientDriver, 'a) prog" where
  "on_machine p d = map_option (\<lambda>(r, m). (r, d\<lparr>cd_machine := m\<rparr>)) (p (cd_machine d))"

definition quiche_call :: "string \<Rightarrow> entry \<Rightarrow> ('q \<Rightarrow> (string + 'a) \<times> 'q) \<Rightarrow> (('q, 'w) ClientDriver, 'a) prog" where
  "quiche_call msg x f d =
    (case f (cd_conn d) of
       (Inl e, q) \<Rightarrow> Some (Inl (Failed msg e), d\<lparr>cd_conn := q\<rparr>)
     | (Inr y, q) \<Rightarrow> Some (Inr y, d\<lparr>cd_conn := q, cd_machine := logged x (cd_machine d)\<rparr>))"

section \<open>Configuration, sockets, connections\<close>

definition client_config :: "'q quiche_api \<Rightarrow> string \<Rightarrow> ('d, quiche_config) prog" where
  "client_config qa ca_cert_path =
    (case q_config_new qa of
       None \<Rightarrow> fail Panicked
     | Some config \<Rightarrow>
       if \<not> q_set_application_protos qa [RAW_ALPN] then fail Panicked
       else
         let config = config\<lparr>qc_application_protos := [RAW_ALPN], qc_max_idle_timeout := 10000,
               qc_max_recv_udp_payload_size := MAX_DATAGRAM_SIZE, qc_max_send_udp_payload_size := MAX_DATAGRAM_SIZE,
               qc_initial_max_data := 10000000, qc_initial_max_stream_data_bidi_local := 1000000,
               qc_initial_max_stream_data_bidi_remote := 1000000, qc_initial_max_stream_data_uni := 1000000,
               qc_initial_max_streams_bidi := 100, qc_initial_max_streams_uni := 100, qc_verify_peer := True\<rparr>
         in andthen (os_query ''failed to load certificate'' (q_load_verify_locations qa ca_cert_path)) (\<lambda>_.
            give (config\<lparr>qc_verify_locations := Some ca_cert_path, qc_disable_active_migration := False\<rparr>)))"

definition bind_socket :: "'w os \<Rightarrow> ('w machine, nat) prog" where
  "bind_socket os =
    andthen (os_call ''failed to bind'' (os_bind os (SockV4 0x7F000001 0))) (\<lambda>socket.
    andthen (os_call ''failed to set timeout'' (os_set_read_timeout os socket POLL_INTERVAL)) (\<lambda>_.
    give socket))"

definition socket_addr :: "'w os \<Rightarrow> nat \<Rightarrow> ('d, SocketAddr) prog" where
  "socket_addr os socket = os_query ''failed to get local address'' (os_local_addr os socket)"

definition connect :: "'q quiche_api \<Rightarrow> 'w os \<Rightarrow> SocketAddr \<Rightarrow> SocketAddr \<Rightarrow> quiche_config \<Rightarrow> ('w machine, 'q) prog" where
  "connect qa os server_addr local_addr config =
    andthen (os_call ''failed to generate scid'' (os_random os MAX_CONN_ID_LEN)) (\<lambda>scid.
    andthen (os_query ''failed to create connection'' (q_connect qa ''localhost'' scid local_addr server_addr config)) (\<lambda>q m.
    give q (logged (Opened scid) m)))"

definition driver_new :: "'w os \<Rightarrow> 'q \<Rightarrow> nat \<Rightarrow> 'w machine \<Rightarrow> (driver_error + ('q, 'w) ClientDriver) \<times> 'w machine" where
  "driver_new os conn socket m =
    (case os_local_addr os socket of
       Inl e \<Rightarrow> (Inl (Failed ''failed to get local address'' e), m)
     | Inr local_addr \<Rightarrow>
       let (now, w) = os_now os (m_world m); m = m\<lparr>m_world := w\<rparr>
       in (Inr \<lparr>cd_conn = conn, cd_sockets = [(local_addr, socket)], cd_deadline = now + QUICHE_TIMEOUT, cd_machine = m\<rparr>, m))"

definition add_socket :: "'w os \<Rightarrow> nat \<Rightarrow> (('q, 'w) ClientDriver, SocketAddr) prog" where
  "add_socket os socket =
    andthen (socket_addr os socket) (\<lambda>local_addr d.
    give local_addr (d\<lparr>cd_sockets := AList.update local_addr socket (cd_sockets d)\<rparr>))"

section \<open>Driving a connection\<close>

partial_function (option) send_pending :: "'q quiche_api \<Rightarrow> 'w os \<Rightarrow> ('q, 'w) ClientDriver
    \<Rightarrow> ((driver_error + unit) \<times> ('q, 'w) ClientDriver) option" where
  "send_pending qa os d =
    (case q_send qa MAX_DATAGRAM_SIZE (cd_conn d) of
       (Inr (packet, from, to), q) \<Rightarrow>
         (case map_of (cd_sockets d) from of
            None \<Rightarrow> Some (Inl (NoSocket from), d\<lparr>cd_conn := q\<rparr>)
          | Some socket \<Rightarrow>
            (case os_send_to os socket packet to (m_world (cd_machine d)) of
               (Inl e, w) \<Rightarrow>
                 Some (Inl (Failed ''failed to send packet'' e), d\<lparr>cd_conn := q, cd_machine := (cd_machine d)\<lparr>m_world := w\<rparr>\<rparr>)
             | (Inr _, w) \<Rightarrow>
                 send_pending qa os (d\<lparr>cd_conn := q,
                   cd_machine := logged (Sent from socket packet to) ((cd_machine d)\<lparr>m_world := w\<rparr>)\<rparr>)))
     | (Inl QDone, q) \<Rightarrow> Some (Inr (), d\<lparr>cd_conn := q\<rparr>)
     | (Inl (QError e), q) \<Rightarrow> Some (Inl (Failed ''failed to write packet'' e), d\<lparr>cd_conn := q\<rparr>))"

text \<open>The loop of \<^verbatim>\<open>recv_once\<close> over the local addresses. A hash map gives them in no particular order; the model takes the order in which
  they were added.\<close>

fun recv_loop :: "'q quiche_api \<Rightarrow> 'w os \<Rightarrow> SocketAddr list \<Rightarrow> (('q, 'w) ClientDriver, bool) prog" where
  "recv_loop qa os [] d = Some (Inr False, d)"
| "recv_loop qa os (local_addr # local_addrs) d =
    (case map_of (cd_sockets d) local_addr of
       None \<Rightarrow> Some (Inl Panicked, d)
     | Some socket \<Rightarrow>
       let (r, w) = os_recv_from os socket RECV_BUFFER_SIZE (m_world (cd_machine d));
           d = d\<lparr>cd_machine := (cd_machine d)\<lparr>m_world := w\<rparr>\<rparr>
       in case r of
            Inr (data, from) \<Rightarrow>
              Some (Inr True, d\<lparr>cd_conn := q_recv qa data local_addr from (cd_conn d),
                cd_machine := logged (Delivered local_addr from data) (cd_machine d)\<rparr>)
          | Inl (RecvError e) \<Rightarrow> Some (Inl (Failed ''failed to receive packet'' e), d)
          | Inl _ \<Rightarrow> recv_loop qa os local_addrs d)"

definition recv_once :: "'q quiche_api \<Rightarrow> 'w os \<Rightarrow> (('q, 'w) ClientDriver, bool) prog" where
  "recv_once qa os d = recv_loop qa os (map fst (cd_sockets d)) d"

text \<open>The end of an iteration of every waiting loop: a packet is received or the timer runs, then packets are sent.\<close>

definition pump :: "'q quiche_api \<Rightarrow> 'w os \<Rightarrow> (('q, 'w) ClientDriver, unit) prog" where
  "pump qa os =
    andthen (recv_once qa os) (\<lambda>received d.
      send_pending qa os
        (if \<not> received then d\<lparr>cd_conn := q_on_timeout qa (cd_conn d), cd_machine := logged TimerRun (cd_machine d)\<rparr> else d))"

definition now_is :: "'w os \<Rightarrow> ('q, 'w) ClientDriver \<Rightarrow> nat \<times> ('q, 'w) ClientDriver" where
  "now_is os d = (let (t, w) = os_now os (m_world (cd_machine d)) in (t, d\<lparr>cd_machine := (cd_machine d)\<lparr>m_world := w\<rparr>\<rparr>))"

partial_function (option) wait_until :: "'q quiche_api \<Rightarrow> 'w os \<Rightarrow> ('q \<Rightarrow> bool) \<Rightarrow> string \<Rightarrow> ('q, 'w) ClientDriver
    \<Rightarrow> ((driver_error + unit) \<times> ('q, 'w) ClientDriver) option" where
  "wait_until qa os predicate description d =
    (if predicate (cd_conn d) then Some (Inr (), d)
     else case now_is os d of
       (now, d) \<Rightarrow>
         if now > cd_deadline d then Some (Inl (WaitTimedOut description), d)
         else case pump qa os d of
           None \<Rightarrow> None
         | Some (Inl e, d) \<Rightarrow> Some (Inl e, d)
         | Some (Inr _, d) \<Rightarrow> wait_until qa os predicate description d)"

text \<open>The \<^verbatim>\<open>while let\<close> over the path events: whether the validation of the path was among them.\<close>

partial_function (option) next_validated :: "'q quiche_api \<Rightarrow> SocketAddr \<Rightarrow> ('q, 'w) ClientDriver
    \<Rightarrow> (bool \<times> ('q, 'w) ClientDriver) option" where
  "next_validated qa local_addr d =
    (case q_path_event_next qa (cd_conn d) of
       (None, q) \<Rightarrow> Some (False, d\<lparr>cd_conn := q\<rparr>)
     | (Some (Validated local peer), q) \<Rightarrow>
         if local = local_addr then Some (True, d\<lparr>cd_conn := q, cd_machine := logged (PathValid local) (cd_machine d)\<rparr>)
         else next_validated qa local_addr (d\<lparr>cd_conn := q\<rparr>)
     | (Some OtherPathEvent, q) \<Rightarrow> next_validated qa local_addr (d\<lparr>cd_conn := q\<rparr>))"

partial_function (option) wait_path_validated :: "'q quiche_api \<Rightarrow> 'w os \<Rightarrow> SocketAddr \<Rightarrow> ('q, 'w) ClientDriver
    \<Rightarrow> ((driver_error + unit) \<times> ('q, 'w) ClientDriver) option" where
  "wait_path_validated qa os local_addr d =
    (case now_is os d of
       (now, d) \<Rightarrow>
         if now > cd_deadline d then Some (Inl (PathTimedOut local_addr), d)
         else case next_validated qa local_addr d of
           None \<Rightarrow> None
         | Some (validated, d) \<Rightarrow>
           if validated then Some (Inr (), d)
           else case pump qa os d of
             None \<Rightarrow> None
           | Some (Inl e, d) \<Rightarrow> Some (Inl e, d)
           | Some (Inr _, d) \<Rightarrow> wait_path_validated qa os local_addr d)"

text \<open>The \<^verbatim>\<open>while let\<close> over the data of a stream, and the \<^verbatim>\<open>for\<close> over the readable streams.\<close>

partial_function (option) read_stream :: "'q quiche_api \<Rightarrow> StreamId \<Rightarrow> bytes \<Rightarrow> bool \<Rightarrow> ('q, 'w) ClientDriver
    \<Rightarrow> (bytes \<times> bool \<times> ('q, 'w) ClientDriver) option" where
  "read_stream qa stream_id received fin d =
    (case q_stream_recv qa stream_id RECV_BUFFER_SIZE (cd_conn d) of
       (Inl _, q) \<Rightarrow> Some (received, fin, d\<lparr>cd_conn := q\<rparr>)
     | (Inr (data, stream_fin), q) \<Rightarrow>
         read_stream qa stream_id (received @ data) (fin \<or> stream_fin)
           (d\<lparr>cd_conn := q, cd_machine := logged (StreamRead stream_id data stream_fin) (cd_machine d)\<rparr>))"

fun read_streams :: "'q quiche_api \<Rightarrow> StreamId list \<Rightarrow> bytes \<Rightarrow> bool \<Rightarrow> ('q, 'w) ClientDriver
    \<Rightarrow> (bytes \<times> bool \<times> ('q, 'w) ClientDriver) option" where
  "read_streams qa [] received fin d = Some (received, fin, d)"
| "read_streams qa (stream_id # ids) received fin d =
    (case read_stream qa stream_id received fin d of
       None \<Rightarrow> None
     | Some (received, fin, d) \<Rightarrow> read_streams qa ids received fin d)"

partial_function (option) read_echo_loop :: "'q quiche_api \<Rightarrow> 'w os \<Rightarrow> bytes \<Rightarrow> ('q, 'w) ClientDriver
    \<Rightarrow> ((driver_error + bytes) \<times> ('q, 'w) ClientDriver) option" where
  "read_echo_loop qa os received d =
    (case now_is os d of
       (now, d) \<Rightarrow>
         if now > cd_deadline d then Some (Inl (WaitTimedOut ''the echo''), d)
         else case read_streams qa (q_readable qa (cd_conn d)) received False d of
           None \<Rightarrow> None
         | Some (received, fin, d) \<Rightarrow>
           if fin then Some (Inr received, d)
           else case pump qa os d of
             None \<Rightarrow> None
           | Some (Inl e, d) \<Rightarrow> Some (Inl e, d)
           | Some (Inr _, d) \<Rightarrow> read_echo_loop qa os received d)"

definition read_echo :: "'q quiche_api \<Rightarrow> 'w os \<Rightarrow> (('q, 'w) ClientDriver, bytes) prog" where
  "read_echo qa os d = read_echo_loop qa os [] d"

section \<open>The clients\<close>

text \<open>The common start of all three: configuration, socket, connection, driver; what follows runs on the driver.\<close>

definition with_driver :: "'w os \<Rightarrow> 'q \<Rightarrow> nat \<Rightarrow> (('q, 'w) ClientDriver, 'a) prog \<Rightarrow> ('w machine, 'a) prog" where
  "with_driver os conn socket body m =
    (case driver_new os conn socket m of
       (Inl e, m) \<Rightarrow> Some (Inl e, m)
     | (Inr d, m) \<Rightarrow> map_option (\<lambda>(r, d). (r, cd_machine d)) (body d))"

definition opened :: "'q quiche_api \<Rightarrow> 'w os \<Rightarrow> SocketAddr \<Rightarrow> quiche_config \<Rightarrow> (('q, 'w) ClientDriver, 'a) prog \<Rightarrow> ('w machine, 'a) prog" where
  "opened qa os server_addr config body =
    andthen (bind_socket os) (\<lambda>socket.
    andthen (socket_addr os socket) (\<lambda>local_addr.
    andthen (connect qa os server_addr local_addr config) (\<lambda>conn.
    with_driver os conn socket body)))"

definition close_connection :: "'q quiche_api \<Rightarrow> 'w os \<Rightarrow> (('q, 'w) ClientDriver, unit) prog" where
  "close_connection qa os =
    andthen (quiche_call ''failed to close the connection'' Closed (q_close qa False 0 [])) (\<lambda>_. send_pending qa os)"

definition session_of :: "'q quiche_api \<Rightarrow> (('q, 'w) ClientDriver, bytes) prog" where
  "session_of qa d =
    (case q_session qa (cd_conn d) of
       None \<Rightarrow> Some (Inl NoTicket, d)
     | Some session \<Rightarrow> Some (Inr session, d\<lparr>cd_machine := logged (SessionTaken session) (cd_machine d)\<rparr>))"

definition fetch_session :: "'q quiche_api \<Rightarrow> 'w os \<Rightarrow> SocketAddr \<Rightarrow> string \<Rightarrow> ('w machine, bytes) prog" where
  "fetch_session qa os server_addr ca_cert_path =
    andthen (client_config qa ca_cert_path) (\<lambda>config.
    opened qa os server_addr config
      (andthen (send_pending qa os) (\<lambda>_.
       andthen (wait_until qa os (\<lambda>q. q_is_established qa q \<and> q_session qa q \<noteq> None) ''the session ticket'') (\<lambda>_.
       andthen (session_of qa) (\<lambda>session.
       andthen (close_connection qa os) (\<lambda>_.
       give session))))))"

definition send_all :: "'q quiche_api \<Rightarrow> string \<Rightarrow> bytes \<Rightarrow> (('q, 'w) ClientDriver, nat) prog" where
  "send_all qa msg payload = quiche_call msg (StreamSent 0 payload True) (q_stream_send qa 0 payload True)"

definition client_early_data_roundtrip :: "'q quiche_api \<Rightarrow> 'w os \<Rightarrow> SocketAddr \<Rightarrow> string \<Rightarrow> bytes \<Rightarrow> ('w machine, bytes) prog" where
  "client_early_data_roundtrip qa os server_addr ca_cert_path payload =
    andthen (fetch_session qa os server_addr ca_cert_path) (\<lambda>session.
    andthen (client_config qa ca_cert_path) (\<lambda>config.
    opened qa os server_addr (config\<lparr>qc_early_data := True\<rparr>)
      (andthen (quiche_call ''failed to set session'' (SessionSet session) (q_set_session qa session)) (\<lambda>_.
       andthen (send_all qa ''failed to send early data'' payload) (\<lambda>_.
       andthen (send_pending qa os) (\<lambda>_.
       andthen (read_echo qa os) (\<lambda>echoed d.
       (if \<not> q_is_resumed qa (cd_conn d) then fail NotResumed else give echoed) d)))))))"

definition issue_scid :: "'q quiche_api \<Rightarrow> 'w os \<Rightarrow> (('q, 'w) ClientDriver, unit) prog" where
  "issue_scid qa os =
    andthen (on_machine (os_call ''failed to generate scid'' (os_random os MAX_CONN_ID_LEN))) (\<lambda>scid.
    andthen (on_machine (os_call ''failed to generate reset token'' (os_random os 16))) (\<lambda>reset_token.
    quiche_call ''failed to issue a new scid'' (ScidIssued scid) (q_new_scid qa scid (word_of_nat (from_be reset_token)) False)))"

definition client_migrate_roundtrip :: "'q quiche_api \<Rightarrow> 'w os \<Rightarrow> SocketAddr \<Rightarrow> string \<Rightarrow> bytes \<Rightarrow> ('w machine, bytes) prog" where
  "client_migrate_roundtrip qa os server_addr ca_cert_path payload =
    andthen (client_config qa ca_cert_path) (\<lambda>config.
    opened qa os server_addr config
      (andthen (send_pending qa os) (\<lambda>_.
       andthen (wait_until qa os (q_is_established qa) ''the handshake'') (\<lambda>_.
       andthen (wait_until qa os (\<lambda>q. q_available_dcids qa q > 0) ''a spare destination connection id'') (\<lambda>_.
       andthen (issue_scid qa os) (\<lambda>_.
       andthen (send_pending qa os) (\<lambda>_.
       andthen (on_machine (bind_socket os)) (\<lambda>socket.
       andthen (add_socket os socket) (\<lambda>new_local_addr.
       andthen (quiche_call ''failed to probe the new path'' (Probed new_local_addr server_addr)
                 (q_probe_path qa new_local_addr server_addr)) (\<lambda>_.
       andthen (wait_path_validated qa os new_local_addr) (\<lambda>_.
       andthen (quiche_call ''failed to migrate'' (Migrated new_local_addr server_addr)
                 (q_migrate qa new_local_addr server_addr)) (\<lambda>_.
       andthen (send_pending qa os) (\<lambda>_.
       andthen (send_all qa ''failed to send request'' payload) (\<lambda>_.
       andthen (read_echo qa os) (\<lambda>echoed.
       andthen (close_connection qa os) (\<lambda>_.
       give echoed))))))))))))))))"

section \<open>What a driver does\<close>

fun quiet :: "entry \<Rightarrow> bool" where
  "quiet (Sent _ _ _ _) = True"
| "quiet (Delivered _ _ _) = True"
| "quiet TimerRun = True"
| "quiet _ = False"

text \<open>A packet leaves from the socket that is bound to the address quiche has named as its source.\<close>

fun own :: "'w os \<Rightarrow> entry \<Rightarrow> bool" where
  "own os (Sent from socket _ _) \<longleftrightarrow> os_local_addr os socket = Inr from"
| "own os _ \<longleftrightarrow> True"

fun read_data :: "entry \<Rightarrow> bytes" where
  "read_data (StreamRead _ data _) = data"
| "read_data _ = []"

fun read_fin :: "entry \<Rightarrow> bool" where
  "read_fin (StreamRead _ _ fin) = fin"
| "read_fin _ = False"

fun is_read :: "entry \<Rightarrow> bool" where
  "is_read (StreamRead _ _ _) = True"
| "is_read _ = False"

abbreviation log_of :: "('q, 'w) ClientDriver \<Rightarrow> entry list" where
  "log_of d \<equiv> m_log (cd_machine d)"

definition socks_ok :: "'w os \<Rightarrow> ('q, 'w) ClientDriver \<Rightarrow> bool" where
  "socks_ok os d \<longleftrightarrow> (\<forall>a socket. map_of (cd_sockets d) a = Some socket \<longrightarrow> os_local_addr os socket = Inr a)"

text \<open>From a state that is \<open>ok\<close> a program adds entries to the log that respect the sockets and, when it succeeds, satisfy \<open>Q\<close>.\<close>

definition does :: "'w os \<Rightarrow> ('d \<Rightarrow> entry list) \<Rightarrow> ('d \<Rightarrow> bool) \<Rightarrow> ('d, 'a) prog \<Rightarrow> ('a \<Rightarrow> entry list \<Rightarrow> bool) \<Rightarrow> bool" where
  "does os lg ok p Q \<longleftrightarrow> (\<forall>d r d1. ok d \<longrightarrow> p d = Some (r, d1) \<longrightarrow>
     ok d1 \<and> (\<exists>l. lg d1 = lg d @ l \<and> list_all (own os) l \<and> (\<forall>x. r = Inr x \<longrightarrow> Q x l)))"

lemma doesI:
  assumes "\<And>d r d1. ok d \<Longrightarrow> p d = Some (r, d1) \<Longrightarrow>
    \<exists>l. ok d1 \<and> lg d1 = lg d @ l \<and> list_all (own os) l \<and> (\<forall>x. r = Inr x \<longrightarrow> Q x l)"
  shows "does os lg ok p Q"
  unfolding does_def
proof (intro allI impI)
  fix d r d1 assume "ok d" "p d = Some (r, d1)"
  from assms [OF this] show "ok d1 \<and> (\<exists>l. lg d1 = lg d @ l \<and> list_all (own os) l \<and> (\<forall>x. r = Inr x \<longrightarrow> Q x l))" by blast
qed

lemma doesD:
  "does os lg ok p Q \<Longrightarrow> ok d \<Longrightarrow> p d = Some (r, d1) \<Longrightarrow>
    \<exists>l. ok d1 \<and> lg d1 = lg d @ l \<and> list_all (own os) l \<and> (\<forall>x. r = Inr x \<longrightarrow> Q x l)"
  unfolding does_def by simp

lemma does_andthen:
  assumes "does os lg ok p Q" and "\<And>x. does os lg ok (f x) (R x)"
  shows "does os lg ok (andthen p f) (\<lambda>y l. \<exists>x l1 l2. l = l1 @ l2 \<and> Q x l1 \<and> R x y l2)"
proof (rule doesI)
  fix d r d1 assume ok: "ok d" and run: "andthen p f d = Some (r, d1)"
  obtain s d2 where p: "p d = Some (s, d2)" using run by (auto simp: andthen_def split: option.splits)
  obtain l where l: "ok d2" "lg d2 = lg d @ l" "list_all (own os) l" "\<forall>x. s = Inr x \<longrightarrow> Q x l"
    using doesD [OF assms(1) ok p] by blast
  show "\<exists>l. ok d1 \<and> lg d1 = lg d @ l \<and> list_all (own os) l \<and> (\<forall>y. r = Inr y \<longrightarrow> (\<exists>x l1 l2. l = l1 @ l2 \<and> Q x l1 \<and> R x y l2))"
  proof (cases s)
    case (Inl e)
    then show ?thesis using run p l by (auto simp: andthen_def)
  next
    case (Inr x)
    then have f: "f x d2 = Some (r, d1)" using run p by (simp add: andthen_def)
    obtain l2 where "ok d1" "lg d1 = lg d2 @ l2" "list_all (own os) l2" "\<forall>y. r = Inr y \<longrightarrow> R x y l2"
      using doesD [OF assms(2) l(1) f] by blast
    then show ?thesis using l Inr by (intro exI [of _ "l @ l2"]) auto
  qed
qed

lemma does_mono:
  assumes "does os lg ok p Q" and "\<And>x l. Q x l \<Longrightarrow> R x l"
  shows "does os lg ok p R"
proof (rule doesI)
  fix d r d1 assume a: "ok d" "p d = Some (r, d1)"
  obtain l where "ok d1" "lg d1 = lg d @ l" "list_all (own os) l" "\<forall>x. r = Inr x \<longrightarrow> Q x l" using doesD [OF assms(1) a] by blast
  then show "\<exists>l. ok d1 \<and> lg d1 = lg d @ l \<and> list_all (own os) l \<and> (\<forall>x. r = Inr x \<longrightarrow> R x l)"
    using assms(2) by (intro exI [of _ l]) simp
qed

lemma does_give: "does os lg ok (give x) (\<lambda>y l. y = x \<and> l = [])"
  by (auto simp: does_def give_def)

lemma does_fail: "does os lg ok (fail e) Q"
  by (auto simp: does_def fail_def)

lemma does_query: "does os lg ok (os_query msg r) (\<lambda>x l. r = Inr x \<and> l = [])"
  by (cases r) (auto simp: does_def os_query_def give_def fail_def)

lemma does_os_call: "does os m_log (\<lambda>_. True) (os_call msg f) (\<lambda>x l. l = [])"
  by (auto simp: does_def os_call_def split: prod.splits sum.splits)

lemma does_on_machine: "does os m_log (\<lambda>_. True) p Q \<Longrightarrow> does os log_of (socks_ok os) (on_machine p) Q"
  by (auto simp: does_def on_machine_def socks_ok_def)

lemma does_quiche_call:
  "own os x \<Longrightarrow> does os log_of (socks_ok os) (quiche_call msg x f) (\<lambda>y l. l = [x])"
  by (auto simp: does_def quiche_call_def logged_def socks_ok_def split: prod.splits sum.splits)

text \<open>One step of a loop: the sockets stay, the log grows.\<close>

definition moves :: "'w os \<Rightarrow> (entry \<Rightarrow> bool) \<Rightarrow> ('q, 'w) ClientDriver \<Rightarrow> ('q, 'w) ClientDriver \<Rightarrow> bool" where
  "moves os P d d1 \<longleftrightarrow> (socks_ok os d \<longrightarrow> socks_ok os d1 \<and> (\<exists>l. log_of d1 = log_of d @ l \<and> list_all (own os) l \<and> list_all P l))"

lemma moves_stay: "cd_sockets d1 = cd_sockets d \<Longrightarrow> log_of d1 = log_of d \<Longrightarrow> moves os P d d1"
  by (auto simp: moves_def socks_ok_def)

lemma moves_entry:
  "cd_sockets d1 = cd_sockets d \<Longrightarrow> log_of d1 = log_of d @ [x] \<Longrightarrow> (socks_ok os d \<Longrightarrow> own os x) \<Longrightarrow> P x \<Longrightarrow> moves os P d d1"
  by (auto simp: moves_def socks_ok_def)

lemma moves_trans:
  assumes "moves os P d d1" "moves os P d1 d2"
  shows "moves os P d d2"
  unfolding moves_def
proof
  assume "socks_ok os d"
  then obtain l where l: "socks_ok os d1" "log_of d1 = log_of d @ l" "list_all (own os) l" "list_all P l"
    using assms(1) unfolding moves_def by blast
  then obtain k where "socks_ok os d2" "log_of d2 = log_of d1 @ k" "list_all (own os) k" "list_all P k"
    using assms(2) unfolding moves_def by blast
  with l show "socks_ok os d2 \<and> (\<exists>l. log_of d2 = log_of d @ l \<and> list_all (own os) l \<and> list_all P l)"
    by (intro conjI exI [of _ "l @ k"]) simp_all
qed

lemma moves_mono:
  assumes "moves os P d d1" "\<And>x. P x \<Longrightarrow> R x"
  shows "moves os R d d1"
proof -
  have "list_all P l \<Longrightarrow> list_all R l" for l using assms(2) by (simp add: list_all_iff)
  then show ?thesis using assms(1) unfolding moves_def by blast
qed

lemma does_moves:
  assumes "\<And>d r d1. p d = Some (r, d1) \<Longrightarrow> moves os P d d1"
  shows "does os log_of (socks_ok os) p (\<lambda>_. list_all P)"
proof (rule doesI)
  fix d r d1 assume a: "socks_ok os d" "p d = Some (r, d1)"
  obtain l where "socks_ok os d1" "log_of d1 = log_of d @ l" "list_all (own os) l" "list_all P l"
    using assms [OF a(2)] a(1) unfolding moves_def by blast
  then show "\<exists>l. socks_ok os d1 \<and> log_of d1 = log_of d @ l \<and> list_all (own os) l \<and> (\<forall>x. r = Inr x \<longrightarrow> list_all P l)"
    by (intro exI [of _ l]) simp
qed

lemmas send_induct = send_pending.raw_induct [rotated, consumes 1, case_names step]
lemmas wait_induct = wait_until.raw_induct [rotated, consumes 1, case_names step]
lemmas validated_induct = next_validated.raw_induct [rotated, consumes 1, case_names step]
lemmas path_induct = wait_path_validated.raw_induct [rotated, consumes 1, case_names step]
lemmas stream_induct = read_stream.raw_induct [rotated, consumes 1, case_names step]
lemmas echo_induct = read_echo_loop.raw_induct [rotated, consumes 1, case_names step]

lemma send_pending_moves: "send_pending qa os d = Some y \<Longrightarrow> moves os quiet d (snd y)"
proof (induction rule: send_induct)
  case (step loop qa os d y)
  obtain r q where s: "q_send qa MAX_DATAGRAM_SIZE (cd_conn d) = (r, q)" by fastforce
  show ?case
  proof (cases "\<exists>packet src dst socket w. r = Inr (packet, src, dst) \<and> map_of (cd_sockets d) src = Some socket
      \<and> os_send_to os socket packet dst (m_world (cd_machine d)) = (Inr (), w)")
    case True
    then obtain packet src dst socket w where r: "r = Inr (packet, src, dst)" "map_of (cd_sockets d) src = Some socket"
      "os_send_to os socket packet dst (m_world (cd_machine d)) = (Inr (), w)" by blast
    let ?d = "d\<lparr>cd_conn := q, cd_machine := logged (Sent src socket packet dst) ((cd_machine d)\<lparr>m_world := w\<rparr>)\<rparr>"
    have "moves os quiet d ?d" by (rule moves_entry) (auto simp: logged_def socks_ok_def r(2))
    moreover have "moves os quiet ?d (snd y)" using step s r by simp
    ultimately show ?thesis by (rule moves_trans)
  next
    case False
    then show ?thesis using step(2) s
      by (auto intro!: moves_stay split: sum.splits option.splits prod.splits quiche_error.splits)
  qed
qed

lemma recv_loop_moves: "recv_loop qa os addrs d = Some y \<Longrightarrow> moves os quiet d (snd y)"
proof (induction addrs arbitrary: d)
  case (Cons a addrs)
  show ?case
  proof (cases "map_of (cd_sockets d) a")
    case (Some socket)
    obtain r w where r: "os_recv_from os socket RECV_BUFFER_SIZE (m_world (cd_machine d)) = (r, w)" by fastforce
    let ?d = "d\<lparr>cd_machine := (cd_machine d)\<lparr>m_world := w\<rparr>\<rparr>"
    show ?thesis
    proof (cases "\<exists>e. r = Inl e \<and> (\<forall>t. e \<noteq> RecvError t)")
      case True
      then have "recv_loop qa os addrs ?d = Some y" using Cons.prems Some r by (auto simp: Let_def split: recv_error.splits)
      from Cons.IH [OF this] show ?thesis by (rule moves_trans [rotated]) (simp add: moves_stay)
    next
      case False
      then show ?thesis using Cons.prems Some r
        by (auto intro: moves_stay moves_entry simp: logged_def Let_def split: sum.splits recv_error.splits)
    qed
  qed (use Cons in \<open>auto intro: moves_stay\<close>)
qed (auto intro: moves_stay)

lemma pump_moves: "pump qa os d = Some y \<Longrightarrow> moves os quiet d (snd y)"
proof -
  assume p: "pump qa os d = Some y"
  then obtain r d1 where r: "recv_once qa os d = Some (r, d1)" by (auto simp: pump_def andthen_def split: option.splits)
  have m: "moves os quiet d d1" using recv_loop_moves [OF r [unfolded recv_once_def]] by simp
  show ?thesis
  proof (cases r)
    case (Inr received)
    let ?d = "if \<not> received then d1\<lparr>cd_conn := q_on_timeout qa (cd_conn d1), cd_machine := logged TimerRun (cd_machine d1)\<rparr> else d1"
    have "moves os quiet d1 ?d" by (auto intro: moves_stay moves_entry simp: logged_def)
    moreover have "send_pending qa os ?d = Some y" using p r Inr by (simp add: pump_def andthen_def)
    ultimately show ?thesis using m moves_trans send_pending_moves by blast
  qed (use p r m in \<open>auto simp: pump_def andthen_def\<close>)
qed

lemma now_is_moves: "now_is os d = (t, d1) \<Longrightarrow> moves os P d d1 \<and> cd_conn d1 = cd_conn d"
  by (auto simp: now_is_def intro!: moves_stay split: prod.splits)

lemma wait_until_moves: "wait_until qa os predicate description d = Some y \<Longrightarrow> moves os quiet d (snd y)"
proof (induction rule: wait_induct)
  case (step loop qa os predicate description d y)
  obtain t d1 where n: "now_is os d = (t, d1)" by fastforce
  have m: "moves os quiet d d1" using now_is_moves [OF n] by blast
  show ?case
  proof (cases "predicate (cd_conn d) \<or> t > cd_deadline d1")
    case True
    then show ?thesis using step(2) n m by (auto intro: moves_stay split: if_splits)
  next
    case False
    then obtain r d2 where p: "pump qa os d1 = Some (r, d2)" using step(2) n by (auto split: option.splits)
    have "moves os quiet d d2" using moves_trans [OF m] pump_moves [OF p] by simp
    moreover have "moves os quiet d2 (snd y)" if "r = Inr ()" using step False n p that by simp
    ultimately show ?thesis using step(2) False n p moves_trans [of os quiet d d2] by (cases r) auto
  qed
qed

lemma next_validated_log:
  "next_validated qa a d = Some y \<Longrightarrow>
    cd_sockets (snd y) = cd_sockets d \<and> log_of (snd y) = log_of d @ (if fst y then [PathValid a] else [])"
proof (induction rule: validated_induct)
  case (step loop qa a d y)
  obtain ev q where e: "q_path_event_next qa (cd_conn d) = (ev, q)" by fastforce
  show ?case
  proof (cases "ev = None \<or> (\<exists>peer. ev = Some (Validated a peer))")
    case True
    then show ?thesis using step(2) e by (auto simp: logged_def)
  next
    case False
    then have "loop qa a (d\<lparr>cd_conn := q\<rparr>) = Some y"
      using step(2) e by (auto split: option.splits PathEvent.splits if_splits)
    from step(1) [OF this] show ?thesis by simp
  qed
qed

lemma wait_path_validated_log:
  "wait_path_validated qa os a d = Some y \<Longrightarrow>
    \<exists>d2. moves os quiet d d2 \<and> cd_sockets (snd y) = cd_sockets d2
      \<and> log_of (snd y) = log_of d2 @ (if isl (fst y) then [] else [PathValid a])"
proof (induction rule: path_induct)
  case (step loop qa os a d y)
  obtain t d1 where n: "now_is os d = (t, d1)" by fastforce
  have m: "moves os quiet d d1" using now_is_moves [OF n] by blast
  show ?case
  proof (cases "t > cd_deadline d1")
    case True
    then show ?thesis using step(2) n m by auto
  next
    case False
    then obtain v d2 where v: "next_validated qa a d1 = Some (v, d2)" using step(2) n by (auto split: option.splits)
    note l = next_validated_log [OF v]
    show ?thesis
    proof (cases v)
      case True
      then show ?thesis using step(2) n False v m l by (intro exI [of _ d1]) auto
    next
      case nv: False
      then obtain r d3 where p: "pump qa os d2 = Some (r, d3)" using step(2) n False v by (auto split: option.splits)
      have "moves os quiet d1 d2" by (rule moves_stay) (use l nv in auto)
      then have m3: "moves os quiet d d3" using moves_trans [OF m moves_trans] pump_moves [OF p] by simp
      show ?thesis
      proof (cases r)
        case (Inl e)
        then show ?thesis using step(2) n False v nv p m3 by (intro exI [of _ d3]) auto
      next
        case (Inr u)
        then have "loop qa os a d3 = Some y" using step(2) n False v nv p by simp
        from step(1) [OF this] show ?thesis using m3 moves_trans by blast
      qed
    qed
  qed
qed

text \<open>Entries that add up to the data that was read, with the end of a stream or without.\<close>

definition gathers :: "'w os \<Rightarrow> ('q, 'w) ClientDriver \<Rightarrow> bytes \<Rightarrow> bool \<Rightarrow> ('q, 'w) ClientDriver \<Rightarrow> bool" where
  "gathers os d data fin d1 \<longleftrightarrow> (socks_ok os d \<longrightarrow> socks_ok os d1
     \<and> (\<exists>l. log_of d1 = log_of d @ l \<and> list_all (own os) l \<and> list_all (\<lambda>e. quiet e \<or> is_read e) l
          \<and> concat (map read_data l) = data \<and> list_ex read_fin l = fin))"

lemma gathers_trans:
  assumes "gathers os d data fin d1" "gathers os d1 data1 fin1 d2"
  shows "gathers os d (data @ data1) (fin \<or> fin1) d2"
  unfolding gathers_def
proof
  assume "socks_ok os d"
  then obtain l where l: "socks_ok os d1" "log_of d1 = log_of d @ l" "list_all (own os) l" "list_all (\<lambda>e. quiet e \<or> is_read e) l"
      "concat (map read_data l) = data" "list_ex read_fin l = fin"
    using assms(1) unfolding gathers_def by blast
  then obtain k where "socks_ok os d2" "log_of d2 = log_of d1 @ k" "list_all (own os) k" "list_all (\<lambda>e. quiet e \<or> is_read e) k"
      "concat (map read_data k) = data1" "list_ex read_fin k = fin1"
    using assms(2) unfolding gathers_def by blast
  with l show "socks_ok os d2 \<and> (\<exists>l. log_of d2 = log_of d @ l \<and> list_all (own os) l \<and> list_all (\<lambda>e. quiet e \<or> is_read e) l
      \<and> concat (map read_data l) = data @ data1 \<and> list_ex read_fin l = (fin \<or> fin1))"
    by (intro conjI exI [of _ "l @ k"]) simp_all
qed

lemma quiet_no_read: "quiet e \<Longrightarrow> read_data e = [] \<and> \<not> read_fin e"
  by (cases e) simp_all

lemma quiet_gathers: "list_all quiet l \<Longrightarrow> list_all (\<lambda>e. quiet e \<or> is_read e) l \<and> concat (map read_data l) = [] \<and> \<not> list_ex read_fin l"
  by (induction l) (auto simp: quiet_no_read)

lemma moves_gathers:
  assumes "moves os quiet d d1"
  shows "gathers os d [] False d1"
  unfolding gathers_def
proof
  assume "socks_ok os d"
  then obtain l where "socks_ok os d1" "log_of d1 = log_of d @ l" "list_all (own os) l" "list_all quiet l"
    using assms unfolding moves_def by blast
  then show "socks_ok os d1 \<and> (\<exists>l. log_of d1 = log_of d @ l \<and> list_all (own os) l \<and> list_all (\<lambda>e. quiet e \<or> is_read e) l
      \<and> concat (map read_data l) = [] \<and> list_ex read_fin l = False)"
    using quiet_gathers [of l] by (intro conjI exI [of _ l]) simp_all
qed

lemma gathers_read:
  "cd_sockets d1 = cd_sockets d \<Longrightarrow> log_of d1 = log_of d @ [StreamRead sid data fin] \<Longrightarrow> gathers os d data fin d1"
  by (auto simp: gathers_def socks_ok_def)

lemma gathers_none: "cd_sockets d1 = cd_sockets d \<Longrightarrow> log_of d1 = log_of d \<Longrightarrow> gathers os d [] False d1"
  by (rule moves_gathers, rule moves_stay)

lemma read_stream_gathers:
  "read_stream qa sid received fin d = Some y \<Longrightarrow>
    \<exists>data f. fst y = received @ data \<and> fst (snd y) = (fin \<or> f) \<and> gathers os d data f (snd (snd y))"
proof (induction rule: stream_induct)
  case (step loop qa sid received fin d y)
  obtain r q where r: "q_stream_recv qa sid RECV_BUFFER_SIZE (cd_conn d) = (r, q)" by fastforce
  show ?case
  proof (cases r)
    case (Inl e)
    then show ?thesis using step(2) r by (intro exI [of _ "[]"] exI [of _ False]) (auto intro: gathers_none)
  next
    case (Inr x)
    obtain data f where x: "x = (data, f)" by (cases x)
    let ?d = "d\<lparr>cd_conn := q, cd_machine := logged (StreamRead sid data f) (cd_machine d)\<rparr>"
    have g: "gathers os d data f ?d" by (rule gathers_read) (simp_all add: logged_def)
    have "loop qa sid (received @ data) (fin \<or> f) ?d = Some y" using step(2) r Inr x by simp
    from step(1) [OF this] obtain data1 f1 where "fst y = received @ data @ data1" "fst (snd y) = (fin \<or> f \<or> f1)"
      and g1: "gathers os ?d data1 f1 (snd (snd y))" by auto
    with gathers_trans [OF g g1] show ?thesis by (intro exI [of _ "data @ data1"] exI [of _ "f \<or> f1"]) simp
  qed
qed

lemma read_streams_gathers:
  "read_streams qa ids received fin d = Some (received1, fin1, d1) \<Longrightarrow>
    \<exists>data f. received1 = received @ data \<and> fin1 = (fin \<or> f) \<and> gathers os d data f d1"
proof (induction ids arbitrary: received fin d)
  case Nil
  then show ?case by (intro exI [of _ "[]"] exI [of _ False]) (auto intro: gathers_none)
next
  case (Cons sid ids)
  then obtain r2 f2 d2 where s: "read_stream qa sid received fin d = Some (r2, f2, d2)"
    and t: "read_streams qa ids r2 f2 d2 = Some (received1, fin1, d1)" by (auto split: option.splits)
  obtain data f where "r2 = received @ data" "f2 = (fin \<or> f)" "gathers os d data f d2"
    using read_stream_gathers [OF s, of os] by auto
  moreover obtain data1 f1 where "received1 = r2 @ data1" "fin1 = (f2 \<or> f1)" "gathers os d2 data1 f1 d1" using Cons.IH [OF t] by auto
  ultimately show ?case
    using gathers_trans [of os d data f d2 data1 f1 d1] by (intro exI [of _ "data @ data1"] exI [of _ "f \<or> f1"]) simp
qed

lemma read_echo_loop_gathers:
  "read_echo_loop qa os received d = Some y \<Longrightarrow>
    \<exists>data fin. gathers os d data fin (snd y) \<and> (\<forall>bs. fst y = Inr bs \<longrightarrow> bs = received @ data \<and> fin)"
proof (induction rule: echo_induct)
  case (step loop qa os received d y)
  obtain t d1 where n: "now_is os d = (t, d1)" by fastforce
  have m: "gathers os d [] False d1" using now_is_moves [OF n] moves_gathers by blast
  show ?case
  proof (cases "t > cd_deadline d1")
    case True
    then show ?thesis using step(2) n m by (intro exI [of _ "[]"] exI [of _ False]) auto
  next
    case False
    then obtain r2 f2 d2 where s: "read_streams qa (q_readable qa (cd_conn d1)) received False d1 = Some (r2, f2, d2)"
      using step(2) n by (auto split: option.splits)
    obtain data where data: "r2 = received @ data" "gathers os d1 data f2 d2" using read_streams_gathers [OF s, of os] by auto
    have g: "gathers os d data f2 d2" using gathers_trans [OF m data(2)] by simp
    show ?thesis
    proof (cases f2)
      case True
      then show ?thesis using step(2) n False s data g by (intro exI [of _ data] exI [of _ True]) auto
    next
      case nf: False
      then obtain r d3 where p: "pump qa os d2 = Some (r, d3)" using step(2) n False s by (auto split: option.splits)
      have g3: "gathers os d data False d3" using gathers_trans [OF g moves_gathers [OF pump_moves [OF p]]] nf by simp
      show ?thesis
      proof (cases r)
        case (Inl e)
        then show ?thesis using step(2) n False s nf p g3 by (intro exI [of _ data] exI [of _ False]) auto
      next
        case (Inr u)
        then have "loop qa os r2 d3 = Some y" using step(2) n False s nf p by simp
        from step(1) [OF this] obtain data1 fin where g4: "gathers os d3 data1 fin (snd y)"
          and "\<forall>bs. fst y = Inr bs \<longrightarrow> bs = r2 @ data1 \<and> fin" by blast
        then show ?thesis using gathers_trans [OF g3 g4] data(1) by (intro exI [of _ "data @ data1"] exI [of _ fin]) simp
      qed
    qed
  qed
qed

text \<open>The programs of the driver, one after the other.\<close>

named_theorems doing

declare does_andthen [doing] does_give [doing] does_fail [doing] does_query [doing] does_quiche_call [doing]

lemma does_cond [doing]:
  "does os lg ok p Q \<Longrightarrow> does os lg ok p1 Q \<Longrightarrow> does os lg ok (\<lambda>d. (if P d then p else p1) d) Q"
  by (rule doesI) (auto dest: doesD split: if_splits)

lemma own_entries [doing]:
  "own os Closed" "own os (SessionSet x)" "own os (StreamSent sid data fin)" "own os (ScidIssued x)" "own os (Probed a b)"
  "own os (Migrated a b)"
  by simp_all

lemma does_send [doing]: "does os log_of (socks_ok os) (send_pending qa os) (\<lambda>_. list_all quiet)"
  by (rule does_moves) (use send_pending_moves in fastforce)

lemma does_wait [doing]: "does os log_of (socks_ok os) (wait_until qa os predicate description) (\<lambda>_. list_all quiet)"
  by (rule does_moves) (use wait_until_moves in fastforce)

lemma does_path [doing]:
  "does os log_of (socks_ok os) (wait_path_validated qa os a) (\<lambda>_ l. \<exists>k. l = k @ [PathValid a] \<and> list_all quiet k)"
proof (rule doesI)
  fix d r d1 assume ok: "socks_ok os d" and run: "wait_path_validated qa os a d = Some (r, d1)"
  obtain d2 where d2: "moves os quiet d d2" "cd_sockets d1 = cd_sockets d2" "log_of d1 = log_of d2 @ (if isl r then [] else [PathValid a])"
    using wait_path_validated_log [OF run] by auto
  obtain l where "socks_ok os d2" "log_of d2 = log_of d @ l" "list_all (own os) l" "list_all quiet l"
    using d2(1) ok unfolding moves_def by blast
  then show "\<exists>l. socks_ok os d1 \<and> log_of d1 = log_of d @ l \<and> list_all (own os) l
      \<and> (\<forall>x. r = Inr x \<longrightarrow> (\<exists>k. l = k @ [PathValid a] \<and> list_all quiet k))"
    using d2(2,3) by (intro exI [of _ "l @ (if isl r then [] else [PathValid a])"]) (auto simp: socks_ok_def)
qed

definition echo_entries :: "bytes \<Rightarrow> entry list \<Rightarrow> bool" where
  "echo_entries bs l \<longleftrightarrow> list_all (\<lambda>e. quiet e \<or> is_read e) l \<and> concat (map read_data l) = bs \<and> list_ex read_fin l"

lemma does_echo [doing]: "does os log_of (socks_ok os) (read_echo qa os) echo_entries"
proof (rule doesI)
  fix d r d1 assume ok: "socks_ok os d" and run: "read_echo qa os d = Some (r, d1)"
  obtain data fin where g: "gathers os d data fin d1" "\<forall>bs. r = Inr bs \<longrightarrow> bs = data \<and> fin"
    using read_echo_loop_gathers [OF run [unfolded read_echo_def]] by auto
  obtain l where "socks_ok os d1" "log_of d1 = log_of d @ l" "list_all (own os) l" "list_all (\<lambda>e. quiet e \<or> is_read e) l"
      "concat (map read_data l) = data" "list_ex read_fin l = fin"
    using g(1) ok unfolding gathers_def by blast
  then show "\<exists>l. socks_ok os d1 \<and> log_of d1 = log_of d @ l \<and> list_all (own os) l \<and> (\<forall>x. r = Inr x \<longrightarrow> echo_entries x l)"
    using g(2) by (intro exI [of _ l]) (auto simp: echo_entries_def)
qed

lemma does_config [doing]: "does os lg ok (client_config qa path) (\<lambda>c l. l = [])"
  unfolding client_config_def Let_def
  by (cases "q_config_new qa") (auto intro!: does_fail does_mono [OF does_andthen [OF does_query does_give]])

lemma does_bind: "does os m_log (\<lambda>_. True) (bind_socket os) (\<lambda>_ l. l = [])"
  unfolding bind_socket_def by (rule does_mono, (rule doing does_os_call)+) auto

lemma does_add_socket [doing]:
  "does os log_of (socks_ok os) (add_socket os socket) (\<lambda>a l. os_local_addr os socket = Inr a \<and> l = [])"
  by (rule doesI) (auto simp: add_socket_def socket_addr_def os_query_def andthen_def give_def fail_def socks_ok_def update_conv
      split: sum.splits if_splits)

lemma does_session [doing]: "does os log_of (socks_ok os) (session_of qa) (\<lambda>session l. l = [SessionTaken session])"
  by (rule doesI) (auto simp: session_of_def logged_def socks_ok_def split: option.splits)

lemma does_connect: "does os m_log (\<lambda>_. True) (connect qa os server_addr a config) (\<lambda>_ l. \<exists>scid. l = [Opened scid])"
  by (rule doesI) (auto simp: connect_def andthen_def os_call_def os_query_def give_def fail_def logged_def
      split: option.splits prod.splits sum.splits)

lemma does_with_driver:
  assumes "does os log_of (socks_ok os) body Q"
  shows "does os m_log (\<lambda>_. True) (with_driver os conn socket body) Q"
proof (rule doesI)
  fix m r m1 assume run: "with_driver os conn socket body m = Some (r, m1)"
  obtain x m2 where n: "driver_new os conn socket m = (x, m2)" by fastforce
  show "\<exists>l. True \<and> m_log m1 = m_log m @ l \<and> list_all (own os) l \<and> (\<forall>y. r = Inr y \<longrightarrow> Q y l)"
  proof (cases x)
    case (Inl e)
    then show ?thesis using run n by (auto simp: with_driver_def driver_new_def Let_def split: sum.splits prod.splits)
  next
    case (Inr d)
    then have d: "socks_ok os d" "log_of d = m_log m"
      using n by (auto simp: driver_new_def socks_ok_def Let_def split: sum.splits prod.splits if_splits)
    obtain d1 where b: "body d = Some (r, d1)" "m1 = cd_machine d1" using run n Inr by (auto simp: with_driver_def)
    from doesD [OF assms d(1) b(1)] show ?thesis using b(2) d(2) by auto
  qed
qed

lemma does_opened [doing]:
  assumes "does os log_of (socks_ok os) body Q"
  shows "does os m_log (\<lambda>_. True) (opened qa os server_addr config body) (\<lambda>x l. \<exists>scid k. l = Opened scid # k \<and> Q x k)"
  unfolding opened_def socket_addr_def
  by (rule does_mono, rule does_andthen [OF does_bind does_andthen [OF does_query does_andthen [OF does_connect does_with_driver [OF assms]]]])
     auto

lemma does_on_machine_calls [doing]:
  "does os log_of (socks_ok os) (on_machine (os_call msg f)) (\<lambda>_ l. l = [])"
  "does os log_of (socks_ok os) (on_machine (bind_socket os)) (\<lambda>_ l. l = [])"
  by (rule does_on_machine, rule does_os_call does_bind)+

lemma does_close [doing]:
  "does os log_of (socks_ok os) (close_connection qa os) (\<lambda>_ l. \<exists>k. l = Closed # k \<and> list_all quiet k)"
  unfolding close_connection_def by (rule does_mono, (rule doing)+) auto

lemma does_issue [doing]: "does os log_of (socks_ok os) (issue_scid qa os) (\<lambda>_ l. \<exists>scid. l = [ScidIssued scid])"
  unfolding issue_scid_def by (rule does_mono, (rule doing)+) auto

lemma does_send_all [doing]: "does os log_of (socks_ok os) (send_all qa msg payload) (\<lambda>_ l. l = [StreamSent 0 payload True])"
  unfolding send_all_def by (rule doing)+

lemma does_fetch [doing]:
  "does os m_log (\<lambda>_. True) (fetch_session qa os server_addr path)
    (\<lambda>session l. \<exists>scid l1 l2. l = Opened scid # l1 @ [SessionTaken session, Closed] @ l2 \<and> list_all quiet (l1 @ l2))"
  unfolding fetch_session_def by (rule does_mono, (rule doing)+) (clarsimp, metis append.assoc list_all_append)

section \<open>Properties\<close>

lemma early_data_does:
  "does os m_log (\<lambda>_. True) (client_early_data_roundtrip qa os server_addr path payload)
    (\<lambda>echoed l. \<exists>scid1 l1 session l2 scid2 l3 l4.
       l = Opened scid1 # l1 @ [SessionTaken session, Closed] @ l2 @ [Opened scid2, SessionSet session, StreamSent 0 payload True] @ l3 @ l4
       \<and> list_all quiet (l1 @ l2 @ l3) \<and> echo_entries echoed l4)"
  unfolding client_early_data_roundtrip_def
  by (rule does_mono, (rule doing)+) (clarsimp, intro exI conjI, rule refl, assumption+)

lemma migrate_does:
  "does os m_log (\<lambda>_. True) (client_migrate_roundtrip qa os server_addr path payload)
    (\<lambda>echoed l. \<exists>scid l1 scid2 l2 new l3 l4 l5 l6.
       l = Opened scid # l1 @ [ScidIssued scid2] @ l2 @ [Probed new server_addr] @ l3 @ [PathValid new, Migrated new server_addr] @ l4
         @ [StreamSent 0 payload True] @ l5 @ [Closed] @ l6
       \<and> list_all quiet (l1 @ l2 @ l3 @ l4 @ l6) \<and> echo_entries echoed l5)"
  unfolding client_migrate_roundtrip_def
  apply (rule does_mono, (rule doing)+)
  apply clarsimp
  subgoal for x l1 l1a l1b scida l1d xa xb ka l1f l1g kb
    by (rule exI [of _ "l1 @ l1a @ l1b"], rule exI [of _ scida], rule exI [of _ l1d], rule exI [of _ xb], rule exI [of _ ka],
        rule exI [of _ l1f], rule exI [of _ l1g], rule exI [of _ kb]) simp
  done

text \<open>C31. The clients that run quiche directly do what the tests rely on. Every packet, also of a run that fails, leaves from
  the socket bound to the address quiche named as its source. The client with early data closes a first
  connection from which it took a session, opens a second, and sets exactly that session and queues the data
  before anything is sent on it. The migrating client sends its data only after it has probed the path
  from the new address, quiche has reported that very path as validated, and it has moved to it; it closes the connection at
  the end. Both return exactly the data they have read up to the end of the stream.\<close>

theorem raw_clients_order:
  "(client_early_data_roundtrip qa os server_addr ca_cert_path payload m = Some (r, m1) \<longrightarrow>
      (\<exists>l. m_log m1 = m_log m @ l \<and> list_all (own os) l \<and> (\<forall>echoed. r = Inr echoed \<longrightarrow>
        (\<exists>scid1 l1 session l2 scid2 l3 l4.
           l = Opened scid1 # l1 @ [SessionTaken session, Closed] @ l2
             @ [Opened scid2, SessionSet session, StreamSent 0 payload True] @ l3 @ l4
           \<and> list_all quiet (l1 @ l2 @ l3) \<and> echo_entries echoed l4))))
   \<and> (client_migrate_roundtrip qa os server_addr ca_cert_path payload m = Some (r, m1) \<longrightarrow>
      (\<exists>l. m_log m1 = m_log m @ l \<and> list_all (own os) l \<and> (\<forall>echoed. r = Inr echoed \<longrightarrow>
        (\<exists>scid l1 scid2 l2 new l3 l4 l5 l6.
           l = Opened scid # l1 @ [ScidIssued scid2] @ l2 @ [Probed new server_addr] @ l3
             @ [PathValid new, Migrated new server_addr] @ l4 @ [StreamSent 0 payload True] @ l5 @ [Closed] @ l6
           \<and> list_all quiet (l1 @ l2 @ l3 @ l4 @ l6) \<and> echo_entries echoed l5))))"
proof (intro conjI impI)
  assume r: "client_early_data_roundtrip qa os server_addr ca_cert_path payload m = Some (r, m1)"
  show "\<exists>l. m_log m1 = m_log m @ l \<and> list_all (own os) l \<and> (\<forall>echoed. r = Inr echoed \<longrightarrow>
        (\<exists>scid1 l1 session l2 scid2 l3 l4.
           l = Opened scid1 # l1 @ [SessionTaken session, Closed] @ l2
             @ [Opened scid2, SessionSet session, StreamSent 0 payload True] @ l3 @ l4
           \<and> list_all quiet (l1 @ l2 @ l3) \<and> echo_entries echoed l4))"
    using doesD [OF early_data_does TrueI r] by (simp only: simp_thms)
next
  assume r: "client_migrate_roundtrip qa os server_addr ca_cert_path payload m = Some (r, m1)"
  show "\<exists>l. m_log m1 = m_log m @ l \<and> list_all (own os) l \<and> (\<forall>echoed. r = Inr echoed \<longrightarrow>
        (\<exists>scid l1 scid2 l2 new l3 l4 l5 l6.
           l = Opened scid # l1 @ [ScidIssued scid2] @ l2 @ [Probed new server_addr] @ l3
             @ [PathValid new, Migrated new server_addr] @ l4 @ [StreamSent 0 payload True] @ l5 @ [Closed] @ l6
           \<and> list_all quiet (l1 @ l2 @ l3 @ l4 @ l6) \<and> echo_entries echoed l5))"
    using doesD [OF migrate_does TrueI r] by (simp only: simp_thms)
qed

text \<open>A quiche that has nothing to send, completes everything at once and delivers the echo of one byte, for concrete runs;
  its state is the number of stream reads.\<close>

definition sample_quiche :: "nat quiche_api" where
  "sample_quiche = \<lparr>
     q_config_new = Some \<lparr>qc_application_protos = [], qc_max_idle_timeout = 0, qc_max_recv_udp_payload_size = 0,
       qc_max_send_udp_payload_size = 0, qc_initial_max_data = 0, qc_initial_max_stream_data_bidi_local = 0,
       qc_initial_max_stream_data_bidi_remote = 0, qc_initial_max_stream_data_uni = 0, qc_initial_max_streams_bidi = 0,
       qc_initial_max_streams_uni = 0, qc_verify_peer = False, qc_verify_locations = None,
       qc_disable_active_migration = True, qc_early_data = False\<rparr>,
     q_set_application_protos = (\<lambda>_. True), q_load_verify_locations = (\<lambda>_. Inr ()),
     q_connect = (\<lambda>_ _ _ _ _. Inr 0), q_send = (\<lambda>_ q. (Inl QDone, q)), q_recv = (\<lambda>_ _ _ q. q), q_on_timeout = (\<lambda>q. q),
     q_is_established = (\<lambda>_. True), q_is_resumed = (\<lambda>_. True), q_is_in_early_data = (\<lambda>_. True), q_is_draining = (\<lambda>_. True),
     q_is_closed = (\<lambda>_. False), q_is_timed_out = (\<lambda>_. False), q_session = (\<lambda>_. Some [7]),
     q_set_session = (\<lambda>_ q. (Inr (), q)), q_available_dcids = (\<lambda>_. 1), q_new_scid = (\<lambda>_ _ _ q. (Inr (), q)),
     q_path_event_next = (\<lambda>q. (Some (Validated (SockV4 0x7F000001 1) (SockV4 1 1)), q)),
     q_probe_path = (\<lambda>_ _ q. (Inr (), q)), q_migrate = (\<lambda>_ _ q. (Inr (), q)), q_readable = (\<lambda>_. [0]),
     q_stream_recv = (\<lambda>_ _ q. if q = 0 then (Inr ([5], True), 1) else (Inl QDone, q)),
     q_stream_send = (\<lambda>_ data _ q. (Inr (length data), q)), q_close = (\<lambda>_ _ _ q. (Inr (), q))\<rparr>"

definition sample_os :: "nat os" where
  "sample_os = \<lparr>os_now = (\<lambda>w. (0, w)), os_random = (\<lambda>n w. (Inr (replicate n 0), w)), os_bind = (\<lambda>_ w. (Inr w, Suc w)),
     os_set_read_timeout = (\<lambda>_ _ w. (Inr (), w)), os_local_addr = (\<lambda>n. Inr (SockV4 0x7F000001 (word_of_nat n))),
     os_send_to = (\<lambda>_ _ _ w. (Inr (), w)), os_recv_from = (\<lambda>_ _ w. (Inl TimedOut, w))\<rparr>"

lemma sample_runs:
  "send_pending sample_quiche os d = Some (Inr (), d)"
  "predicate (cd_conn d) \<Longrightarrow> wait_until sample_quiche os predicate description d = Some (Inr (), d)"
  "wait_path_validated sample_quiche sample_os (SockV4 0x7F000001 1) d
    = Some (Inr (), d\<lparr>cd_machine := logged (PathValid (SockV4 0x7F000001 1)) (cd_machine d)\<rparr>)"
  "cd_conn d = 0 \<Longrightarrow> read_echo sample_quiche sample_os d
    = Some (Inr [5], d\<lparr>cd_conn := 1, cd_machine := logged (StreamRead 0 [5] True) (cd_machine d)\<rparr>)"
proof -
  show "send_pending sample_quiche os d = Some (Inr (), d)"
    by (subst send_pending.simps) (simp add: sample_quiche_def)
  show "wait_until sample_quiche os predicate description d = Some (Inr (), d)" if "predicate (cd_conn d)"
    using that by (subst wait_until.simps) simp
  show "wait_path_validated sample_quiche sample_os (SockV4 0x7F000001 1) d
      = Some (Inr (), d\<lparr>cd_machine := logged (PathValid (SockV4 0x7F000001 1)) (cd_machine d)\<rparr>)"
    by (subst wait_path_validated.simps, subst next_validated.simps)
       (simp add: now_is_def sample_os_def sample_quiche_def logged_def)
  show "read_echo sample_quiche sample_os d
      = Some (Inr [5], d\<lparr>cd_conn := 1, cd_machine := logged (StreamRead 0 [5] True) (cd_machine d)\<rparr>)" if "cd_conn d = 0"
    unfolding read_echo_def
    by (subst read_echo_loop.simps)
       (simp add: now_is_def sample_os_def sample_quiche_def logged_def that read_stream.simps [of _ 0 "[]"] read_stream.simps [of _ 0 "[5]"])
qed

lemma sample_fields:
  "\<exists>c. q_config_new sample_quiche = Some c" "q_set_application_protos sample_quiche x" "q_load_verify_locations sample_quiche path = Inr ()"
  "q_connect sample_quiche name scid a b config = Inr 0" "q_is_established sample_quiche q" "q_available_dcids sample_quiche q = 1"
  "q_new_scid sample_quiche scid token retire q = (Inr (), q)" "q_probe_path sample_quiche a b q = (Inr (), q)"
  "q_migrate sample_quiche a b q = (Inr (), q)" "q_stream_send sample_quiche sid data fin q = (Inr (length data), q)"
  "q_close sample_quiche app code reason q = (Inr (), q)"
  "os_now sample_os w = (0, w)" "os_random sample_os n w = (Inr (replicate n 0), w)" "os_bind sample_os a w = (Inr w, Suc w)"
  "os_set_read_timeout sample_os fd t w = (Inr (), w)" "os_local_addr sample_os fd = Inr (SockV4 0x7F000001 (word_of_nat fd))"
  by (simp_all add: sample_quiche_def sample_os_def)

lemma sample_migration:
  "\<exists>m1. client_migrate_roundtrip sample_quiche sample_os (SockV4 1 1) ''ca'' [5] \<lparr>m_world = 0, m_log = []\<rparr> = Some (Inr [5], m1)"
proof -
  obtain c where "q_config_new sample_quiche = Some c" using sample_fields(1) by blast
  then show ?thesis
    by (simp add: client_migrate_roundtrip_def client_config_def opened_def bind_socket_def socket_addr_def connect_def with_driver_def
      driver_new_def close_connection_def issue_scid_def send_all_def add_socket_def on_machine_def quiche_call_def os_call_def
      os_query_def andthen_def give_def sample_runs sample_fields logged_def Let_def)
qed

theorem raw_clients_order_witness:
  "\<exists>m1. client_migrate_roundtrip sample_quiche sample_os (SockV4 1 1) ''ca'' [5] \<lparr>m_world = 0, m_log = []\<rparr> = Some (Inr [5], m1)
    \<and> list_all (own sample_os) (m_log m1)"
proof -
  obtain m1 where r: "client_migrate_roundtrip sample_quiche sample_os (SockV4 1 1) ''ca'' [5] \<lparr>m_world = 0, m_log = []\<rparr>
      = Some (Inr [5], m1)" using sample_migration by blast
  then show ?thesis using raw_clients_order [of sample_quiche sample_os "SockV4 1 1" "''ca''" "[5]" "\<lparr>m_world = 0, m_log = []\<rparr>" "Inr [5]" m1]
    by auto
qed

end
