(* ===== verification/RawQuicheEnds.thy ===== *)
theory RawQuicheEnds
  imports RawQuiche
begin

text \<open>
  The loops of the driver that runs quiche directly end (\<^verbatim>\<open>src/interop/quiche-driver/src/raw_quiche.rs\<close>): each is bounded by the deadline of
  the driver or by what quiche has ready.
\<close>

section \<open>The loops end\<close>

text \<open>What the loops rely on: quiche has finitely many packets, path events and stream data ready at a time, the clock does not run
  backwards, and receiving from a socket takes time (it blocks for up to \<^verbatim>\<open>POLL_INTERVAL\<close>).\<close>

definition finite_supply :: "('q \<Rightarrow> bool \<times> 'q) \<Rightarrow> bool" where
  "finite_supply f \<longleftrightarrow> (\<exists>budget :: 'q \<Rightarrow> nat. \<forall>q. fst (f q) \<longrightarrow> budget (snd (f q)) < budget q)"

definition quiche_finite :: "'q quiche_api \<Rightarrow> bool" where
  "quiche_finite qa \<longleftrightarrow>
    finite_supply (\<lambda>q. (\<not> isl (fst (q_send qa MAX_DATAGRAM_SIZE q)), snd (q_send qa MAX_DATAGRAM_SIZE q)))
    \<and> finite_supply (\<lambda>q. (fst (q_path_event_next qa q) \<noteq> None, snd (q_path_event_next qa q)))
    \<and> (\<forall>sid. finite_supply (\<lambda>q. (\<not> isl (fst (q_stream_recv qa sid RECV_BUFFER_SIZE q)), snd (q_stream_recv qa sid RECV_BUFFER_SIZE q))))"

definition clock_of :: "'w os \<Rightarrow> ('w \<Rightarrow> nat) \<Rightarrow> bool" where
  "clock_of os clock \<longleftrightarrow> (\<forall>w. fst (os_now os w) = clock w \<and> clock w \<le> clock (snd (os_now os w)))
    \<and> (\<forall>s n w. clock w < clock (snd (os_recv_from os s n w)))
    \<and> (\<forall>s p a w. clock w \<le> clock (snd (os_send_to os s p a w)))"

definition later :: "('w \<Rightarrow> nat) \<Rightarrow> ('q, 'w) ClientDriver \<Rightarrow> ('q, 'w) ClientDriver \<Rightarrow> bool" where
  "later clock d d1 \<longleftrightarrow> clock (m_world (cd_machine d)) \<le> clock (m_world (cd_machine d1))
    \<and> cd_sockets d1 = cd_sockets d \<and> cd_deadline d1 = cd_deadline d"

lemma later_refl [simp]: "later clock d d"
  by (simp add: later_def)

lemma later_trans: "later clock d d1 \<Longrightarrow> later clock d1 d2 \<Longrightarrow> later clock d d2"
  by (auto simp: later_def)

lemma send_pending_returns:
  fixes qa :: "'q quiche_api"
  assumes "quiche_finite qa" and "clock_of os clock"
  shows "\<exists>r d1. send_pending qa os d = Some (r, d1) \<and> later clock d d1"
proof -
  obtain budget :: "'q \<Rightarrow> nat"
    where b: "\<And>q x q1. q_send qa MAX_DATAGRAM_SIZE q = (Inr x, q1) \<Longrightarrow> budget q1 < budget q"
    using assms(1) unfolding quiche_finite_def finite_supply_def by (metis fst_conv isl_def snd_conv sum.distinct(1))
  show ?thesis
  proof (induction "budget (cd_conn d)" arbitrary: d rule: less_induct)
    case less
    obtain x q where s: "q_send qa MAX_DATAGRAM_SIZE (cd_conn d) = (x, q)" by fastforce
    show ?case
    proof (cases "\<exists>packet src dst socket. x = Inr (packet, src, dst) \<and> map_of (cd_sockets d) src = Some socket")
      case True
      then obtain packet src dst socket where x: "x = Inr (packet, src, dst)" "map_of (cd_sockets d) src = Some socket" by blast
      obtain t w where t: "os_send_to os socket packet dst (m_world (cd_machine d)) = (t, w)" by fastforce
      have c: "clock (m_world (cd_machine d)) \<le> clock w" using assms(2) t unfolding clock_of_def by (metis snd_conv)
      let ?d = "d\<lparr>cd_conn := q, cd_machine := logged (Sent src socket packet dst) ((cd_machine d)\<lparr>m_world := w\<rparr>)\<rparr>"
      obtain r d1 where "send_pending qa os ?d = Some (r, d1)" "later clock ?d d1" using less [of ?d] b s x(1) by fastforce
      moreover have "later clock d ?d" using c by (simp add: later_def logged_def)
      ultimately show ?thesis using s x t c later_trans
        by (subst send_pending.simps) (cases t; fastforce simp: later_def)
    next
      case False
      then show ?thesis using s
        by (subst send_pending.simps) (auto simp: later_def split: sum.split option.split quiche_error.split)
    qed
  qed
qed

lemma recv_loop_later:
  assumes "clock_of os clock"
  shows "\<exists>r d1. recv_loop qa os addrs d = Some (r, d1) \<and> later clock d d1"
proof (induction addrs arbitrary: d)
  case (Cons a addrs)
  show ?case
  proof (cases "map_of (cd_sockets d) a")
    case (Some socket)
    obtain r w where r: "os_recv_from os socket RECV_BUFFER_SIZE (m_world (cd_machine d)) = (r, w)" by fastforce
    have c: "clock (m_world (cd_machine d)) < clock w" using assms r unfolding clock_of_def by (metis snd_conv)
    let ?d = "d\<lparr>cd_machine := (cd_machine d)\<lparr>m_world := w\<rparr>\<rparr>"
    have l: "later clock d ?d" using c by (simp add: later_def)
    show ?thesis using Cons.IH [of ?d] later_trans [OF l] Some r c
      by (auto simp: Let_def later_def logged_def split: sum.split recv_error.split)
  qed simp
qed simp

text \<open>With a socket to receive from, every round takes time.\<close>

lemma pump_returns:
  assumes "quiche_finite qa" and "clock_of os clock" and "cd_sockets d \<noteq> []"
  obtains r d1 where "pump qa os d = Some (r, d1)" "later clock d d1"
    "clock (m_world (cd_machine d)) < clock (m_world (cd_machine d1))"
proof -
  obtain a socket ss where s: "cd_sockets d = (a, socket) # ss" using assms(3) by (cases "cd_sockets d") auto
  obtain x w where x: "os_recv_from os socket RECV_BUFFER_SIZE (m_world (cd_machine d)) = (x, w)" by fastforce
  have c: "clock (m_world (cd_machine d)) < clock w" using assms(2) x unfolding clock_of_def by (metis snd_conv)
  let ?d = "d\<lparr>cd_machine := (cd_machine d)\<lparr>m_world := w\<rparr>\<rparr>"
  obtain r1 d1 where l: "recv_loop qa os (map fst ss) ?d = Some (r1, d1)" "later clock ?d d1" using recv_loop_later [OF assms(2)] by blast
  have "\<exists>r d2. recv_once qa os d = Some (r, d2) \<and> later clock ?d d2"
    using l s x by (auto simp: recv_once_def Let_def later_def logged_def split: sum.split recv_error.split)
  then obtain r d2 where r: "recv_once qa os d = Some (r, d2)" "later clock ?d d2" by blast
  have lt: "later clock d d2" "clock (m_world (cd_machine d)) < clock (m_world (cd_machine d2))"
    using r(2) c by (auto simp: later_def)
  show thesis
  proof (cases r)
    case (Inl e)
    then show thesis using that r lt by (simp add: pump_def andthen_def)
  next
    case (Inr received)
    let ?e = "if \<not> received then d2\<lparr>cd_conn := q_on_timeout qa (cd_conn d2), cd_machine := logged TimerRun (cd_machine d2)\<rparr> else d2"
    obtain r3 d3 where d3: "send_pending qa os ?e = Some (r3, d3)" "later clock ?e d3" using send_pending_returns [OF assms(1,2)] by blast
    have "pump qa os d = Some (r3, d3)" using r(1) d3(1) Inr by (simp add: pump_def andthen_def)
    moreover have "later clock d2 d3" using d3(2) by (auto simp: later_def logged_def split: if_splits)
    ultimately show thesis using that lt later_trans by (auto simp: later_def)
  qed
qed

lemma now_is_later:
  assumes "clock_of os clock"
  obtains t d1 where "now_is os d = (t, d1)" "later clock d d1" "t = clock (m_world (cd_machine d))" "cd_conn d1 = cd_conn d"
proof -
  obtain t w where t: "os_now os (m_world (cd_machine d)) = (t, w)" by fastforce
  have "t = clock (m_world (cd_machine d))" "clock (m_world (cd_machine d)) \<le> clock w"
    using assms t unfolding clock_of_def by (metis fst_conv snd_conv)+
  with t show thesis using that by (simp add: now_is_def later_def)
qed

lemma next_validated_returns:
  fixes qa :: "'q quiche_api"
  assumes "quiche_finite qa"
  shows "\<exists>v d1. next_validated qa a d = Some (v, d1) \<and> later clock d d1"
proof -
  obtain budget :: "'q \<Rightarrow> nat" where b: "\<And>q x q1. q_path_event_next qa q = (Some x, q1) \<Longrightarrow> budget q1 < budget q"
    using assms unfolding quiche_finite_def finite_supply_def fst_conv snd_conv by (metis fst_conv option.distinct(1) snd_conv)
  show ?thesis
  proof (induction "budget (cd_conn d)" arbitrary: d rule: less_induct)
    case less
    obtain x q where s: "q_path_event_next qa (cd_conn d) = (x, q)" by fastforce
    show ?case
    proof (cases "x = None")
      case True
      then show ?thesis using s by (subst next_validated.simps) (auto simp: later_def)
    next
      case False
      then obtain v d1 where "next_validated qa a (d\<lparr>cd_conn := q\<rparr>) = Some (v, d1)" "later clock (d\<lparr>cd_conn := q\<rparr>) d1"
        using less [of "d\<lparr>cd_conn := q\<rparr>"] b s by fastforce
      then show ?thesis using s False
        by (subst next_validated.simps) (auto simp: later_def logged_def split: option.split PathEvent.split)
    qed
  qed
qed

lemma read_stream_returns:
  fixes qa :: "'q quiche_api"
  assumes "quiche_finite qa"
  shows "\<exists>rec f d1. read_stream qa sid received fin d = Some (rec, f, d1) \<and> later clock d d1"
proof -
  obtain budget :: "'q \<Rightarrow> nat" where b: "\<And>q x q1. q_stream_recv qa sid RECV_BUFFER_SIZE q = (Inr x, q1) \<Longrightarrow> budget q1 < budget q"
    using assms unfolding quiche_finite_def finite_supply_def by (metis fst_conv isl_def snd_conv sum.distinct(1))
  show ?thesis
  proof (induction "budget (cd_conn d)" arbitrary: received fin d rule: less_induct)
    case less
    obtain x q where s: "q_stream_recv qa sid RECV_BUFFER_SIZE (cd_conn d) = (x, q)" by fastforce
    show ?case
    proof (cases x)
      case (Inl e)
      then show ?thesis using s by (subst read_stream.simps) (simp add: later_def)
    next
      case (Inr y)
      obtain data f where y: "y = (data, f)" by (cases y)
      let ?d = "d\<lparr>cd_conn := q, cd_machine := logged (StreamRead sid data f) (cd_machine d)\<rparr>"
      obtain rec f1 d1 where "read_stream qa sid (received @ data) (fin \<or> f) ?d = Some (rec, f1, d1)" "later clock ?d d1"
        using less [of ?d] b s Inr by fastforce
      then show ?thesis using s Inr y by (subst read_stream.simps) (auto simp: later_def logged_def)
    qed
  qed
qed

lemma read_streams_returns:
  assumes "quiche_finite qa"
  shows "\<exists>rec f d1. read_streams qa ids received fin d = Some (rec, f, d1) \<and> later clock d d1"
proof (induction ids arbitrary: received fin d)
  case (Cons sid ids)
  obtain rec f d1 where "read_stream qa sid received fin d = Some (rec, f, d1)" "later clock d d1"
    using read_stream_returns [OF assms] by blast
  then show ?case using Cons.IH [of rec f d1] later_trans by fastforce
qed simp

text \<open>A loop that asks for the time, does something that ends, and pumps, ends: the time left shrinks in every round.\<close>

lemma deadline_induct [consumes 2, case_names step]:
  fixes d :: "('q, 'w) ClientDriver"
  assumes "clock_of os clock" and "cd_sockets d \<noteq> []"
    and step: "\<And>d. cd_sockets d \<noteq> [] \<Longrightarrow>
      (\<And>d1. cd_sockets d1 \<noteq> [] \<Longrightarrow> cd_deadline d1 = cd_deadline d \<Longrightarrow> clock (m_world (cd_machine d)) \<le> cd_deadline d
        \<Longrightarrow> clock (m_world (cd_machine d)) < clock (m_world (cd_machine d1)) \<Longrightarrow> P d1) \<Longrightarrow> P d"
  shows "P d"
  using assms(2)
proof (induction "Suc (cd_deadline d) - clock (m_world (cd_machine d))" arbitrary: d rule: less_induct)
  case less
  show ?case
  proof (rule step [OF less(2)])
    fix d1 :: "('q, 'w) ClientDriver"
    assume "cd_sockets d1 \<noteq> []" "cd_deadline d1 = cd_deadline d" "clock (m_world (cd_machine d)) \<le> cd_deadline d"
      "clock (m_world (cd_machine d)) < clock (m_world (cd_machine d1))"
    then show "P d1" by (intro less(1)) auto
  qed
qed

lemma later_sockets: "later clock d d1 \<Longrightarrow> cd_sockets d \<noteq> [] \<Longrightarrow> cd_sockets d1 \<noteq> []"
  by (simp add: later_def)

lemma wait_until_returns:
  assumes fin: "quiche_finite qa" and clk: "clock_of os clock" and "cd_sockets d \<noteq> []"
  shows "\<exists>r d1. wait_until qa os predicate description d = Some (r, d1) \<and> cd_sockets d1 = cd_sockets d"
  using clk assms(3)
proof (induction d rule: deadline_induct)
  case (step d)
  obtain t d1 where n: "now_is os d = (t, d1)" "later clock d d1" "t = clock (m_world (cd_machine d))" by (rule now_is_later [OF clk])
  obtain r d2 where p: "pump qa os d1 = Some (r, d2)" "later clock d1 d2" "clock (m_world (cd_machine d1)) < clock (m_world (cd_machine d2))"
    by (rule pump_returns [OF fin clk later_sockets [OF n(2) step(1)]])
  have "\<exists>r d3. wait_until qa os predicate description d2 = Some (r, d3) \<and> cd_sockets d3 = cd_sockets d2" if "t \<le> cd_deadline d1"
    using that n p step(1) by (intro step(2)) (auto simp: later_def)
  then show ?case by (subst wait_until.simps) (use n(1,2) p(1,2) in \<open>cases r; auto simp: later_def\<close>)
qed

lemma wait_path_validated_returns:
  assumes fin: "quiche_finite qa" and clk: "clock_of os clock" and "cd_sockets d \<noteq> []"
  shows "\<exists>r d1. wait_path_validated qa os a d = Some (r, d1) \<and> cd_sockets d1 = cd_sockets d"
  using clk assms(3)
proof (induction d rule: deadline_induct)
  case (step d)
  obtain t d1 where n: "now_is os d = (t, d1)" "later clock d d1" "t = clock (m_world (cd_machine d))" by (rule now_is_later [OF clk])
  obtain v d2 where v: "next_validated qa a d1 = Some (v, d2)" "later clock d1 d2" using next_validated_returns [OF fin] by blast
  have l: "later clock d d2" using later_trans n(2) v(2) by blast
  obtain r d3 where p: "pump qa os d2 = Some (r, d3)" "later clock d2 d3" "clock (m_world (cd_machine d2)) < clock (m_world (cd_machine d3))"
    by (rule pump_returns [OF fin clk later_sockets [OF l step(1)]])
  have "\<exists>r d4. wait_path_validated qa os a d3 = Some (r, d4) \<and> cd_sockets d4 = cd_sockets d3" if "t \<le> cd_deadline d1"
    using that n l p step(1) by (intro step(2)) (auto simp: later_def)
  then show ?case by (subst wait_path_validated.simps) (use n(1) l v p(1,2) in \<open>cases r; auto simp: later_def\<close>)
qed

lemma read_echo_loop_returns:
  assumes fin: "quiche_finite qa" and clk: "clock_of os clock" and "cd_sockets d \<noteq> []"
  shows "\<forall>received. \<exists>r d1. read_echo_loop qa os received d = Some (r, d1) \<and> cd_sockets d1 = cd_sockets d"
  using clk assms(3)
proof (induction d rule: deadline_induct)
  case (step d)
  obtain t d1 where n: "now_is os d = (t, d1)" "later clock d d1" "t = clock (m_world (cd_machine d))" by (rule now_is_later [OF clk])
  show ?case
  proof
    fix received
    obtain rec f d2 where v: "read_streams qa (q_readable qa (cd_conn d1)) received False d1 = Some (rec, f, d2)" "later clock d1 d2"
      using read_streams_returns [OF fin] by blast
    have l: "later clock d d2" using later_trans n(2) v(2) by blast
    obtain r d3 where p: "pump qa os d2 = Some (r, d3)" "later clock d2 d3" "clock (m_world (cd_machine d2)) < clock (m_world (cd_machine d3))"
      by (rule pump_returns [OF fin clk later_sockets [OF l step(1)]])
    have "\<forall>received. \<exists>r d4. read_echo_loop qa os received d3 = Some (r, d4) \<and> cd_sockets d4 = cd_sockets d3" if "t \<le> cd_deadline d1"
      using that n l p step(1) by (intro step(2)) (auto simp: later_def)
    then show "\<exists>r d1. read_echo_loop qa os received d = Some (r, d1) \<and> cd_sockets d1 = cd_sockets d"
      by (subst read_echo_loop.simps) (use n(1) l v p(1,2) in \<open>cases r; auto simp: later_def\<close>)
  qed
qed

text \<open>A program that ends, and keeps a socket to receive from.\<close>

definition returns :: "('d \<Rightarrow> bool) \<Rightarrow> ('d, 'a) prog \<Rightarrow> bool" where
  "returns ok p \<longleftrightarrow> (\<forall>d. ok d \<longrightarrow> (\<exists>r d1. p d = Some (r, d1) \<and> ok d1))"

abbreviation has_socket :: "('q, 'w) ClientDriver \<Rightarrow> bool" where
  "has_socket d \<equiv> cd_sockets d \<noteq> []"

named_theorems returning

lemma returns_andthen [returning]: "returns ok p \<Longrightarrow> (\<And>x. returns ok (f x)) \<Longrightarrow> returns ok (andthen p f)"
  unfolding returns_def
proof (intro allI impI)
  fix d
  assume p: "\<forall>d. ok d \<longrightarrow> (\<exists>r d1. p d = Some (r, d1) \<and> ok d1)"
    and f: "\<And>x. \<forall>d. ok d \<longrightarrow> (\<exists>r d1. f x d = Some (r, d1) \<and> ok d1)" and d: "ok d"
  obtain r d1 where r: "p d = Some (r, d1)" "ok d1" using p d by blast
  show "\<exists>r d1. andthen p f d = Some (r, d1) \<and> ok d1" using r f by (cases r) (simp_all add: andthen_def)
qed

lemma returns_basic [returning]: "returns ok (give x)" "returns ok (fail e)"
  by (simp_all add: returns_def give_def fail_def)

lemma returns_query [returning]: "returns ok (os_query msg y)" "returns ok (socket_addr os socket)"
  by (cases y, simp_all add: os_query_def returns_basic) (cases "os_local_addr os socket", simp_all add: socket_addr_def os_query_def returns_basic)

lemma returns_os_call [returning]: "returns (\<lambda>_. True) (os_call msg g)"
  by (auto simp: returns_def os_call_def split: sum.split prod.split)

lemma returns_quiche_call [returning]: "returns has_socket (quiche_call msg entry h)"
  by (simp add: returns_def quiche_call_def split: sum.split prod.split)

lemma returns_session [returning]: "returns has_socket (session_of qa)"
  by (simp add: returns_def session_of_def split: option.split)

lemma update_nonempty: "AList.update k v xs \<noteq> []"
  by (cases xs) auto

lemma returns_add_socket [returning]: "returns has_socket (add_socket os socket)"
  unfolding add_socket_def by (intro returning) (simp add: returns_def give_def update_nonempty)

lemma returns_cond [returning]: "returns ok p \<Longrightarrow> returns ok p1 \<Longrightarrow> returns ok (\<lambda>d. (if P d then p else p1) d)"
  by (auto simp: returns_def)

lemma returns_on_machine [returning]: "returns (\<lambda>_. True) p \<Longrightarrow> returns has_socket (on_machine p)"
  unfolding returns_def on_machine_def by fastforce

lemma returnsD: "returns ok p \<Longrightarrow> ok d \<Longrightarrow> \<exists>r d1. p d = Some (r, d1) \<and> ok d1"
  by (simp add: returns_def)

lemma returns_with_driver [returning]:
  assumes "returns has_socket body"
  shows "returns (\<lambda>_. True) (with_driver os conn socket body)"
  unfolding returns_def
proof (intro allI impI)
  fix m
  obtain x m2 where n: "driver_new os conn socket m = (x, m2)" by fastforce
  show "\<exists>r m1. with_driver os conn socket body m = Some (r, m1) \<and> True"
  proof (cases x)
    case (Inr d)
    then have "has_socket d" using n by (auto simp: driver_new_def Let_def split: sum.splits prod.splits)
    from returnsD [OF assms this] obtain r d1 where "body d = Some (r, d1)" by blast
    then show ?thesis using n Inr by (simp add: with_driver_def)
  qed (use n in \<open>simp add: with_driver_def\<close>)
qed

lemma returns_loops:
  assumes "quiche_finite qa" and "clock_of os clock"
  shows "returns has_socket (send_pending qa os)" "returns has_socket (wait_until qa os predicate description)"
    "returns has_socket (wait_path_validated qa os a)" "returns has_socket (read_echo qa os)"
  using send_pending_returns [OF assms] wait_until_returns [OF assms] wait_path_validated_returns [OF assms] read_echo_loop_returns [OF assms]
  unfolding returns_def read_echo_def later_def by metis+

lemma returns_config [returning]: "returns ok (client_config qa path)"
  unfolding client_config_def Let_def by (cases "q_config_new qa") (auto intro!: returning)

lemma returns_opened [returning]: "returns has_socket body \<Longrightarrow> returns (\<lambda>_. True) (opened qa os server_addr config body)"
  unfolding opened_def bind_socket_def connect_def by (intro returning) (auto simp: returns_def give_def)

section \<open>Properties\<close>


text \<open>A machine whose clock is its world and moves on by a millisecond in every read, and a quiche that never completes anything.\<close>

definition slow_os :: "nat os" where
  "slow_os = sample_os\<lparr>os_now := (\<lambda>w. (w, w)), os_bind := (\<lambda>_ w. (Inr 0, w)), os_recv_from := (\<lambda>_ _ w. (Inl TimedOut, w + 10 ^ 6))\<rparr>"

definition stuck_quiche :: "nat quiche_api" where
  "stuck_quiche = sample_quiche\<lparr>q_is_established := (\<lambda>_. False), q_path_event_next := (\<lambda>q. (None, q)),
     q_stream_recv := (\<lambda>_ _ q. (Inl QDone, q))\<rparr>"


end
