(* ===== verification/QuicheApp.thy ===== *)
theory QuicheApp
  imports RawQuiche
begin

text \<open>
  The applications that run on the asynchronous integration of quiche (\<^verbatim>\<open>src/interop/quiche-driver/src/tokio_quiche_driver.rs\<close>).
  An application is a record whose
  callbacks the worker of tokio-quiche calls, in an order and with states of the connection that the worker decides; it keeps a
  log of its calls of quiche like the driver of \<^verbatim>\<open>RawQuiche\<close>. Lines for the standard output are part of its state.
\<close>

section \<open>Settings\<close>

record QuicSettings =
  qs_alpn :: "bytes list"
  qs_max_idle_timeout :: "nat option"
  qs_max_recv_udp_payload_size :: nat
  qs_max_send_udp_payload_size :: nat
  qs_initial_max_data :: u64
  qs_initial_max_stream_data_bidi_local :: u64
  qs_initial_max_stream_data_bidi_remote :: u64
  qs_initial_max_stream_data_uni :: u64
  qs_initial_max_streams_bidi :: u64
  qs_initial_max_streams_uni :: u64
  qs_disable_client_ip_validation :: bool
  qs_verify_peer :: bool
  qs_enable_early_data :: bool
  qs_disable_active_migration :: bool

definition base_settings :: "QuicSettings \<Rightarrow> QuicSettings" where
  "base_settings dflt = dflt\<lparr>qs_alpn := [RAW_ALPN], qs_max_idle_timeout := Some (2 * 10 ^ 9),
     qs_max_recv_udp_payload_size := MAX_DATAGRAM_SIZE, qs_max_send_udp_payload_size := MAX_DATAGRAM_SIZE,
     qs_initial_max_data := 10000000, qs_initial_max_stream_data_bidi_local := 1000000,
     qs_initial_max_stream_data_bidi_remote := 1000000, qs_initial_max_stream_data_uni := 1000000,
     qs_initial_max_streams_bidi := 100, qs_initial_max_streams_uni := 100, qs_disable_client_ip_validation := True\<rparr>"

text \<open>The hook that loads the CA certificate, over an opaque builder of BoringSSL.\<close>

definition create_custom_ssl_context_builder :: "'b option \<Rightarrow> (string \<Rightarrow> 'b \<Rightarrow> 'b option) \<Rightarrow> ('b \<Rightarrow> 'b) \<Rightarrow> string \<Rightarrow> 'b option" where
  "create_custom_ssl_context_builder builder_new set_ca_file set_verify_peer cert =
    (case builder_new of
       None \<Rightarrow> None
     | Some builder \<Rightarrow>
       (case set_ca_file cert builder of None \<Rightarrow> None | Some builder \<Rightarrow> Some (set_verify_peer builder)))"

text \<open>The loop of both applications over the data of a stream: until there is no more, or an error.\<close>

partial_function (option) recv_all :: "'q quiche_api \<Rightarrow> StreamId \<Rightarrow> bytes \<Rightarrow> bool \<Rightarrow> entry list \<Rightarrow> 'q
    \<Rightarrow> ((string + unit) \<times> bytes \<times> bool \<times> entry list \<times> 'q) option" where
  "recv_all qa stream_id received fin log q =
    (case q_stream_recv qa stream_id MAX_DATAGRAM_SIZE q of
       (Inr (data, f), q) \<Rightarrow> recv_all qa stream_id (received @ data) (fin \<or> f) (log @ [StreamRead stream_id data f]) q
     | (Inl QDone, q) \<Rightarrow> Some (Inr (), received, fin, log, q)
     | (Inl (QError e), q) \<Rightarrow> Some (Inl e, received, fin, log, q))"

text \<open>The worker of tokio-quiche owns an application and calls it back; \<open>run_calls\<close> is a sequence of such calls.\<close>

fun run_calls :: "('c \<Rightarrow> 'a \<Rightarrow> 'a option) \<Rightarrow> 'c list \<Rightarrow> 'a \<Rightarrow> 'a option" where
  "run_calls f [] app = Some app"
| "run_calls f (c # cs) app = (case f c app of None \<Rightarrow> None | Some app \<Rightarrow> run_calls f cs app)"

section \<open>The client\<close>

text \<open>\<open>ea_outcome\<close> tells whether the sender of the one-shot channel is there; \<open>ea_results\<close> is what was sent.\<close>

record EchoClientApp =
  ea_payload :: bytes
  ea_sent :: bool
  ea_received :: bytes
  ea_fin :: bool
  ea_done :: bool
  ea_outcome :: bool
  ea_results :: "(string + bytes) list"
  ea_log :: "entry list"

definition echo_client_new :: "bytes \<Rightarrow> EchoClientApp" where
  "echo_client_new payload = \<lparr>ea_payload = payload, ea_sent = False, ea_received = [], ea_fin = False, ea_done = False,
     ea_outcome = True, ea_results = [], ea_log = []\<rparr>"

definition send_request :: "'q quiche_api \<Rightarrow> EchoClientApp \<Rightarrow> 'q \<Rightarrow> (string + unit) \<times> EchoClientApp \<times> 'q" where
  "send_request qa app q =
    (if ea_sent app \<or> \<not> q_is_established qa q then (Inr (), app, q)
     else case q_stream_send qa 0 (ea_payload app) True q of
       (Inl e, q) \<Rightarrow> (Inl e, app, q)
     | (Inr n, q) \<Rightarrow> (Inr (), app\<lparr>ea_sent := True, ea_log := ea_log app @ [StreamSent 0 (ea_payload app) True]\<rparr>, q))"

definition finish :: "string + bytes \<Rightarrow> EchoClientApp \<Rightarrow> EchoClientApp" where
  "finish result app =
    (if ea_outcome app then app\<lparr>ea_outcome := False, ea_results := ea_results app @ [result]\<rparr> else app)"

definition client_on_conn_established :: "'q quiche_api \<Rightarrow> EchoClientApp \<Rightarrow> 'q \<Rightarrow> (string + unit) \<times> EchoClientApp \<times> 'q" where
  "client_on_conn_established = send_request"

definition client_should_act :: "EchoClientApp \<Rightarrow> bool" where
  "client_should_act app = (\<not> ea_done app)"

fun client_read_streams :: "'q quiche_api \<Rightarrow> StreamId list \<Rightarrow> EchoClientApp \<Rightarrow> 'q \<Rightarrow> ((string + unit) \<times> EchoClientApp \<times> 'q) option" where
  "client_read_streams qa [] app q = Some (Inr (), app, q)"
| "client_read_streams qa (stream_id # ids) app q =
    (case recv_all qa stream_id (ea_received app) (ea_fin app) (ea_log app) q of
       None \<Rightarrow> None
     | Some (r, received, fin, log, q) \<Rightarrow>
       let app = app\<lparr>ea_received := received, ea_fin := fin, ea_log := log\<rparr>
       in case r of Inl e \<Rightarrow> Some (Inl e, app, q) | Inr _ \<Rightarrow> client_read_streams qa ids app q)"

definition client_process_reads :: "'q quiche_api \<Rightarrow> EchoClientApp \<Rightarrow> 'q \<Rightarrow> ((string + unit) \<times> EchoClientApp \<times> 'q) option" where
  "client_process_reads qa app q =
    (case client_read_streams qa (q_readable qa q) app q of
       None \<Rightarrow> None
     | Some (Inl e, app, q) \<Rightarrow> Some (Inl e, app, q)
     | Some (Inr _, app, q) \<Rightarrow>
       if ea_fin app \<and> \<not> ea_done app then
         let q = snd (q_close qa False 0 [] q);
             received = ea_received app
         in Some (Inr (), finish (Inr received) (app\<lparr>ea_done := True, ea_received := [], ea_log := ea_log app @ [Closed]\<rparr>), q)
       else Some (Inr (), app, q))"

definition client_process_writes :: "'q quiche_api \<Rightarrow> EchoClientApp \<Rightarrow> 'q \<Rightarrow> (string + unit) \<times> EchoClientApp \<times> 'q" where
  "client_process_writes = send_request"

definition client_on_conn_close :: "string + unit \<Rightarrow> EchoClientApp \<Rightarrow> EchoClientApp" where
  "client_on_conn_close result app =
    (if ea_fin app then app
     else finish (Inl (case result of
         Inr _ \<Rightarrow> ''the connection closed before the echo arrived''
       | Inl e \<Rightarrow> ''the connection failed: '' @ e)) app)"

text \<open>The calls a worker makes, each with the state of the connection at that time.\<close>

datatype 'q client_cb = CallEstablished 'q | CallReads 'q | CallWrites 'q | CallClose "string + unit"

fun client_call :: "'q quiche_api \<Rightarrow> 'q client_cb \<Rightarrow> EchoClientApp \<Rightarrow> EchoClientApp option" where
  "client_call qa (CallEstablished q) app = Some (fst (snd (client_on_conn_established qa app q)))"
| "client_call qa (CallReads q) app = map_option (\<lambda>(r, app, q). app) (client_process_reads qa app q)"
| "client_call qa (CallWrites q) app = Some (fst (snd (client_process_writes qa app q)))"
| "client_call qa (CallClose result) app = Some (client_on_conn_close result app)"

abbreviation client_calls :: "'q quiche_api \<Rightarrow> 'q client_cb list \<Rightarrow> EchoClientApp \<Rightarrow> EchoClientApp option" where
  "client_calls qa \<equiv> run_calls (client_call qa)"

text \<open>What the runtime answers: binding and connecting the socket, wrapping it, starting the worker; then the calls the worker makes
  until the time is up, and whether it has dropped the application by then.\<close>

record 'q client_env =
  ce_bind :: "string + unit"
  ce_connect :: "SocketAddr \<Rightarrow> string + unit"
  ce_from_udp :: "string + unit"
  ce_worker :: "QuicSettings \<Rightarrow> string \<Rightarrow> string + 'q client_cb list"
  ce_stopped :: bool

definition client_roundtrip :: "'q quiche_api \<Rightarrow> QuicSettings \<Rightarrow> 'q client_env \<Rightarrow> SocketAddr \<Rightarrow> string \<Rightarrow> bytes
    \<Rightarrow> (string + bytes) option" where
  "client_roundtrip qa dflt env server_addr ca_cert_path payload =
    (let settings = (base_settings dflt)\<lparr>qs_verify_peer := True\<rparr> in
     case ce_bind env of
       Inl e \<Rightarrow> Some (Inl (''failed to bind: '' @ e))
     | Inr _ \<Rightarrow>
       (case ce_connect env server_addr of
          Inl e \<Rightarrow> Some (Inl (''failed to connect the socket: '' @ e))
        | Inr _ \<Rightarrow>
          (case ce_from_udp env of
             Inl e \<Rightarrow> Some (Inl (''failed to use socket: '' @ e))
           | Inr _ \<Rightarrow>
             (case ce_worker env settings ca_cert_path of
                Inl e \<Rightarrow> Some (Inl (''failed to connect: '' @ e))
              | Inr calls \<Rightarrow>
                (case client_calls qa calls (echo_client_new payload) of
                   None \<Rightarrow> None
                 | Some app \<Rightarrow>
                   Some (case ea_results app of
                      r # rs \<Rightarrow> r
                    | [] \<Rightarrow> if ce_stopped env then Inl ''the connection worker stopped without a result''
                            else Inl ''timed out while waiting for the echo''))))))"

section \<open>The server\<close>

record ServerOptions =
  so_early_data :: bool
  so_migration :: bool

record EchoServerApp =
  es_options :: ServerOptions
  es_received :: bytes
  es_early_data_received :: bool
  es_extra_scid_issued :: bool
  es_reported :: bool
  es_close_reported :: bool
  es_output :: "string list"
  es_log :: "entry list"

definition echo_server_new :: "ServerOptions \<Rightarrow> EchoServerApp" where
  "echo_server_new options = \<lparr>es_options = options, es_received = [], es_early_data_received = False, es_extra_scid_issued = False,
     es_reported = False, es_close_reported = False, es_output = [], es_log = []\<rparr>"

text \<open>\<open>random\<close> is the answer of the random source for a number of bytes, for the connection ID and for the token.\<close>

definition issue_extra_scid :: "'q quiche_api \<Rightarrow> (nat \<Rightarrow> string + bytes) \<Rightarrow> EchoServerApp \<Rightarrow> 'q \<Rightarrow> (string + unit) \<times> EchoServerApp \<times> 'q" where
  "issue_extra_scid qa random app q =
    (if \<not> so_migration (es_options app) \<or> es_extra_scid_issued app \<or> \<not> q_is_established qa q then (Inr (), app, q)
     else case random MAX_CONN_ID_LEN of
       Inl e \<Rightarrow> (Inl (''failed to generate scid: '' @ e), app, q)
     | Inr scid \<Rightarrow>
       (case random 16 of
          Inl e \<Rightarrow> (Inl (''failed to generate reset token: '' @ e), app, q)
        | Inr reset_token \<Rightarrow>
          (case q_new_scid qa scid (word_of_nat (from_be reset_token)) False q of
             (Inl e, q) \<Rightarrow> (Inl e, app, q)
           | (Inr _, q) \<Rightarrow> (Inr (), app\<lparr>es_extra_scid_issued := True, es_log := es_log app @ [ScidIssued scid]\<rparr>, q))))"

definition write_report :: "string \<Rightarrow> EchoServerApp \<Rightarrow> EchoServerApp" where
  "write_report line app = app\<lparr>es_output := es_output app @ [line]\<rparr>"

definition show_bool :: "bool \<Rightarrow> string" where
  "show_bool b = (if b then ''true'' else ''false'')"

definition report :: "EchoServerApp \<Rightarrow> EchoServerApp" where
  "report app =
    (if es_reported app then app
     else (write_report (show_nat (length (es_received app)) @ '' bytes (early data: '' @ show_bool (es_early_data_received app) @ '')'')
       (app\<lparr>es_reported := True\<rparr>))\<lparr>es_received := []\<rparr>)"

definition report_peer_close :: "'q quiche_api \<Rightarrow> 'q \<Rightarrow> EchoServerApp \<Rightarrow> EchoServerApp" where
  "report_peer_close qa q app =
    (if es_close_reported app \<or> \<not> es_reported app then app
     else if q_is_draining qa q then write_report ''peer closed'' (app\<lparr>es_close_reported := True\<rparr>)
     else if q_is_closed qa q \<or> q_is_timed_out qa q
     then write_report ''connection ended without a peer close'' (app\<lparr>es_close_reported := True\<rparr>)
     else app)"

definition server_should_act :: "EchoServerApp \<Rightarrow> bool" where
  "server_should_act app = True"

definition server_on_conn_established :: "EchoServerApp \<Rightarrow> 'q \<Rightarrow> (string + unit) \<times> EchoServerApp \<times> 'q" where
  "server_on_conn_established app q = (Inr (), app, q)"

fun server_read_streams :: "'q quiche_api \<Rightarrow> StreamId list \<Rightarrow> EchoServerApp \<Rightarrow> 'q \<Rightarrow> ((string + unit) \<times> EchoServerApp \<times> 'q) option" where
  "server_read_streams qa [] app q = Some (Inr (), app, q)"
| "server_read_streams qa (stream_id # ids) app q =
    (case recv_all qa stream_id [] False (es_log app) q of
       None \<Rightarrow> None
     | Some (r, data, fin, log, q) \<Rightarrow>
       let app = app\<lparr>es_log := log\<rparr>
       in case r of
            Inl e \<Rightarrow> Some (Inl e, app, q)
          | Inr _ \<Rightarrow>
            if fin then
              let app = (if q_is_in_early_data qa q then app\<lparr>es_early_data_received := True\<rparr> else app);
                  app = app\<lparr>es_received := es_received app @ data\<rparr>
              in case q_stream_send qa stream_id data True q of
                   (Inl e, q) \<Rightarrow> Some (Inl e, app, q)
                 | (Inr n, q) \<Rightarrow>
                   server_read_streams qa ids (report (app\<lparr>es_log := es_log app @ [StreamSent stream_id data True]\<rparr>)) q
            else server_read_streams qa ids app q)"

definition server_process_reads :: "'q quiche_api \<Rightarrow> EchoServerApp \<Rightarrow> 'q \<Rightarrow> ((string + unit) \<times> EchoServerApp \<times> 'q) option" where
  "server_process_reads qa app q =
    (case server_read_streams qa (q_readable qa q) app q of
       None \<Rightarrow> None
     | Some (Inl e, app, q) \<Rightarrow> Some (Inl e, app, q)
     | Some (Inr _, app, q) \<Rightarrow> Some (Inr (), report_peer_close qa q app, q))"

definition server_process_writes :: "'q quiche_api \<Rightarrow> (nat \<Rightarrow> string + bytes) \<Rightarrow> EchoServerApp \<Rightarrow> 'q \<Rightarrow> (string + unit) \<times> EchoServerApp \<times> 'q" where
  "server_process_writes qa random app q = issue_extra_scid qa random (report_peer_close qa q app) q"

datatype 'q server_cb = SrvEstablished 'q | SrvReads 'q | SrvWrites "nat \<Rightarrow> string + bytes" 'q

fun server_call :: "'q quiche_api \<Rightarrow> 'q server_cb \<Rightarrow> EchoServerApp \<Rightarrow> EchoServerApp option" where
  "server_call qa (SrvEstablished q) app = Some (fst (snd (server_on_conn_established app q)))"
| "server_call qa (SrvReads q) app = map_option (\<lambda>(r, app, q). app) (server_process_reads qa app q)"
| "server_call qa (SrvWrites random q) app = Some (fst (snd (server_process_writes qa random app q)))"

abbreviation server_calls :: "'q quiche_api \<Rightarrow> 'q server_cb list \<Rightarrow> EchoServerApp \<Rightarrow> EchoServerApp option" where
  "server_calls qa \<equiv> run_calls (server_call qa)"

text \<open>The settings of the server, and its loop over the connections that arrive at the listener: the applications it starts, and its
  result when the listener has stopped, which need not happen.\<close>

definition server_settings :: "QuicSettings \<Rightarrow> ServerOptions \<Rightarrow> QuicSettings" where
  "server_settings dflt options =
    (let settings = base_settings dflt;
         settings = (if so_early_data options then settings\<lparr>qs_enable_early_data := True\<rparr> else settings)
     in settings\<lparr>qs_disable_active_migration := \<not> so_migration options\<rparr>)"

definition server_echo :: "QuicSettings \<Rightarrow> (nat \<Rightarrow> QuicSettings \<Rightarrow> string \<Rightarrow> string \<Rightarrow> string + (string + unit) list \<times> bool) \<Rightarrow> nat
    \<Rightarrow> string \<Rightarrow> string \<Rightarrow> ServerOptions \<Rightarrow> (string + unit) option \<times> EchoServerApp list" where
  "server_echo dflt listen listener cert_path key_path options =
    (case listen listener (server_settings dflt options) cert_path key_path of
       Inl e \<Rightarrow> (Some (Inl (''failed to listen: '' @ e)), [])
     | Inr (initials, stopped) \<Rightarrow>
       (if stopped then Some (Inl ''the listener stopped'') else None,
        concat (map (\<lambda>initial. case initial of Inl e \<Rightarrow> [] | Inr _ \<Rightarrow> [echo_server_new options]) initials)))"

section \<open>Lemmas\<close>

text \<open>The contract of an application with its worker: it starts in its invariant and every call keeps it, so the order of the calls does
  not matter.\<close>

locale application =
  fixes callback :: "'c \<Rightarrow> 'a \<Rightarrow> 'a option"
    and inv :: "'a \<Rightarrow> bool"
    and start :: 'a
  assumes start_inv: "inv start"
    and callback_inv: "inv app \<Longrightarrow> callback c app = Some app1 \<Longrightarrow> inv app1"
begin

lemma run_keeps: "inv app \<Longrightarrow> run_calls callback cs app = Some app1 \<Longrightarrow> inv app1"
  by (induction cs arbitrary: app) (auto split: option.splits intro: callback_inv)

lemma run_inv: "run_calls callback cs start = Some app1 \<Longrightarrow> inv app1"
  by (rule run_keeps [OF start_inv])

end

lemmas recv_induct = recv_all.raw_induct [rotated, consumes 1, case_names step]

definition reads_of :: "StreamId \<Rightarrow> entry list \<Rightarrow> bool" where
  "reads_of sid l \<longleftrightarrow> list_all (\<lambda>e. \<exists>data f. e = StreamRead sid data f) l"

lemma recv_all_log:
  "recv_all qa sid received fin log q = Some y \<Longrightarrow>
    \<exists>l. reads_of sid l \<and> fst (snd y) = received @ concat (map read_data l) \<and> fst (snd (snd y)) = (fin \<or> list_ex read_fin l)
      \<and> fst (snd (snd (snd y))) = log @ l"
proof (induction rule: recv_induct)
  case (step loop qa sid received fin log q y)
  obtain r q1 where r: "q_stream_recv qa sid MAX_DATAGRAM_SIZE q = (r, q1)" by fastforce
  show ?case
  proof (cases r)
    case (Inl e)
    then show ?thesis using step(2) r
      by (intro exI [of _ "[]"]) (auto simp: reads_of_def split: quiche_error.splits)
  next
    case (Inr x)
    obtain data f where x: "x = (data, f)" by (cases x)
    have "loop qa sid (received @ data) (fin \<or> f) (log @ [StreamRead sid data f]) q1 = Some y" using step(2) r Inr x by simp
    from step(1) [OF this] obtain l where "reads_of sid l" "fst (snd y) = (received @ data) @ concat (map read_data l)"
      "fst (snd (snd y)) = ((fin \<or> f) \<or> list_ex read_fin l)" "fst (snd (snd (snd y))) = (log @ [StreamRead sid data f]) @ l" by blast
    then show ?thesis by (intro exI [of _ "StreamRead sid data f # l"]) (auto simp: reads_of_def)
  qed
qed

fun is_sent :: "entry \<Rightarrow> bool" where
  "is_sent (StreamSent _ _ _) = True"
| "is_sent _ = False"

lemma reads_plain: "reads_of sid l \<Longrightarrow> \<not> list_ex is_sent l \<and> Closed \<notin> set l \<and> filter is_sent l = []"
  by (induction l) (auto simp: reads_of_def)

text \<open>The invariant of the client: what it has sent, what it has gathered and what it has answered.\<close>

definition answered :: "EchoClientApp \<Rightarrow> bool" where
  "answered app \<longleftrightarrow> (case ea_results app of
     [] \<Rightarrow> ea_outcome app \<and> \<not> ea_done app
   | r # rs \<Rightarrow> \<not> ea_outcome app \<and> rs = [] \<and> (\<forall>data. r = Inr data \<longrightarrow>
       (\<exists>l1 l2. ea_log app = l1 @ Closed # l2 \<and> Closed \<notin> set l1 \<and> data = concat (map read_data l1) \<and> list_ex read_fin l1)))"

definition client_inv :: "bytes \<Rightarrow> EchoClientApp \<Rightarrow> bool" where
  "client_inv payload app \<longleftrightarrow> ea_payload app = payload
    \<and> filter is_sent (ea_log app) = (if ea_sent app then [StreamSent 0 payload True] else [])
    \<and> ea_fin app = list_ex read_fin (ea_log app)
    \<and> (\<not> ea_done app \<longrightarrow> ea_received app = concat (map read_data (ea_log app)) \<and> Closed \<notin> set (ea_log app))
    \<and> answered app"

lemma client_inv_new: "client_inv payload (echo_client_new payload)"
  by (simp add: client_inv_def answered_def echo_client_new_def)

lemma answered_log_simps:
  "answered app \<Longrightarrow> answered (app\<lparr>ea_log := ea_log app @ l\<rparr>)"
  "answered app \<Longrightarrow> answered (app\<lparr>ea_sent := b, ea_log := ea_log app @ l\<rparr>)"
  "answered app \<Longrightarrow> answered (app\<lparr>ea_received := bs, ea_fin := f, ea_log := ea_log app @ l\<rparr>)"
  by (fastforce simp: answered_def split: list.splits)+

lemma send_request_inv: "client_inv payload app \<Longrightarrow> client_inv payload (fst (snd (send_request qa app q)))"
  by (auto simp: send_request_def client_inv_def answered_log_simps split: prod.split sum.split)

lemma client_read_streams_inv:
  "client_inv payload app \<Longrightarrow> client_read_streams qa ids app q = Some (r, app1, q1) \<Longrightarrow> client_inv payload app1"
proof (induction ids arbitrary: app q)
  case (Cons sid ids)
  obtain r2 bs f log q2 where v: "recv_all qa sid (ea_received app) (ea_fin app) (ea_log app) q = Some (r2, bs, f, log, q2)"
    using Cons.prems(2) by (auto split: option.splits)
  obtain l where l: "reads_of sid l" "bs = ea_received app @ concat (map read_data l)" "f = (ea_fin app \<or> list_ex read_fin l)"
    "log = ea_log app @ l" using recv_all_log [OF v] by auto
  let ?app = "app\<lparr>ea_received := bs, ea_fin := f, ea_log := log\<rparr>"
  have i: "client_inv payload ?app"
    using Cons.prems(1) l reads_plain [OF l(1)] by (auto simp: client_inv_def answered_log_simps)
  then show ?case using Cons.prems(2) Cons.IH [OF i] v by (cases r2) (auto simp: Let_def)
qed simp

lemma finish_inv:
  "client_inv payload app \<Longrightarrow> \<not> ea_done app \<Longrightarrow> ea_fin app \<Longrightarrow>
    client_inv payload (finish (Inr (ea_received app)) (app\<lparr>ea_done := True, ea_received := [], ea_log := ea_log app @ [Closed]\<rparr>))"
  by (fastforce simp: client_inv_def finish_def answered_def split: list.splits)

lemma client_call_inv: "client_inv payload app \<Longrightarrow> client_call qa c app = Some app1 \<Longrightarrow> client_inv payload app1"
proof (cases c)
  case (CallReads q)
  assume i: "client_inv payload app" and c: "client_call qa c app = Some app1"
  then obtain r app2 q2 where s: "client_read_streams qa (q_readable qa q) app q = Some (r, app2, q2)"
    by (auto simp: CallReads client_process_reads_def split: option.splits)
  have i2: "client_inv payload app2" by (rule client_read_streams_inv [OF i s])
  then show ?thesis using c s finish_inv [OF i2]
    by (cases r) (auto simp: CallReads client_process_reads_def Let_def split: if_splits)
next
  case (CallClose result)
  assume "client_inv payload app" "client_call qa c app = Some app1"
  then show ?thesis
    by (auto simp: CallClose client_on_conn_close_def finish_def client_inv_def answered_def split: list.splits)
qed (auto simp: client_on_conn_established_def client_process_writes_def send_request_inv)

interpretation echo_client: application "client_call qa" "client_inv payload" "echo_client_new payload" for qa :: "'q quiche_api" and payload
  by unfold_locales (rule client_inv_new, rule client_call_inv)

text \<open>The invariant of the server: an echo repeats what was read from its stream just before, up to its end; the output follows the
  flags; a connection ID is issued at most once, and only for a peer that may migrate.\<close>

definition echoes_reads :: "entry list \<Rightarrow> bool" where
  "echoes_reads log \<longleftrightarrow> (\<forall>l1 sid data f l2. log = l1 @ StreamSent sid data f # l2 \<longrightarrow>
     f \<and> (\<exists>l0 rs. l1 = l0 @ rs \<and> reads_of sid rs \<and> list_ex read_fin rs \<and> data = concat (map read_data rs)))"

fun is_scid :: "entry \<Rightarrow> bool" where
  "is_scid (ScidIssued _) = True"
| "is_scid _ = False"

definition echo_line :: "nat \<Rightarrow> bool \<Rightarrow> string" where
  "echo_line n early = show_nat n @ '' bytes (early data: '' @ show_bool early @ '')''"

definition close_lines :: "string set" where
  "close_lines = {''peer closed'', ''connection ended without a peer close''}"

definition server_inv :: "ServerOptions \<Rightarrow> EchoServerApp \<Rightarrow> bool" where
  "server_inv options app \<longleftrightarrow> es_options app = options \<and> echoes_reads (es_log app)
    \<and> es_reported app = list_ex is_sent (es_log app)
    \<and> (es_close_reported app \<longrightarrow> es_reported app)
    \<and> (if \<not> es_reported app then es_output app = []
       else if \<not> es_close_reported app then (\<exists>n e. es_output app = [echo_line n e])
       else (\<exists>n e. \<exists>c \<in> close_lines. es_output app = [echo_line n e, c]))
    \<and> length (filter is_scid (es_log app)) = (if es_extra_scid_issued app then 1 else 0)
    \<and> (es_extra_scid_issued app \<longrightarrow> so_migration (es_options app))"

lemma echoes_reads_append:
  assumes "echoes_reads log" "\<not> list_ex is_sent l"
  shows "echoes_reads (log @ l)"
  unfolding echoes_reads_def
proof (intro allI impI)
  fix l1 sid data f l2 assume e: "log @ l = l1 @ StreamSent sid data f # l2"
  have "StreamSent sid data f \<notin> set l" using assms(2) by (auto simp: list_ex_iff)
  then obtain l3 where "log = l1 @ StreamSent sid data f # l3"
    using e by (auto simp: append_eq_append_conv2 Cons_eq_append_conv append_eq_Cons_conv)
  then show "f \<and> (\<exists>l0 rs. l1 = l0 @ rs \<and> reads_of sid rs \<and> list_ex read_fin rs \<and> data = concat (map read_data rs))"
    using assms(1) unfolding echoes_reads_def by blast
qed

lemma echoes_reads_echo:
  assumes "echoes_reads log" "reads_of sid rs" "list_ex read_fin rs"
  shows "echoes_reads (log @ rs @ [StreamSent sid (concat (map read_data rs)) True])"
  unfolding echoes_reads_def
proof (intro allI impI)
  fix l1 sid1 data f l2 assume e: "log @ rs @ [StreamSent sid (concat (map read_data rs)) True] = l1 @ StreamSent sid1 data f # l2"
  have r: "echoes_reads (log @ rs)" using assms(1) reads_plain [OF assms(2)] by (intro echoes_reads_append) auto
  show "f \<and> (\<exists>l0 rs. l1 = l0 @ rs \<and> reads_of sid1 rs \<and> list_ex read_fin rs \<and> data = concat (map read_data rs))"
  proof (cases l2 rule: rev_cases)
    case Nil
    then show ?thesis using e assms(2,3) by (auto simp flip: append_assoc)
  next
    case (snoc l3 x)
    then have "log @ rs = l1 @ StreamSent sid1 data f # l3" using e by (simp flip: append_assoc append_Cons)
    then show ?thesis using r unfolding echoes_reads_def by blast
  qed
qed

lemma server_inv_new: "server_inv options (echo_server_new options)"
  by (simp add: server_inv_def echo_server_new_def echoes_reads_def)

lemma reads_no_scid: "reads_of sid l \<Longrightarrow> filter is_scid l = []"
  by (induction l) (auto simp: reads_of_def)

lemma server_inv_fields [simp]:
  "server_inv options (app\<lparr>es_early_data_received := b\<rparr>) = server_inv options app"
  "server_inv options (app\<lparr>es_received := bs\<rparr>) = server_inv options app"
  by (simp_all add: server_inv_def)

lemma server_inv_reads: "server_inv options app \<Longrightarrow> reads_of sid l \<Longrightarrow> server_inv options (app\<lparr>es_log := es_log app @ l\<rparr>)"
  using reads_plain [of sid l] reads_no_scid [of sid l] by (auto simp: server_inv_def echoes_reads_append)

lemma server_inv_echo:
  assumes "server_inv options app" "reads_of sid l" "list_ex read_fin l" "es_log app1 = es_log app @ l"
    and "app1 = app\<lparr>es_early_data_received := b, es_received := bs, es_log := es_log app1\<rparr>"
  shows "server_inv options (report (app1\<lparr>es_log := es_log app1 @ [StreamSent sid (concat (map read_data l)) True]\<rparr>))"
proof -
  have e: "echoes_reads (es_log app1 @ [StreamSent sid (concat (map read_data l)) True])"
    using echoes_reads_echo [OF _ assms(2,3), of "es_log app"] assms(1) by (simp add: assms(4) server_inv_def)
  have f: "filter is_scid (es_log app1) = filter is_scid (es_log app)" using reads_no_scid [OF assms(2)] by (simp add: assms(4))
  have flags: "es_reported app1 = es_reported app" "es_close_reported app1 = es_close_reported app" "es_output app1 = es_output app"
    "es_extra_scid_issued app1 = es_extra_scid_issued app" "es_options app1 = es_options app"
    by (subst assms(5), simp)+
  show ?thesis
    using e f flags assms(1) unfolding server_inv_def
    by (auto simp: report_def write_report_def echo_line_def)
qed

lemma server_read_streams_inv:
  "server_inv options app \<Longrightarrow> server_read_streams qa ids app q = Some (r, app1, q1) \<Longrightarrow> server_inv options app1"
proof (induction ids arbitrary: app q)
  case (Cons sid ids)
  obtain r2 data f log q2 where v: "recv_all qa sid [] False (es_log app) q = Some (r2, data, f, log, q2)"
    using Cons.prems(2) by (auto split: option.splits)
  obtain l where l: "reads_of sid l" "data = concat (map read_data l)" "f = list_ex read_fin l" "log = es_log app @ l"
    using recv_all_log [OF v] by auto
  let ?app = "app\<lparr>es_log := log\<rparr>"
  have i: "server_inv options ?app" using server_inv_reads [OF Cons.prems(1) l(1)] l(4) by simp
  show ?case
  proof (cases "r2 = Inr () \<and> f")
    case False
    then show ?thesis using Cons.prems(2) Cons.IH [OF i] i v by (cases r2) (auto simp: Let_def)
  next
    case True
    define app2 where "app2 = (if q_is_in_early_data qa q2 then ?app\<lparr>es_early_data_received := True\<rparr> else ?app)"
    let ?app3 = "app2\<lparr>es_received := es_received app2 @ data\<rparr>"
    obtain x q3 where x: "q_stream_send qa sid data True q2 = (x, q3)" by fastforce
    have "?app3 = app\<lparr>es_early_data_received := es_early_data_received ?app3, es_received := es_received ?app3, es_log := es_log ?app3\<rparr>"
      "es_log ?app3 = es_log app @ l" by (simp_all add: app2_def l(4))
    then have e: "server_inv options (report (?app3\<lparr>es_log := es_log ?app3 @ [StreamSent sid data True]\<rparr>))"
      using server_inv_echo [OF Cons.prems(1) l(1), of ?app3] True l by simp
    have i3: "server_inv options ?app3" using i by (simp add: app2_def)
    show ?thesis
    proof (cases x)
      case (Inl err)
      then show ?thesis using Cons.prems(2) True v x i3 by (auto simp: Let_def app2_def)
    next
      case (Inr n)
      then show ?thesis using Cons.prems(2) True v x Cons.IH [OF e] by (simp add: Let_def app2_def)
    qed
  qed
qed simp

lemma report_peer_close_inv: "server_inv options app \<Longrightarrow> server_inv options (report_peer_close qa q app)"
  by (auto simp: report_peer_close_def write_report_def server_inv_def close_lines_def)

lemma server_inv_scid:
  "server_inv options app \<Longrightarrow> \<not> es_extra_scid_issued app \<Longrightarrow> so_migration (es_options app) \<Longrightarrow>
    server_inv options (app\<lparr>es_extra_scid_issued := True, es_log := es_log app @ [ScidIssued scid]\<rparr>)"
  by (auto simp: server_inv_def echoes_reads_append)

lemma issue_extra_scid_inv: "server_inv options app \<Longrightarrow> server_inv options (fst (snd (issue_extra_scid qa random app q)))"
  by (simp add: issue_extra_scid_def server_inv_scid split: sum.split prod.split)

lemma server_call_inv: "server_inv options app \<Longrightarrow> server_call qa c app = Some app1 \<Longrightarrow> server_inv options app1"
proof (cases c)
  case (SrvReads q)
  assume i: "server_inv options app" and c: "server_call qa c app = Some app1"
  then obtain r app2 q2 where s: "server_read_streams qa (q_readable qa q) app q = Some (r, app2, q2)"
    by (auto simp: SrvReads server_process_reads_def split: option.splits)
  then show ?thesis using c server_read_streams_inv [OF i s] report_peer_close_inv
    by (cases r) (auto simp: SrvReads server_process_reads_def)
qed (auto simp: server_on_conn_established_def server_process_writes_def issue_extra_scid_inv report_peer_close_inv)

interpretation echo_server: application "server_call qa" "server_inv options" "echo_server_new options" for qa :: "'q quiche_api" and options
  by unfold_locales (rule server_inv_new, rule server_call_inv)

section \<open>Properties\<close>

text \<open>C33. Whatever calls the worker makes, in any order and on any states of the connection, the client application sends its payload at most once
  and gives at most one result; when the result is an echo, it is exactly the data that was read, in
  order, when the end of the stream had arrived and before the connection was closed.\<close>

theorem echo_client_once:
  assumes "client_calls qa calls (echo_client_new payload) = Some app"
  shows "length (ea_results app) \<le> 1
    \<and> filter is_sent (ea_log app) \<in> {[], [StreamSent 0 payload True]}
    \<and> (\<forall>data. ea_results app = [Inr data] \<longrightarrow>
        (\<exists>l1 l2. ea_log app = l1 @ Closed # l2 \<and> Closed \<notin> set l1 \<and> data = concat (map read_data l1) \<and> list_ex read_fin l1))"
proof -
  have "client_inv payload app" by (rule echo_client.run_inv [OF assms])
  then show ?thesis by (auto simp: client_inv_def answered_def split: list.splits)
qed

lemma sample_recv: "recv_all sample_quiche 0 received fin log 0 = Some (Inr (), received @ [5], True, log @ [StreamRead 0 [5] True], 1)"
  by (subst recv_all.simps, subst recv_all.simps) (simp add: sample_quiche_def)

theorem echo_client_once_witness:
  "\<exists>app. client_calls sample_quiche [CallEstablished 0, CallWrites 0, CallReads 0, CallClose (Inr ())] (echo_client_new [5]) = Some app
    \<and> ea_results app = [Inr [5]] \<and> filter is_sent (ea_log app) \<in> {[], [StreamSent 0 [5] True]}"
proof -
  have f: "q_readable sample_quiche 0 = [0]" "q_is_established sample_quiche 0" "q_stream_send sample_quiche 0 [5] True 0 = (Inr 1, 0)"
    by (simp_all add: sample_quiche_def)
  obtain app where a: "client_calls sample_quiche [CallEstablished 0, CallWrites 0, CallReads 0, CallClose (Inr ())] (echo_client_new [5]) = Some app"
    and r: "ea_results app = [Inr [5]]"
    by (simp add: f client_on_conn_established_def client_process_writes_def send_request_def client_process_reads_def echo_client_new_def
        sample_recv client_on_conn_close_def finish_def Let_def)
  show ?thesis using echo_client_once [OF a] a r by blast
qed



text \<open>What it echoes is what it has read in one call: when the data of a stream comes in two calls, the part of the first is read and lost.
  Here a stream delivers one byte, and in a later call another one with its end.\<close>

definition two_part_quiche :: "nat quiche_api" where
  "two_part_quiche = sample_quiche\<lparr>
     q_stream_recv := (\<lambda>_ _ q. if q = 0 then (Inr ([1], False), 1) else if q = 2 then (Inr ([2], True), 3) else (Inl QDone, q))\<rparr>"

lemma echo_server_loses_data:
  "\<exists>app. server_calls two_part_quiche [SrvReads 0, SrvReads 2] (echo_server_new options) = Some app
    \<and> concat (map read_data (es_log app)) = [1, 2] \<and> filter is_sent (es_log app) = [StreamSent 0 [2] True]"
proof -
  have r: "recv_all two_part_quiche 0 received fin log 0 = Some (Inr (), received @ [1], fin, log @ [StreamRead 0 [1] False], 1)"
    "recv_all two_part_quiche 0 received fin log 2 = Some (Inr (), received @ [2], True, log @ [StreamRead 0 [2] True], 3)"
    for received fin log
    by (subst recv_all.simps, subst recv_all.simps, simp add: two_part_quiche_def)+
  have f: "q_readable two_part_quiche q = [0]" "q_stream_send two_part_quiche 0 data True q = (Inr (length data), q)" for q data
    by (simp_all add: two_part_quiche_def sample_quiche_def)
  show ?thesis
    by (simp add: r f server_process_reads_def echo_server_new_def report_def write_report_def report_peer_close_def Let_def)
qed

end
