(* ===== verification/QuicheDriver.thy ===== *)
theory QuicheDriver
  imports QuicheApp RawQuicheEnds
begin

text \<open>
  The program that runs quiche for the interoperability tests (\<^verbatim>\<open>src/interop/quiche-driver/src/bin/quiche_driver.rs\<close>): it reads its
  arguments, runs one of the drivers and reports by its output and its exit code. The process has a world for
  the drivers; the value \<open>None\<close> is a driver that does not end.
\<close>

section \<open>Arguments\<close>

record Options =
  opt_early_data :: bool
  opt_migration :: bool

definition starts_with :: "string \<Rightarrow> string \<Rightarrow> bool" where
  "starts_with p s = (take (length p) s = p)"

fun parse_loop :: "string list \<Rightarrow> string list \<Rightarrow> Options \<Rightarrow> string + string list \<times> Options" where
  "parse_loop [] positional options = Inr (positional, options)"
| "parse_loop (arg # args) positional options =
    (if arg = ''--early-data'' then parse_loop args positional (options\<lparr>opt_early_data := True\<rparr>)
     else if arg = ''--migration'' \<or> arg = ''--migrate'' then parse_loop args positional (options\<lparr>opt_migration := True\<rparr>)
     else if starts_with ''--'' arg then Inl (''unknown option: '' @ arg)
     else parse_loop args (positional @ [arg]) options)"

definition parse_args :: "string list \<Rightarrow> string + string list \<times> Options" where
  "parse_args args = parse_loop args [] \<lparr>opt_early_data = False, opt_migration = False\<rparr>"

section \<open>The process\<close>

datatype exit_code = SUCCESS | FAILURE | Panic

record 'w process =
  pr_machine :: "'w machine"
  pr_stdout :: bytes
  pr_stderr :: "string list"

definition eprintln :: "string \<Rightarrow> 'w process \<Rightarrow> 'w process" where
  "eprintln line p = p\<lparr>pr_stderr := pr_stderr p @ [line]\<rparr>"

text \<open>A failing write to the standard output is ignored.\<close>

definition write_stdout :: "bytes \<Rightarrow> 'w process \<Rightarrow> 'w process" where
  "write_stdout data p = p\<lparr>pr_stdout := pr_stdout p @ data\<rparr>"

definition usage :: "'w process \<Rightarrow> 'w process" where
  "usage p =
    eprintln ''       quiche_driver server <cert_path> <key_path> [--early-data] [--migration]''
      (eprintln ''usage: quiche_driver client <server_addr> <ca_cert_path> <payload> [--early-data] [--migrate]'' p)"

text \<open>The texts of the errors of \<^verbatim>\<open>RawQuiche\<close>.\<close>

fun error_text :: "(SocketAddr \<Rightarrow> string) \<Rightarrow> driver_error \<Rightarrow> string" where
  "error_text show_addr (Failed msg e) = msg @ '': '' @ e"
| "error_text show_addr (NoSocket a) = ''no socket bound to '' @ show_addr a"
| "error_text show_addr (WaitTimedOut description) = ''timed out while waiting for '' @ description"
| "error_text show_addr (PathTimedOut a) = ''timed out while waiting for the path validation of '' @ show_addr a"
| "error_text show_addr NotResumed = ''the server did not resume the session''"
| "error_text show_addr NoTicket = ''the session ticket is not available''"
| "error_text show_addr Panicked = ''''"

text \<open>What the process is given: quiche, the operating system, the start of the asynchronous runtime and what it answers, and the
  conversions of the standard library between addresses and text.\<close>

record ('q, 'w) driver_env =
  de_quiche :: "'q quiche_api"
  de_os :: "'w os"
  de_settings :: QuicSettings
  de_client :: "'q client_env"
  de_runtime :: "string + unit"
  de_parse_addr :: "string \<Rightarrow> SocketAddr option"
  de_show_addr :: "SocketAddr \<Rightarrow> string"
  de_listen :: "nat \<Rightarrow> QuicSettings \<Rightarrow> string \<Rightarrow> string \<Rightarrow> string + (string + unit) list \<times> bool"

definition run_async :: "string + unit \<Rightarrow> (string + 'a) option \<Rightarrow> (string + 'a) option" where
  "run_async runtime result =
    (case runtime of Inl e \<Rightarrow> Some (Inl (''failed to start the runtime: '' @ e)) | Inr _ \<Rightarrow> result)"

text \<open>The result of a driver: a panic, an error text or the data.\<close>

datatype client_result = ClientPanics | ClientFails string | ClientGets bytes

fun raw_outcome :: "(SocketAddr \<Rightarrow> string) \<Rightarrow> driver_error + bytes \<Rightarrow> client_result" where
  "raw_outcome show_addr (Inl Panicked) = ClientPanics"
| "raw_outcome show_addr (Inl e) = ClientFails (error_text show_addr e)"
| "raw_outcome show_addr (Inr echoed) = ClientGets echoed"

definition run_raw :: "('q, 'w) driver_env \<Rightarrow> ('w machine, bytes) prog \<Rightarrow> 'w process \<Rightarrow> (client_result \<times> 'w process) option" where
  "run_raw env body p = map_option (\<lambda>(r, m). (raw_outcome (de_show_addr env) r, p\<lparr>pr_machine := m\<rparr>)) (body (pr_machine p))"

definition run_client :: "('q, 'w) driver_env \<Rightarrow> Options \<Rightarrow> SocketAddr \<Rightarrow> string \<Rightarrow> bytes \<Rightarrow> 'w process
    \<Rightarrow> (client_result \<times> 'w process) option" where
  "run_client env options server_addr ca_cert_path payload p =
    (if opt_migration options
     then run_raw env (client_migrate_roundtrip (de_quiche env) (de_os env) server_addr ca_cert_path payload) p
     else if opt_early_data options
     then run_raw env (client_early_data_roundtrip (de_quiche env) (de_os env) server_addr ca_cert_path payload) p
     else map_option (\<lambda>r. (case r of Inl e \<Rightarrow> ClientFails e | Inr echoed \<Rightarrow> ClientGets echoed, p))
       (run_async (de_runtime env)
         (client_roundtrip (de_quiche env) (de_settings env) (de_client env) server_addr ca_cert_path payload)))"

definition client_exit :: "client_result \<Rightarrow> 'w process \<Rightarrow> exit_code \<times> 'w process" where
  "client_exit r p =
    (case r of
       ClientGets echoed \<Rightarrow> (SUCCESS, write_stdout echoed p)
     | ClientFails e \<Rightarrow> (FAILURE, eprintln (''quiche client failed: '' @ e) p)
     | ClientPanics \<Rightarrow> (Panic, p))"

text \<open>Arguments are sequences of bytes, as the operating system gives them.\<close>

definition driver_client :: "('q, 'w) driver_env \<Rightarrow> string list \<Rightarrow> 'w process \<Rightarrow> (exit_code \<times> 'w process) option" where
  "driver_client env args p =
    (case parse_args args of
       Inl e \<Rightarrow> Some (FAILURE, usage (eprintln e p))
     | Inr (positional, options) \<Rightarrow>
       if length positional \<noteq> 3 then Some (FAILURE, usage p)
       else if opt_early_data options \<and> opt_migration options
       then Some (FAILURE, eprintln ''--early-data and --migrate cannot be used together'' p)
       else case de_parse_addr env (positional ! 0) of
         None \<Rightarrow> Some (FAILURE, eprintln (''invalid server address: '' @ positional ! 0) p)
       | Some server_addr \<Rightarrow>
         map_option (\<lambda>(r, p). client_exit r p)
           (run_client env options server_addr (positional ! 1) (map of_char (positional ! 2)) p))"

definition driver_server :: "('q, 'w) driver_env \<Rightarrow> string list \<Rightarrow> 'w process \<Rightarrow> (exit_code \<times> 'w process) option" where
  "driver_server env args p =
    (case parse_args args of
       Inl e \<Rightarrow> Some (FAILURE, usage (eprintln e p))
     | Inr (positional, options) \<Rightarrow>
       if length positional \<noteq> 2 then Some (FAILURE, usage p)
       else
         let (r, w) = os_bind (de_os env) (SockV4 0x7F000001 0) (m_world (pr_machine p));
             p = p\<lparr>pr_machine := (pr_machine p)\<lparr>m_world := w\<rparr>\<rparr>
         in case r of
              Inl e \<Rightarrow> Some (FAILURE, eprintln (''failed to bind: '' @ e) p)
            | Inr listener \<Rightarrow>
              (case os_local_addr (de_os env) listener of
                 Inl e \<Rightarrow> Some (FAILURE, eprintln (''failed to get local address: '' @ e) p)
               | Inr addr \<Rightarrow>
                 let p = write_stdout (map of_char (de_show_addr env addr @ [CHR 0x0A])) p;
                     server_options = \<lparr>so_early_data = opt_early_data options, so_migration = opt_migration options\<rparr>
                 in case run_async (de_runtime env)
                      (fst (server_echo (de_settings env) (de_listen env) listener (positional ! 0) (positional ! 1) server_options)) of
                   None \<Rightarrow> None
                 | Some (Inr _) \<Rightarrow> Some (SUCCESS, p)
                 | Some (Inl e) \<Rightarrow> Some (FAILURE, eprintln (''quiche server failed: '' @ e) p)))"

text \<open>\<open>args\<close> are the arguments after the name of the program.\<close>

definition driver_main :: "('q, 'w) driver_env \<Rightarrow> string list \<Rightarrow> 'w process \<Rightarrow> (exit_code \<times> 'w process) option" where
  "driver_main env args p =
    (case args of
       [] \<Rightarrow> Some (FAILURE, usage p)
     | cmd # rest \<Rightarrow>
       if cmd = ''client'' then driver_client env rest p
       else if cmd = ''server'' then driver_server env rest p
       else Some (FAILURE, usage p))"

section \<open>Lemmas\<close>

definition is_flag :: "string \<Rightarrow> bool" where
  "is_flag arg \<longleftrightarrow> arg \<in> {''--early-data'', ''--migration'', ''--migrate''}"

definition unknown_flag :: "string \<Rightarrow> bool" where
  "unknown_flag arg \<longleftrightarrow> starts_with ''--'' arg \<and> \<not> is_flag arg"

lemma parse_loop_spec:
  "parse_loop args positional options =
    (case find unknown_flag args of
       Some arg \<Rightarrow> Inl (''unknown option: '' @ arg)
     | None \<Rightarrow> Inr (positional @ filter (\<lambda>arg. \<not> starts_with ''--'' arg) args,
         options\<lparr>opt_early_data := opt_early_data options \<or> ''--early-data'' \<in> set args,
           opt_migration := opt_migration options \<or> ''--migration'' \<in> set args \<or> ''--migrate'' \<in> set args\<rparr>))"
proof (induction args arbitrary: positional options)
  case (Cons arg args)
  have s: "starts_with ''--'' ''--early-data''" "starts_with ''--'' ''--migration''" "starts_with ''--'' ''--migrate''"
    by (simp_all add: starts_with_def)
  show ?case
  proof (cases "is_flag arg")
    case True
    then show ?thesis using s by (auto simp: Cons.IH is_flag_def unknown_flag_def split: option.split)
  next
    case False
    then show ?thesis by (auto simp: Cons.IH is_flag_def unknown_flag_def split: option.split)
  qed
qed simp

lemma length_three: "length xs = 3 \<longleftrightarrow> (\<exists>a b c. xs = [a, b, c])"
  by (auto simp: numeral_3_eq_3 length_Suc_conv)

lemma run_client_silent: "run_client env options a path payload p = Some (r, q) \<Longrightarrow> pr_stdout q = pr_stdout p \<and> pr_stderr q = pr_stderr p"
  by (auto simp: run_client_def run_raw_def split: if_splits)

lemma usage_lines: "\<exists>l. l \<noteq> [] \<and> pr_stderr (usage p) = pr_stderr p @ l" "pr_stdout (usage p) = pr_stdout p"
  by (simp_all add: usage_def eprintln_def)

lemma eprintln_lines [simp]: "pr_stderr (eprintln line p) = pr_stderr p @ [line]" "pr_stdout (eprintln line p) = pr_stdout p"
  by (simp_all add: eprintln_def)

lemma write_stdout_lines [simp]: "pr_stderr (write_stdout data p) = pr_stderr p" "pr_stdout (write_stdout data p) = pr_stdout p @ data"
  by (simp_all add: write_stdout_def)

definition failed_with_reason :: "exit_code \<Rightarrow> 'w process \<Rightarrow> 'w process \<Rightarrow> bool" where
  "failed_with_reason code p q \<longleftrightarrow> code = FAILURE \<and> pr_stdout q = pr_stdout p \<and> (\<exists>l. l \<noteq> [] \<and> pr_stderr q = pr_stderr p @ l)"

lemma usage_fails: "failed_with_reason FAILURE p (usage p)" "failed_with_reason FAILURE p (usage (eprintln e p))"
    "failed_with_reason FAILURE p (eprintln e p)"
  using usage_lines [of p] usage_lines [of "eprintln e p"] by (auto simp: failed_with_reason_def)

section \<open>Properties\<close>

text \<open>C35. The exit code of the client program tells what happened: it ends with success exactly when there are three positional arguments
  beside known options, not both of them, the first is an address and the driver chosen by the options
  returns an echo, which is then the whole output; when it fails it writes nothing to the standard output and a
  reason to the standard error; otherwise the driver has panicked.\<close>

theorem driver_exit_code:
  assumes "driver_main env (''client'' # args) p = Some (code, q)"
  shows "(code = SUCCESS \<longleftrightarrow>
      (\<exists>a path payload options server_addr echoed r.
        parse_args args = Inr ([a, path, payload], options) \<and> \<not> (opt_early_data options \<and> opt_migration options)
        \<and> de_parse_addr env a = Some server_addr
        \<and> run_client env options server_addr path (map of_char payload) p = Some (ClientGets echoed, r)
        \<and> pr_stdout q = pr_stdout p @ echoed \<and> pr_stderr q = pr_stderr p))
    \<and> (code = FAILURE \<longleftrightarrow> failed_with_reason code p q)
    \<and> (code = Panic \<longrightarrow> pr_stdout q = pr_stdout p \<and> pr_stderr q = pr_stderr p)"
proof -
  note d = driver_main_def driver_client_def
  consider (bad) e where "parse_args args = Inl e"
    | (args) positional options where "parse_args args = Inr (positional, options)" "length positional \<noteq> 3"
    | (client) a path payload options where "parse_args args = Inr ([a, path, payload], options)"
    by (metis length_three surj_pair sumE)
  then show ?thesis
  proof cases
    case client
    consider (refused) e where "code = FAILURE" "q = eprintln e p"
        "\<not> (\<not> (opt_early_data options \<and> opt_migration options) \<and> de_parse_addr env a \<noteq> None)"
      | (ran) server_addr r p1 where "\<not> (opt_early_data options \<and> opt_migration options)" "de_parse_addr env a = Some server_addr"
        "run_client env options server_addr path (map of_char payload) p = Some (r, p1)" "(code, q) = client_exit r p1"
      using assms client by (auto simp: d client_exit_def split: if_splits option.splits)
    then show ?thesis
    proof cases
      case refused
      then show ?thesis using client usage_fails(3) [of p e] by auto
    next
      case ran
      then show ?thesis using client run_client_silent [OF ran(3)]
        by (cases r) (auto simp: client_exit_def failed_with_reason_def)
    qed
  qed (use assms usage_fails in \<open>auto simp: d\<close>)
qed

definition sample_env :: "(nat, nat) driver_env" where
  "sample_env = \<lparr>de_quiche = sample_quiche, de_os = sample_os,
     de_settings = \<lparr>qs_alpn = [], qs_max_idle_timeout = None, qs_max_recv_udp_payload_size = 0, qs_max_send_udp_payload_size = 0,
       qs_initial_max_data = 0, qs_initial_max_stream_data_bidi_local = 0, qs_initial_max_stream_data_bidi_remote = 0,
       qs_initial_max_stream_data_uni = 0, qs_initial_max_streams_bidi = 0, qs_initial_max_streams_uni = 0,
       qs_disable_client_ip_validation = False, qs_verify_peer = False, qs_enable_early_data = False, qs_disable_active_migration = False\<rparr>,
     de_client = \<lparr>ce_bind = Inr (), ce_connect = (\<lambda>_. Inr ()), ce_from_udp = Inr (), ce_worker = (\<lambda>_ _. Inr []), ce_stopped = True\<rparr>,
     de_runtime = Inr (), de_parse_addr = (\<lambda>s. if s = ''s'' then Some (SockV4 1 1) else None), de_show_addr = (\<lambda>_. ''s''),
     de_listen = (\<lambda>_ _ _ _. Inr ([], True))\<rparr>"

theorem driver_exit_code_witness:
  "\<exists>q. driver_main sample_env [''client'', ''--migrate'', ''s'', ''ca'', [CHR 0x05]]
       \<lparr>pr_machine = \<lparr>m_world = 0, m_log = []\<rparr>, pr_stdout = [], pr_stderr = []\<rparr> = Some (SUCCESS, q)
    \<and> pr_stdout q = [5] \<and> pr_stderr q = []"
proof -
  let ?p = "\<lparr>pr_machine = \<lparr>m_world = 0, m_log = []\<rparr>, pr_stdout = [], pr_stderr = []\<rparr>"
  let ?args = "[''--migrate'', ''s'', ''ca'', [CHR 0x05]]"
  obtain m1 where m: "client_migrate_roundtrip sample_quiche sample_os (SockV4 1 1) ''ca'' [5] \<lparr>m_world = 0, m_log = []\<rparr> = Some (Inr [5], m1)"
    using sample_migration by blast
  have a: "parse_args ?args = Inr ([''s'', ''ca'', [CHR 0x05]], \<lparr>opt_early_data = False, opt_migration = True\<rparr>)"
    by (simp add: parse_args_def starts_with_def)
  have r: "run_client sample_env \<lparr>opt_early_data = False, opt_migration = True\<rparr> (SockV4 1 1) ''ca'' [5] ?p
      = Some (ClientGets [5], ?p\<lparr>pr_machine := m1\<rparr>)"
    using m by (simp add: run_client_def run_raw_def sample_env_def)
  have e: "de_parse_addr sample_env ''s'' = Some (SockV4 1 1)" by (simp add: sample_env_def)
  obtain q where q: "driver_main sample_env (''client'' # ?args) ?p = Some (SUCCESS, q)"
    using a r e by (simp add: driver_main_def driver_client_def client_exit_def)
  obtain echoed r' where "run_client sample_env \<lparr>opt_early_data = False, opt_migration = True\<rparr> (SockV4 1 1) ''ca'' [5] ?p
      = Some (ClientGets echoed, r')" "pr_stdout q = echoed" "pr_stderr q = []"
    using driver_exit_code [OF q] a e by auto
  then show ?thesis using q r by simp
qed

end
